(* ===== verification/Prelude.thy ===== *)
theory Prelude
  imports Main "HOL-Library.Sublist" "HOL-Library.State_Monad"
begin

text \<open>
  Shared vocabulary of the development: the values Go code passes around (errors, format
  arguments, results), the state-and-error programs the effectful components are written in,
  and the generic lemmas their proofs use.

  \<^item> A Go pair \<open>(v, err)\<close> is a value of \<open>go_error + 'a\<close>; a lone \<open>error\<close> is a \<open>go_error option\<close>.
  \<^item> A formatted message (\<open>t.Fatalf\<close>, \<open>fmt.Errorf\<close>, \<open>fmt.Printf\<close>) keeps the source's format
    string and its argument list unrendered; strings that the program computes with (QEMU
    arguments, MAC addresses, shell commands) are rendered.
  \<^item> A stateful routine is a \<open>('s, 'a) state\<close> program of \<open>State_Monad\<close>, so that the
    statements of the source are the lines of a \<open>do\<close> block; \<open>on_err\<close> is the
    \<open>if err != nil { return wrap(err) }\<close> that follows a call.
\<close>

named_theorems go_std \<open>facts about the modelled part of Go's standard library\<close>
named_theorems effect_simps \<open>unfolding of effectful primitives\<close>
named_theorems preserves_rules \<open>rules for invariants of state programs\<close>
named_theorems triple_rules \<open>rules for Hoare triples over state programs\<close>

section \<open>Errors and messages\<close>

text \<open>Errors of \<open>os/exec\<close> (the source asks \<open>err.(*exec.ExitError)\<close>) and of \<open>strconv.Atoi\<close>.\<close>

datatype exec_error = ExitError int | ExecOther string

datatype num_error = ErrSyntax | ErrRange

datatype fmt_arg =
    AStr string | AInt int | ABool bool | ADur int | AStrs "string list" | AErr go_error
and go_error =
    Errorf string "fmt_arg list" | ErrNum num_error string | ErrExec exec_error
  | ErrExt string | ErrCanceled

text \<open>A printed or logged line: format string and arguments.\<close>

type_synonym message = "string \<times> fmt_arg list"

text \<open>\<open>t.Fatalf\<close> ends the test's goroutine, \<open>panic\<close> unwinds it; both stop the caller.\<close>

datatype halt = Fatalf string "fmt_arg list" | Panic string "fmt_arg list"

section \<open>State programs with early returns\<close>

abbreviation (input) ret :: "'a \<Rightarrow> ('s, 'a) state" where
  "ret \<equiv> State_Monad.return"

definition gets :: "('s \<Rightarrow> 'a) \<Rightarrow> ('s, 'a) state" where
  "gets f = State (\<lambda>s. (f s, s))"

definition modify :: "('s \<Rightarrow> 's) \<Rightarrow> ('s, unit) state" where
  "modify f = State (\<lambda>s. ((), f s))"

lemma run_gets [simp, effect_simps]: "run_state (gets f) s = (f s, s)"
  by (simp add: gets_def)

lemma run_modify [simp, effect_simps]: "run_state (modify f) s = ((), f s)"
  by (simp add: modify_def)

text \<open>\<open>x, err := call(); if err != nil { return wrap(err) }; k(x)\<close>\<close>

definition on_err ::
  "go_error + 'a \<Rightarrow> (go_error \<Rightarrow> 'e) \<Rightarrow> ('a \<Rightarrow> ('s, 'e + 'b) state) \<Rightarrow> ('s, 'e + 'b) state" where
  "on_err r wrap k = (case r of Inl e \<Rightarrow> ret (Inl (wrap e)) | Inr x \<Rightarrow> k x)"

lemma on_err_simps [simp]:
  "on_err (Inl e) wrap k = ret (Inl (wrap e))"
  "on_err (Inr x) wrap k = k x"
  by (simp_all add: on_err_def)

text \<open>\<open>if err := call(); err != nil { return wrap(err) }; k\<close>\<close>

definition on_some_err ::
  "go_error option \<Rightarrow> (go_error \<Rightarrow> 'e) \<Rightarrow> ('s, 'e + 'b) state \<Rightarrow> ('s, 'e + 'b) state" where
  "on_some_err r wrap k = (case r of Some e \<Rightarrow> ret (Inl (wrap e)) | None \<Rightarrow> k)"

lemma on_some_err_simps [simp]:
  "on_some_err (Some e) wrap k = ret (Inl (wrap e))"
  "on_some_err None wrap k = k"
  by (simp_all add: on_some_err_def)

text \<open>\<open>for _, x := range xs { body(x) }\<close>\<close>

primrec for_each :: "'a list \<Rightarrow> ('a \<Rightarrow> ('s, unit) state) \<Rightarrow> ('s, unit) state" where
  "for_each [] body = ret ()"
| "for_each (x # xs) body = do { body x; for_each xs body }"

lemma run_for_each_append:
  "run_state (for_each (xs @ ys) body) s = run_state (for_each ys body) (snd (run_state (for_each xs body) s))"
  by (induction xs arbitrary: s) (auto split: prod.splits)

section \<open>Hoare triples\<close>

text \<open>\<open>triple P m Q\<close>: from a state satisfying \<open>P\<close>, \<open>m\<close> returns a value and a state related by \<open>Q\<close>.
  State programs are total, so this is total correctness.\<close>

definition triple :: "('s \<Rightarrow> bool) \<Rightarrow> ('s, 'a) state \<Rightarrow> ('a \<Rightarrow> 's \<Rightarrow> bool) \<Rightarrow> bool" where
  "triple P m Q \<longleftrightarrow> (\<forall>s. P s \<longrightarrow> (case run_state m s of (a, s') \<Rightarrow> Q a s'))"

lemma tripleI: "(\<And>s a s'. P s \<Longrightarrow> run_state m s = (a, s') \<Longrightarrow> Q a s') \<Longrightarrow> triple P m Q"
  by (auto simp: triple_def)

lemma tripleD: "triple P m Q \<Longrightarrow> P s \<Longrightarrow> run_state m s = (a, s') \<Longrightarrow> Q a s'"
  by (force simp: triple_def)

lemma triple_weaken:
  "triple P m Q \<Longrightarrow> (\<And>s. P' s \<Longrightarrow> P s) \<Longrightarrow> (\<And>a s. Q a s \<Longrightarrow> Q' a s) \<Longrightarrow> triple P' m Q'"
  by (fastforce simp: triple_def)

lemma triple_return [triple_rules]: "(\<And>s. P s \<Longrightarrow> Q a s) \<Longrightarrow> triple P (ret a) Q"
  by (simp add: triple_def)

lemma triple_bind [triple_rules]:
  assumes "triple P m R" and "\<And>a. triple (R a) (f a) Q"
  shows "triple P (State_Monad.bind m f) Q"
proof (rule tripleI)
  fix s b s'
  assume "P s" and run: "run_state (State_Monad.bind m f) s = (b, s')"
  obtain a t where m: "run_state m s = (a, t)" by fastforce
  with assms(1) \<open>P s\<close> have "R a t" by (rule_tac tripleD)
  moreover from run m have "run_state (f a) t = (b, s')" by simp
  ultimately show "Q b s'" using assms(2) tripleD by metis
qed

lemma triple_gets: "(\<And>s. P s \<Longrightarrow> Q (f s) s) \<Longrightarrow> triple P (gets f) Q"
  by (simp add: triple_def)

lemma triple_modify: "(\<And>s. P s \<Longrightarrow> Q () (f s)) \<Longrightarrow> triple P (modify f) Q"
  by (simp add: triple_def)

lemma triple_on_err:
  assumes "\<And>e. r = Inl e \<Longrightarrow> triple P (ret (Inl (wrap e))) Q"
    and "\<And>x. r = Inr x \<Longrightarrow> triple P (k x) Q"
  shows "triple P (on_err r wrap k) Q"
  using assms by (cases r) auto

lemma triple_on_some_err:
  assumes "\<And>e. r = Some e \<Longrightarrow> triple P (ret (Inl (wrap e))) Q"
    and "r = None \<Longrightarrow> triple P k Q"
  shows "triple P (on_some_err r wrap k) Q"
  using assms by (cases r) auto

lemma triple_for_each:
  assumes "\<And>x. x \<in> set xs \<Longrightarrow> triple I (body x) (\<lambda>_. I)"
  shows "triple I (for_each xs body) (\<lambda>_. I)"
  using assms by (induction xs) (auto intro!: triple_rules)

section \<open>Invariants of state programs\<close>

definition preserves :: "('s \<Rightarrow> bool) \<Rightarrow> ('s, 'a) state \<Rightarrow> bool" where
  "preserves I m \<longleftrightarrow> (\<forall>s. I s \<longrightarrow> I (snd (run_state m s)))"

lemma preservesI: "(\<And>s a s'. I s \<Longrightarrow> run_state m s = (a, s') \<Longrightarrow> I s') \<Longrightarrow> preserves I m"
  by (metis preserves_def prod.collapse)

lemma preservesD: "preserves I m \<Longrightarrow> run_state m s = (a, s') \<Longrightarrow> I s \<Longrightarrow> I s'"
  by (metis preserves_def snd_conv)

lemma preserves_bind [preserves_rules]:
  "preserves I m \<Longrightarrow> (\<And>a. preserves I (f a)) \<Longrightarrow> preserves I (State_Monad.bind m f)"
  by (auto simp: preserves_def split: prod.splits)

lemma preserves_return [preserves_rules]: "preserves I (ret a)"
  by (simp add: preserves_def)

lemma preserves_gets [preserves_rules]: "preserves I (gets f)"
  by (simp add: preserves_def)

lemma preserves_modify: "(\<And>s. I s \<Longrightarrow> I (f s)) \<Longrightarrow> preserves I (modify f)"
  by (simp add: preserves_def)

lemma preserves_if [preserves_rules]:
  "(b \<Longrightarrow> preserves I m) \<Longrightarrow> (\<not> b \<Longrightarrow> preserves I n) \<Longrightarrow> preserves I (if b then m else n)"
  by simp

lemma preserves_option [preserves_rules]:
  "(x = None \<Longrightarrow> preserves I m) \<Longrightarrow> (\<And>a. x = Some a \<Longrightarrow> preserves I (f a)) \<Longrightarrow> preserves I (case x of None \<Rightarrow> m | Some a \<Rightarrow> f a)"
  by (cases x) simp_all

lemma preserves_sum [preserves_rules]:
  "(\<And>a. x = Inl a \<Longrightarrow> preserves I (f a)) \<Longrightarrow> (\<And>b. x = Inr b \<Longrightarrow> preserves I (g b)) \<Longrightarrow> preserves I (case x of Inl a \<Rightarrow> f a | Inr b \<Rightarrow> g b)"
  by (cases x) simp_all

lemma preserves_prod [preserves_rules]:
  "(\<And>a b. x = (a, b) \<Longrightarrow> preserves I (f a b)) \<Longrightarrow> preserves I (case x of (a, b) \<Rightarrow> f a b)"
  by (cases x) simp

lemma preserves_on_err [preserves_rules]:
  "(\<And>x. r = Inr x \<Longrightarrow> preserves I (k x)) \<Longrightarrow> preserves I (on_err r wrap k)"
  by (cases r) (simp_all add: preserves_return)

lemma preserves_on_some_err [preserves_rules]:
  "(r = None \<Longrightarrow> preserves I k) \<Longrightarrow> preserves I (on_some_err r wrap k)"
  by (cases r) (simp_all add: preserves_return)

lemma preserves_for_each [preserves_rules]:
  "(\<And>x. x \<in> set xs \<Longrightarrow> preserves I (body x)) \<Longrightarrow> preserves I (for_each xs body)"
  by (induction xs) (auto intro!: preserves_bind simp: preserves_return)

section \<open>Lists, options, sums\<close>

lemma sum_cases_iff: "(case x of Inl a \<Rightarrow> P a | Inr b \<Rightarrow> Q b) \<longleftrightarrow>
   (\<forall>a. x = Inl a \<longrightarrow> P a) \<and> (\<forall>b. x = Inr b \<longrightarrow> Q b)"
  by (cases x) auto

lemma foldl_app_last: "foldl (\<lambda>c f. f c) c (fs @ [g]) = g (foldl (\<lambda>c f. f c) c fs)"
  by simp

lemma filter_id_set: "(\<And>x. x \<in> set xs \<Longrightarrow> P x) \<Longrightarrow> filter P xs = xs"
  by (induction xs) auto

end
