(* ===== verification/GoStd.thy ===== *)
theory GoStd
  imports Prelude
begin

text \<open>
  The part of Go's standard library the program computes with. A Go string is a byte
  sequence, so a string here is a list of bytes (\<open>char\<close>).

  \<^item> \<open>strings\<close>: \<open>Contains\<close>, \<open>HasPrefix\<close>, \<open>LastIndex\<close>, \<open>Split\<close> and \<open>Join\<close> with a one-byte separator,
    \<open>ReplaceAll\<close> of one byte, \<open>TrimSpace\<close>, \<open>Fields\<close>, \<open>ToLower\<close>;
  \<^item> \<open>strconv.Atoi\<close> and the verbs \<open>%d\<close> and \<open>%02x\<close> of \<open>fmt\<close>;
  \<^item> \<open>path/filepath\<close> on Unix: \<open>Clean\<close>, \<open>Join\<close>, \<open>Dir\<close>, \<open>IsAbs\<close>.

  White space is Unicode's, by the UTF-8 encodings of the runes \<open>unicode.IsSpace\<close> accepts:
  UTF-8 is self-synchronising, so matching an encoding at a byte position and decoding the
  rune there agree.
\<close>

section \<open>strings\<close>

fun HasPrefix :: "string \<Rightarrow> string \<Rightarrow> bool" where
  "HasPrefix s [] = True"
| "HasPrefix [] (p # ps) = False"
| "HasPrefix (x # s) (p # ps) = (x = p \<and> HasPrefix s ps)"

lemma HasPrefix_iff [go_std]: "HasPrefix s p \<longleftrightarrow> prefix p s"
  by (induction s p rule: HasPrefix.induct) auto

primrec Contains :: "string \<Rightarrow> string \<Rightarrow> bool" where
  "Contains [] sub = (sub = [])"
| "Contains (x # s) sub = (HasPrefix (x # s) sub \<or> Contains s sub)"

lemma Contains_iff [go_std]: "Contains s sub \<longleftrightarrow> sublist sub s"
  by (induction s) (auto simp: HasPrefix_iff sublist_Cons_right)

lemma Contains_empty [simp]: "Contains s []"
  by (simp add: Contains_iff)

text \<open>\<open>strings.LastIndex\<close>; \<open>None\<close> is Go's \<open>-1\<close>.\<close>

primrec LastIndex :: "string \<Rightarrow> string \<Rightarrow> nat option" where
  "LastIndex [] sub = (if sub = [] then Some 0 else None)"
| "LastIndex (x # s) sub =
     (case LastIndex s sub of
        Some i \<Rightarrow> Some (Suc i)
      | None \<Rightarrow> if HasPrefix (x # s) sub then Some 0 else None)"

lemma LastIndex_Some: "LastIndex s sub = Some i \<Longrightarrow> i \<le> length s \<and> prefix sub (drop i s)"
  by (induction s arbitrary: i) (auto simp: HasPrefix_iff split: option.splits if_splits)

lemma LastIndex_None: "LastIndex s sub = None \<longleftrightarrow> \<not> Contains s sub"
  by (induction s) (auto split: option.splits)

lemma LastIndex_append: "LastIndex t sub = Some i \<Longrightarrow> LastIndex (s @ t) sub = Some (length s + i)"
  by (induction s) auto

text \<open>\<open>strings.Split\<close> and \<open>strings.Join\<close> with a one-byte separator.\<close>

fun Split :: "char \<Rightarrow> string \<Rightarrow> string list" where
  "Split c [] = [[]]"
| "Split c (x # xs) =
     (if x = c then [] # Split c xs
      else (case Split c xs of [] \<Rightarrow> [[x]] | y # ys \<Rightarrow> (x # y) # ys))"

fun Join :: "char \<Rightarrow> string list \<Rightarrow> string" where
  "Join c [] = []"
| "Join c [s] = s"
| "Join c (s # t # ss) = s @ c # Join c (t # ss)"

lemma Split_nonempty [simp]: "Split c s \<noteq> []"
  by (induction s) (auto split: list.splits)

lemma Join_Cons: "ss \<noteq> [] \<Longrightarrow> Join c (s # ss) = s @ c # Join c ss"
  by (cases ss) auto

lemma Join_Split [simp]: "Join c (Split c s) = s"
proof (induction s)
  case (Cons x s)
  obtain y ys where ys: "Split c s = y # ys" by (meson Split_nonempty list.exhaust)
  with Cons show ?case by (cases ys) (auto simp: Join_Cons)
qed simp

lemma Split_parts: "p \<in> set (Split c s) \<Longrightarrow> c \<notin> set p"
proof (induction s arbitrary: p)
  case (Cons x s)
  obtain y ys where "Split c s = y # ys" by (meson Split_nonempty list.exhaust)
  with Cons show ?case by (auto split: if_splits)
qed simp

lemma Split_no_sep: "c \<notin> set s \<Longrightarrow> Split c s = [s]"
  by (induction s) auto

lemma Split_append_sep: "c \<notin> set s \<Longrightarrow> Split c (s @ c # t) = s # Split c t"
  by (induction s) auto

lemma Split_Join: "ss \<noteq> [] \<Longrightarrow> (\<And>s. s \<in> set ss \<Longrightarrow> c \<notin> set s) \<Longrightarrow> Split c (Join c ss) = ss"
  by (induction c ss rule: Join.induct) (auto simp: Split_no_sep Split_append_sep)

text \<open>\<open>parts[len(parts)-1]\<close> of \<open>strings.Split(s, "/")\<close>: the last path element.\<close>

definition last_part :: "string \<Rightarrow> string" where
  "last_part s = last (Split (CHR ''/'') s)"

lemma last_part_no_slash: "CHR ''/'' \<notin> set (last_part s)"
  unfolding last_part_def by (rule Split_parts [where s = s]) simp

lemma last_part_id: "CHR ''/'' \<notin> set s \<Longrightarrow> last_part s = s"
  by (simp add: last_part_def Split_no_sep)

text \<open>\<open>strings.ReplaceAll(s, old, new)\<close> for a one-byte \<open>old\<close>.\<close>

definition ReplaceAll :: "string \<Rightarrow> char \<Rightarrow> string \<Rightarrow> string" where
  "ReplaceAll s old new = concat (map (\<lambda>c. if c = old then new else [c]) s)"

lemma ReplaceAll_simps [simp]:
  "ReplaceAll [] old new = []"
  "ReplaceAll (c # s) old new = (if c = old then new else [c]) @ ReplaceAll s old new"
  by (simp_all add: ReplaceAll_def)

section \<open>White space\<close>

text \<open>The UTF-8 encodings of the runes \<open>unicode.IsSpace\<close> accepts.\<close>

definition space_runes :: "string list" where
  "space_runes =
     [[CHR 0x09], [CHR 0x0A], [CHR 0x0B], [CHR 0x0C], [CHR 0x0D], [CHR 0x20],
      [CHR 0xC2, CHR 0x85], [CHR 0xC2, CHR 0xA0], [CHR 0xE1, CHR 0x9A, CHR 0x80],
      [CHR 0xE2, CHR 0x80, CHR 0x80], [CHR 0xE2, CHR 0x80, CHR 0x81], [CHR 0xE2, CHR 0x80, CHR 0x82],
      [CHR 0xE2, CHR 0x80, CHR 0x83], [CHR 0xE2, CHR 0x80, CHR 0x84], [CHR 0xE2, CHR 0x80, CHR 0x85],
      [CHR 0xE2, CHR 0x80, CHR 0x86], [CHR 0xE2, CHR 0x80, CHR 0x87], [CHR 0xE2, CHR 0x80, CHR 0x88],
      [CHR 0xE2, CHR 0x80, CHR 0x89], [CHR 0xE2, CHR 0x80, CHR 0x8A], [CHR 0xE2, CHR 0x80, CHR 0xA8],
      [CHR 0xE2, CHR 0x80, CHR 0xA9], [CHR 0xE2, CHR 0x80, CHR 0xAF], [CHR 0xE2, CHR 0x81, CHR 0x9F],
      [CHR 0xE3, CHR 0x80, CHR 0x80]]"

text \<open>The length of the first of the given byte sequences that starts the string, 0 if none does.\<close>

definition match_len :: "string list \<Rightarrow> string \<Rightarrow> nat" where
  "match_len rs s = (case find (HasPrefix s) rs of Some r \<Rightarrow> length r | None \<Rightarrow> 0)"

lemma match_len_le: "match_len rs s \<le> length s"
proof (cases "find (HasPrefix s) rs")
  case (Some r)
  then have "prefix r s" by (auto simp: find_Some_iff HasPrefix_iff)
  then show ?thesis using Some by (simp add: match_len_def prefix_length_le)
qed (simp add: match_len_def)

fun strip_runes :: "string list \<Rightarrow> string \<Rightarrow> string" where
  "strip_runes rs s =
     (let n = match_len rs s in if n = 0 \<or> s = [] then s else strip_runes rs (drop n s))"

declare strip_runes.simps [simp del]

text \<open>\<open>strings.TrimSpace\<close>: strip from the left, then, reading backwards, from the right.\<close>

definition TrimSpace :: "string \<Rightarrow> string" where
  "TrimSpace s = rev (strip_runes (map rev space_runes) (rev (strip_runes space_runes s)))"

text \<open>\<open>strings.Fields\<close>: the maximal runs of non-space bytes, in order.\<close>

fun fields_from :: "string \<Rightarrow> string \<Rightarrow> string list" where
  "fields_from acc [] = (if acc = [] then [] else [rev acc])"
| "fields_from acc (x # s) =
     (let n = match_len space_runes (x # s) in
      if n = 0 then fields_from (x # acc) s
      else (if acc = [] then [] else [rev acc]) @ fields_from [] (drop (n - 1) s))"

definition Fields :: "string \<Rightarrow> string list" where
  "Fields s = fields_from [] s"

section \<open>Case folding\<close>

text \<open>
  \<open>strings.ToLower\<close>. ASCII letters are lowered; of the other runes only U+0130 and U+212A have
  an ASCII lower case (\<open>i\<close> and \<open>k\<close>), every other rune stays outside ASCII and is left as it is
  here, which is exact for the comparison with ASCII literals the source makes of the result.
\<close>

definition lower_byte :: "char \<Rightarrow> char" where
  "lower_byte c = (let n = (of_char c :: nat) in if 65 \<le> n \<and> n \<le> 90 then char_of (n + 32) else c)"

fun ToLower :: "string \<Rightarrow> string" where
  "ToLower [] = []"
| "ToLower (x # s) =
     (if HasPrefix (x # s) [CHR 0xC4, CHR 0xB0] then CHR ''i'' # ToLower (drop 1 s)
      else if HasPrefix (x # s) [CHR 0xE2, CHR 0x84, CHR 0xAA] then CHR ''k'' # ToLower (drop 2 s)
      else lower_byte x # ToLower s)"

section \<open>Numbers\<close>

text \<open>\<open>strconv.Atoi\<close> on a 64-bit platform: optional sign, decimal digits; overflow is found
  while reading, so a too long number is a range error even when a non-digit follows.\<close>

definition digit_val :: "char \<Rightarrow> int option" where
  "digit_val c = (let n = of_char c in if 48 \<le> n \<and> n \<le> 57 then Some (n - 48) else None)"

fun parse_uint :: "int \<Rightarrow> string \<Rightarrow> num_error + int" where
  "parse_uint n [] = Inr n"
| "parse_uint n (c # cs) =
     (case digit_val c of
        None \<Rightarrow> Inl ErrSyntax
      | Some d \<Rightarrow> if 10 * n + d > 2 ^ 64 - 1 then Inl ErrRange else parse_uint (10 * n + d) cs)"

definition parse_digits :: "string \<Rightarrow> num_error + int" where
  "parse_digits s = (if s = [] then Inl ErrSyntax else parse_uint 0 s)"

definition parse_int :: "bool \<Rightarrow> string \<Rightarrow> num_error + int" where
  "parse_int neg s =
     (case parse_digits s of
        Inl e \<Rightarrow> Inl e
      | Inr n \<Rightarrow>
          if \<not> neg \<and> n \<ge> 2 ^ 63 then Inl ErrRange
          else if neg \<and> n > 2 ^ 63 then Inl ErrRange
          else Inr (if neg then - n else n))"

definition Atoi :: "string \<Rightarrow> go_error + int" where
  "Atoi s =
     (case (case s of
              [] \<Rightarrow> Inl ErrSyntax
            | c # cs \<Rightarrow> if c = CHR ''-'' then parse_int True cs
                        else if c = CHR ''+'' then parse_int False cs
                        else parse_int False (c # cs))
      of Inl e \<Rightarrow> Inl (ErrNum e s) | Inr i \<Rightarrow> Inr i)"

text \<open>The verbs \<open>%d\<close> and \<open>%02x\<close>; a sign counts towards the width.\<close>

definition digit_char :: "int \<Rightarrow> char" where
  "digit_char d = (if d < 10 then char_of (48 + d) else char_of (87 + d))"

function show_base :: "int \<Rightarrow> int \<Rightarrow> string" where
  "show_base b n = (if n < b \<or> b < 2 then [digit_char n] else show_base b (n div b) @ [digit_char (n mod b)])"
  by pat_completeness auto
termination
  by (relation "measure (\<lambda>(b, n). nat n)") (auto simp: int_div_less_self)

declare show_base.simps [simp del]

definition show_int :: "int \<Rightarrow> string" where
  "show_int i = (if i < 0 then CHR ''-'' # show_base 10 (- i) else show_base 10 i)"

definition fmt_02x :: "int \<Rightarrow> string" where
  "fmt_02x i =
     (if i < 0 then CHR ''-'' # show_base 16 (- i)
      else let s = show_base 16 i in if length s < 2 then CHR ''0'' # s else s)"

section \<open>path/filepath\<close>

definition IsAbs :: "string \<Rightarrow> bool" where
  "IsAbs p = HasPrefix p ''/''"

text \<open>\<open>filepath.Clean\<close>, on the path's elements; the stack holds the kept ones, last first.\<close>

definition clean_step :: "bool \<Rightarrow> string list \<Rightarrow> string \<Rightarrow> string list" where
  "clean_step rooted st c =
     (if c = [] \<or> c = ''.'' then st
      else if c = ''..'' then
        (case st of
           [] \<Rightarrow> if rooted then [] else [''..'']
         | x # xs \<Rightarrow> if x = ''..'' then ''..'' # x # xs else xs)
      else c # st)"

definition Clean :: "string \<Rightarrow> string" where
  "Clean p =
     (let body = Join (CHR ''/'') (rev (foldl (clean_step (IsAbs p)) [] (Split (CHR ''/'') p)))
      in if IsAbs p then CHR ''/'' # body else if body = [] then ''.'' else body)"

fun path_join :: "string list \<Rightarrow> string" where
  "path_join [] = []"
| "path_join (e # es) = (if e = [] then path_join es else Clean (Join (CHR ''/'') (e # es)))"

text \<open>\<open>filepath.Dir\<close>: everything up to and including the last separator, cleaned.\<close>

definition Dir :: "string \<Rightarrow> string" where
  "Dir p = Clean (case LastIndex p ''/'' of None \<Rightarrow> [] | Some i \<Rightarrow> take (Suc i) p)"

section \<open>Facts\<close>

subsection \<open>Reading back a printed number\<close>

lemma digit_char_val: "0 \<le> d \<Longrightarrow> d < 10 \<Longrightarrow> digit_val (digit_char d) = Some d"
  by (simp add: digit_val_def digit_char_def Let_def)

lemma parse_uint_append:
  "parse_uint n (s @ t) = (case parse_uint n s of Inl e \<Rightarrow> Inl e | Inr m \<Rightarrow> parse_uint m t)"
  by (induction n s rule: parse_uint.induct) (auto split: option.splits)

lemma parse_show_base: "0 \<le> n \<Longrightarrow> n < 2 ^ 64 \<Longrightarrow> parse_uint 0 (show_base 10 n) = Inr n"
proof (induction "10 :: int" n rule: show_base.induct)
  case (1 n)
  show ?case
  proof (cases "n < 10")
    case True
    then show ?thesis using 1 by (simp add: show_base.simps [of 10 n] digit_char_val)
  next
    case False
    then have "parse_uint 0 (show_base 10 (n div 10)) = Inr (n div 10)"
      using 1 by auto
    then show ?thesis using 1 False
      by (simp add: show_base.simps [of 10 n] parse_uint_append digit_char_val)
  qed
qed

lemma show_base_ne [simp]: "show_base b n \<noteq> []"
  by (subst show_base.simps) simp

lemma hd_show_base_digit: "0 \<le> n \<Longrightarrow> \<exists>d. 0 \<le> d \<and> d < 10 \<and> hd (show_base 10 n) = digit_char d"
proof (induction "10 :: int" n rule: show_base.induct)
  case (1 n)
  show ?case
  proof (cases "n < 10")
    case True
    then show ?thesis using 1 by (auto simp: show_base.simps [of 10 n])
  next
    case False
    then show ?thesis using 1 by (simp add: show_base.simps [of 10 n])
  qed
qed

lemma digit_char_not_sign: "0 \<le> d \<Longrightarrow> d < 10 \<Longrightarrow> digit_char d \<noteq> CHR ''-'' \<and> digit_char d \<noteq> CHR ''+''"
proof -
  assume "0 \<le> d" "d < 10"
  then have "digit_val (digit_char d) \<noteq> None" by (simp add: digit_char_val)
  then show ?thesis by (auto simp: digit_val_def)
qed

lemma Atoi_show_int:
  assumes "- (2 ^ 63) \<le> i" and "i < 2 ^ 63"
  shows "Atoi (show_int i) = Inr i"
proof (cases "i < 0")
  case True
  then have "parse_uint 0 (show_base 10 (- i)) = Inr (- i)" using assms by (intro parse_show_base) auto
  then show ?thesis using True assms by (simp add: Atoi_def show_int_def parse_int_def parse_digits_def)
next
  case False
  then have p: "parse_uint 0 (show_base 10 i) = Inr i" using assms by (intro parse_show_base) auto
  obtain c cs where c: "show_base 10 i = c # cs" by (cases "show_base 10 i") auto
  with hd_show_base_digit [of i] False have "c \<noteq> CHR ''-'' \<and> c \<noteq> CHR ''+''"
    using digit_char_not_sign by fastforce
  then show ?thesis using False p c assms by (simp add: Atoi_def show_int_def parse_int_def parse_digits_def)
qed

subsection \<open>Hexadecimal bytes\<close>

lemma show_base_16_small: "0 \<le> i \<Longrightarrow> i < 16 \<Longrightarrow> show_base 16 i = [digit_char i]"
  by (simp add: show_base.simps)

lemma char_zero: "char_of (48 :: int) = CHR ''0''"
  by code_simp

lemma fmt_02x_byte:
  assumes "0 \<le> i" and "i < 256"
  shows "fmt_02x i = [digit_char (i div 16), digit_char (i mod 16)]"
proof (cases "i < 16")
  case True
  then show ?thesis using assms by (simp add: fmt_02x_def show_base_16_small digit_char_def char_zero)
next
  case False
  then show ?thesis using assms
    by (simp add: fmt_02x_def show_base.simps [of 16 i] show_base_16_small)
qed

lemma show_base_16_long: "256 \<le> i \<Longrightarrow> 2 < length (show_base 16 i)"
  by (subst show_base.simps, subst show_base.simps, subst show_base.simps) auto

lemma digit_char_code: "0 \<le> d \<Longrightarrow> d < 16 \<Longrightarrow> (of_char (digit_char d) :: int) = (if d < 10 then 48 + d else 87 + d)"
  by (simp add: digit_char_def)

lemma digit_char_inj:
  assumes "0 \<le> d" "d < 16" "0 \<le> e" "e < 16" "digit_char d = digit_char e"
  shows "d = e"
proof -
  have "(if d < 10 then 48 + d else 87 + d) = (if e < 10 then 48 + e else 87 + e)"
    using digit_char_code [OF assms(1,2)] digit_char_code [OF assms(3,4)] assms(5) by metis
  then show ?thesis using assms(1-4) by (simp split: if_splits)
qed

subsection \<open>Paths in normal form\<close>

lemma Split_append: "Split c (s @ c # t) = Split c s @ Split c t"
proof (induction s)
  case (Cons x s)
  obtain y ys where "Split c s = y # ys" by (meson Split_nonempty list.exhaust)
  with Cons show ?case by auto
qed simp

lemma Join_snoc: "ss \<noteq> [] \<Longrightarrow> Join c (ss @ [t]) = Join c ss @ c # t"
  by (induction c ss rule: Join.induct) auto

definition path_elem :: "string \<Rightarrow> bool" where
  "path_elem c \<longleftrightarrow> c \<noteq> [] \<and> c \<noteq> ''.'' \<and> c \<noteq> ''..'' \<and> CHR ''/'' \<notin> set c"

lemma path_elemI: "c \<noteq> [] \<Longrightarrow> c \<noteq> ''.'' \<Longrightarrow> c \<noteq> ''..'' \<Longrightarrow> CHR ''/'' \<notin> set c \<Longrightarrow> path_elem c"
  by (simp add: path_elem_def)

definition abs_dir :: "string \<Rightarrow> bool" where
  "abs_dir p \<longleftrightarrow> (\<exists>cs. cs \<noteq> [] \<and> (\<forall>c \<in> set cs. path_elem c) \<and> p = CHR ''/'' # Join (CHR ''/'') cs)"

lemma foldl_clean_elems: "(\<forall>c \<in> set cs. path_elem c) \<Longrightarrow> foldl (clean_step r) st cs = rev cs @ st"
  by (induction cs arbitrary: st) (auto simp: clean_step_def path_elem_def)

lemma IsAbs_slash [simp]: "IsAbs (CHR ''/'' # p)"
  by (simp add: IsAbs_def)

lemma Clean_abs_elems:
  assumes "\<forall>c \<in> set cs. path_elem c" and "cs \<noteq> []"
  shows "Clean (CHR ''/'' # Join (CHR ''/'') cs) = CHR ''/'' # Join (CHR ''/'') cs"
proof -
  have "Split (CHR ''/'') (Join (CHR ''/'') cs) = cs"
    using assms by (intro Split_Join) (auto simp: path_elem_def)
  then show ?thesis using assms by (simp add: Clean_def foldl_clean_elems clean_step_def)
qed

lemma path_join_elem:
  assumes "abs_dir w" and "path_elem n"
  shows "path_join [w, n] = w @ CHR ''/'' # n \<and> abs_dir (path_join [w, n])"
proof -
  from assms(1) obtain cs where cs: "cs \<noteq> []" "\<forall>c \<in> set cs. path_elem c" "w = CHR ''/'' # Join (CHR ''/'') cs"
    by (auto simp: abs_dir_def)
  have "path_join [w, n] = Clean (CHR ''/'' # Join (CHR ''/'') (cs @ [n]))"
    using cs by (simp add: Join_snoc)
  also have "\<dots> = CHR ''/'' # Join (CHR ''/'') (cs @ [n])"
    using cs assms(2) by (intro Clean_abs_elems) auto
  finally show ?thesis using cs assms(2)
    by (auto simp: Join_snoc abs_dir_def intro!: exI [of _ "cs @ [n]"])
qed

lemma clean_step_abs_elems: "(\<forall>c \<in> set st. path_elem c) \<Longrightarrow> CHR ''/'' \<notin> set c \<Longrightarrow> (\<forall>d \<in> set (clean_step True st c). path_elem d)"
  by (auto simp: clean_step_def intro: path_elemI split: list.splits if_splits)

lemma foldl_clean_abs:
  "(\<forall>c \<in> set st. path_elem c) \<Longrightarrow> (\<forall>c \<in> set cs. CHR ''/'' \<notin> set c) \<Longrightarrow>
   (\<forall>d \<in> set (foldl (clean_step True) st cs). path_elem d)"
proof (induction cs arbitrary: st)
  case (Cons c cs)
  then have "\<forall>d \<in> set (clean_step True st c). path_elem d" by (intro clean_step_abs_elems) auto
  with Cons show ?case by simp
qed simp

text \<open>Cleaning an absolute path gives the root or a directory in normal form.\<close>

lemma Clean_abs: "IsAbs p \<Longrightarrow> Clean p = ''/'' \<or> abs_dir (Clean p)"
proof -
  assume a: "IsAbs p"
  define st where "st = foldl (clean_step True) [] (Split (CHR ''/'') p)"
  have "\<forall>d \<in> set st. path_elem d"
    unfolding st_def by (rule foldl_clean_abs) (auto dest: Split_parts)
  then show ?thesis using a
    by (cases "st = []") (auto simp: Clean_def st_def [symmetric] abs_dir_def intro!: exI [of _ "rev st"])
qed

subsection \<open>Strings without white space\<close>

lemma match_len_0: "(\<forall>r \<in> set rs. r \<noteq> [] \<and> hd r \<notin> set s) \<Longrightarrow> match_len rs s = 0"
proof -
  assume h: "\<forall>r \<in> set rs. r \<noteq> [] \<and> hd r \<notin> set s"
  have "find (HasPrefix s) rs = None"
  proof (rule ccontr)
    assume "\<not> ?thesis"
    then obtain r where "r \<in> set rs" "prefix r s" by (auto simp: find_None_iff HasPrefix_iff)
    with h show False by (cases r) (auto simp: prefix_def)
  qed
  then show ?thesis by (simp add: match_len_def)
qed

definition space_free :: "string \<Rightarrow> bool" where
  "space_free s \<longleftrightarrow> (\<forall>r \<in> set space_runes. hd r \<notin> set s \<and> last r \<notin> set s)"

lemma strip_runes_id: "match_len rs s = 0 \<Longrightarrow> strip_runes rs s = s"
  by (simp add: strip_runes.simps)

lemma space_runes_ne: "r \<in> set space_runes \<Longrightarrow> r \<noteq> []"
  by (auto simp: space_runes_def)

lemma TrimSpace_id: "space_free s \<Longrightarrow> TrimSpace s = s"
  unfolding TrimSpace_def
  by (subst strip_runes_id; (rule match_len_0)?)
     (auto simp: space_free_def space_runes_ne hd_rev strip_runes_id match_len_0)

lemma fields_from_free:
  "(\<forall>r \<in> set space_runes. hd r \<notin> set s) \<Longrightarrow> fields_from acc s = (if acc = [] \<and> s = [] then [] else [rev acc @ s])"
proof (induction s arbitrary: acc)
  case (Cons x s)
  then have "match_len space_runes (x # s) = 0" by (intro match_len_0) (auto simp: space_runes_ne)
  then show ?case using Cons by simp
qed simp

lemma Fields_id: "space_free s \<Longrightarrow> s \<noteq> [] \<Longrightarrow> Fields s = [s]"
  by (simp add: Fields_def space_free_def fields_from_free)

end
