(* ===== verification/MachineConfig.thy ===== *)
theory MachineConfig
  imports GoStd
begin

text \<open>
  Configuration in \<open>machine/machine.go\<close>: the functional options of \<open>New\<close>, of the polling
  operations, of \<open>WaitForHTTP\<close>, \<open>JournalLines\<close> and \<open>DumpOnFailure\<close>, the MAC address derived from
  a TAP name, shell quoting, and the VM options read from the \<open>VMTEST_*\<close> environment.

  An option is a function on the configuration record, as in the source. The package
  \<open>github.com/mikn/rules_qemu/vm\<close> is not part of the repository: its options appear as the
  constructors of \<open>vm_option\<close> (which call was made, with which arguments), and the TAP
  allocation of a \<open>vm.Bridge\<close> is the argument \<open>AllocateTap\<close>, over the state \<open>'b\<close> of the host's bridges.
\<close>

section \<open>Definitions\<close>

subsection \<open>Options of the external vm package\<close>

datatype vm_option =
    vm_WithQemuBinary string | vm_WithQemuImg string | vm_WithMachineType string | vm_WithAccel string
  | vm_WithKernelBoot string string string | vm_WithUEFI string string | vm_WithISO string
  | vm_WithExistingDisk string | vm_WithDisk string | vm_WithMemory string | vm_WithCPUs int
  | vm_WithTPM string string | vm_WithNoNetwork | vm_WithUserNet | vm_WithPortForward int
  | vm_WithTapDevice string string | vm_WithMacAddress string
  | vm_WithAgent | vm_WithSerialCapture | vm_WithQMP
  | vm_WithName string | vm_WithWorkDir string | vm_With9PShare string string

subsection \<open>Machine options\<close>

record machineConfig =
  vmOpts :: "vm_option list"

type_synonym 'b machine_option = "machineConfig \<Rightarrow> 'b \<Rightarrow> (halt + machineConfig) \<times> 'b"

definition macFromTap :: "string \<Rightarrow> string" where
  "macFromTap tap =
     (let idx = (case LastIndex tap ''tap'' of
                   None \<Rightarrow> 0
                 | Some i \<Rightarrow> (case Atoi (drop (i + 3) tap) of Inl e \<Rightarrow> 0 | Inr n \<Rightarrow> n))
      in ''02:00:00:00:00:'' @ fmt_02x idx)"

definition WithBridge ::
  "('b \<Rightarrow> (go_error + string) \<times> 'b) \<Rightarrow> string \<Rightarrow> 'b machine_option" where
  "WithBridge AllocateTap b_Name c bs =
     (case AllocateTap bs of
        (Inl err, bs') \<Rightarrow> (Inl (Panic ''WithBridge: %v'' [AErr err]), bs')
      | (Inr tap, bs') \<Rightarrow>
          let mac = macFromTap tap
          in (Inr (c\<lparr>vmOpts := vmOpts c @ [vm_WithTapDevice tap b_Name, vm_WithMacAddress mac]\<rparr>), bs'))"

definition WithUserNetwork :: "'b machine_option" where
  "WithUserNetwork c bs = (Inr (c\<lparr>vmOpts := vmOpts c @ [vm_WithUserNet]\<rparr>), bs)"

definition WithVMOption :: "vm_option \<Rightarrow> 'b machine_option" where
  "WithVMOption opt c bs = (Inr (c\<lparr>vmOpts := vmOpts c @ [opt]\<rparr>), bs)"

definition WithPortForward :: "int \<Rightarrow> 'b machine_option" where
  "WithPortForward guestPort c bs = (Inr (c\<lparr>vmOpts := vmOpts c @ [vm_WithPortForward guestPort]\<rparr>), bs)"

text \<open>The loop \<open>for _, o := range opts { o(mc) }\<close> of \<open>New\<close>; a panic leaves the rest unapplied.\<close>

fun applyOptions :: "'b machine_option list \<Rightarrow> 'b machine_option" where
  "applyOptions [] c bs = (Inr c, bs)"
| "applyOptions (opt # opts) c bs =
     (case opt c bs of
        (Inl h, bs') \<Rightarrow> (Inl h, bs')
      | (Inr c', bs') \<Rightarrow> applyOptions opts c' bs')"

subsection \<open>Retry options\<close>

record retryConfig =
  timeout :: int
  interval :: int

type_synonym RetryOption = "retryConfig \<Rightarrow> retryConfig"

text \<open>Durations are nanoseconds, as in Go's \<open>time\<close>.\<close>

definition second :: int where
  "second = 1000000000"

definition defaultRetryTimeout :: int where
  "defaultRetryTimeout = 60 * second"

definition defaultRetryInterval :: int where
  "defaultRetryInterval = 1 * second"

definition WithRetryTimeout :: "int \<Rightarrow> RetryOption" where
  "WithRetryTimeout d c = c\<lparr>timeout := d\<rparr>"

definition WithRetryInterval :: "int \<Rightarrow> RetryOption" where
  "WithRetryInterval d c = c\<lparr>interval := d\<rparr>"

definition default_retry :: retryConfig where
  "default_retry = \<lparr>timeout = defaultRetryTimeout, interval = defaultRetryInterval\<rparr>"

definition applyRetryOpts :: "RetryOption list \<Rightarrow> retryConfig" where
  "applyRetryOpts opts = foldl (\<lambda>rc opt. opt rc) default_retry opts"

subsection \<open>HTTP options\<close>

record httpConfig =
  statusCode :: int
  bodyContains :: string

type_synonym HTTPOption = "httpConfig \<Rightarrow> httpConfig"

definition HTTPStatus :: "int \<Rightarrow> HTTPOption" where
  "HTTPStatus code c = c\<lparr>statusCode := code\<rparr>"

definition HTTPBodyContains :: "string \<Rightarrow> HTTPOption" where
  "HTTPBodyContains substr c = c\<lparr>bodyContains := substr\<rparr>"

text \<open>The interface \<open>WaitForHTTPOption\<close>: its method \<open>applyHTTP\<close> on the two implementations.\<close>

type_synonym WaitForHTTPOption = "httpConfig \<times> retryConfig \<Rightarrow> httpConfig \<times> retryConfig"

definition applyHTTP_HTTPOption :: "HTTPOption \<Rightarrow> WaitForHTTPOption" where
  "applyHTTP_HTTPOption f = (\<lambda>(hc, rc). (f hc, rc))"

definition applyHTTP_httpRetryOption :: "RetryOption \<Rightarrow> WaitForHTTPOption" where
  "applyHTTP_httpRetryOption f = (\<lambda>(hc, rc). (hc, f rc))"

definition WithHTTPRetryTimeout :: "int \<Rightarrow> WaitForHTTPOption" where
  "WithHTTPRetryTimeout d = applyHTTP_httpRetryOption (WithRetryTimeout d)"

definition WithHTTPRetryInterval :: "int \<Rightarrow> WaitForHTTPOption" where
  "WithHTTPRetryInterval d = applyHTTP_httpRetryOption (WithRetryInterval d)"

definition default_http :: "httpConfig \<times> retryConfig" where
  "default_http =
     (\<lparr>statusCode = 200, bodyContains = []\<rparr>,
      \<lparr>timeout = defaultRetryTimeout, interval = defaultRetryInterval\<rparr>)"

definition applyHTTPOpts :: "WaitForHTTPOption list \<Rightarrow> httpConfig \<times> retryConfig" where
  "applyHTTPOpts opts = foldl (\<lambda>c opt. opt c) default_http opts"

subsection \<open>Journal and dump options\<close>

record journalConfig =
  lines :: int
  since :: string

type_synonym JournalOption = "journalConfig \<Rightarrow> journalConfig"

definition WithJournalLines :: "int \<Rightarrow> JournalOption" where
  "WithJournalLines n c = c\<lparr>lines := n\<rparr>"

definition WithJournalSince :: "string \<Rightarrow> JournalOption" where
  "WithJournalSince s c = c\<lparr>since := s\<rparr>"

definition default_journal :: journalConfig where
  "default_journal = \<lparr>lines = 100, since = []\<rparr>"

definition applyJournalOpts :: "JournalOption list \<Rightarrow> journalConfig" where
  "applyJournalOpts opts = foldl (\<lambda>c opt. opt c) default_journal opts"

text \<open>
  \<open>dmesgFilters\<close> is compared with \<open>nil\<close> in the source, so it is an option: \<open>None\<close> is the nil
  slice. The same type is that of the variadic parameter of \<open>DumpDmesg\<close>: the nil slice is what a call with
  no arguments passes, and a slice spread with \<open>...\<close> is passed as it is, nil or not.
\<close>

record dumpConfig =
  journalUnits :: "string list"
  dmesgFilters :: "string list option"
  processGlob :: string
  fileGlobs :: "string list"
  hasOptions :: bool

type_synonym DumpOption = "dumpConfig \<Rightarrow> dumpConfig"

definition DumpJournalUnits :: "string list \<Rightarrow> DumpOption" where
  "DumpJournalUnits units c = c\<lparr>journalUnits := journalUnits c @ units, hasOptions := True\<rparr>"

definition DumpDmesg :: "string list option \<Rightarrow> DumpOption" where
  "DumpDmesg filters c = c\<lparr>dmesgFilters := filters, hasOptions := True\<rparr>"

definition DumpProcessList :: "string \<Rightarrow> DumpOption" where
  "DumpProcessList pattern c = c\<lparr>processGlob := pattern, hasOptions := True\<rparr>"

definition DumpFiles :: "string list \<Rightarrow> DumpOption" where
  "DumpFiles globs c = c\<lparr>fileGlobs := fileGlobs c @ globs, hasOptions := True\<rparr>"

definition default_dump :: dumpConfig where
  "default_dump = \<lparr>journalUnits = [], dmesgFilters = None, processGlob = [], fileGlobs = [], hasOptions = False\<rparr>"

definition applyDumpOpts :: "DumpOption list \<Rightarrow> dumpConfig" where
  "applyDumpOpts opts = foldl (\<lambda>c opt. opt c) default_dump opts"

subsection \<open>Shell quoting\<close>

abbreviation sq :: char where "sq \<equiv> CHR 0x27"
abbreviation dq :: char where "dq \<equiv> CHR 0x22"

definition shellQuote :: "string \<Rightarrow> string" where
  "shellQuote s = [sq] @ ReplaceAll s sq [sq, dq, sq, dq, sq] @ [sq]"

subsection \<open>VM options from the environment\<close>

text \<open>\<open>if v := os.Getenv(k); v != "" { opts = append(opts, mk(v)) }\<close>\<close>

definition env_opt :: "(string \<Rightarrow> string) \<Rightarrow> string \<Rightarrow> (string \<Rightarrow> vm_option) \<Rightarrow> vm_option list \<Rightarrow> vm_option list" where
  "env_opt env k mk opts = (let v = env k in if v \<noteq> [] then opts @ [mk v] else opts)"

definition envToolOpts :: "(string \<Rightarrow> string) \<Rightarrow> vm_option list \<Rightarrow> vm_option list" where
  "envToolOpts env opts =
     (let opts = env_opt env ''VMTEST_QEMU'' vm_WithQemuBinary opts;
          opts = env_opt env ''VMTEST_QEMU_IMG'' vm_WithQemuImg opts;
          opts = env_opt env ''VMTEST_MACHINE_TYPE'' vm_WithMachineType opts
      in env_opt env ''VMTEST_ACCEL'' vm_WithAccel opts)"

definition envBootOpts :: "(string \<Rightarrow> string) \<Rightarrow> vm_option list \<Rightarrow> vm_option list" where
  "envBootOpts env opts =
     (let kernel = env ''VMTEST_KERNEL'';
          initrd = env ''VMTEST_INITRD'';
          cmdline = env ''VMTEST_CMDLINE'';
          opts = (if kernel \<noteq> [] then opts @ [vm_WithKernelBoot kernel initrd cmdline] else opts);
          ovmfCode = env ''VMTEST_OVMF_CODE'';
          ovmfVars = env ''VMTEST_OVMF_VARS'';
          opts = (if ovmfCode \<noteq> [] \<and> ovmfVars \<noteq> [] then opts @ [vm_WithUEFI ovmfCode ovmfVars] else opts);
          opts = env_opt env ''VMTEST_ISO'' vm_WithISO opts;
          opts = env_opt env ''VMTEST_DISK'' vm_WithExistingDisk opts;
          opts = env_opt env ''VMTEST_DISK_SIZE'' vm_WithDisk opts
      in env_opt env ''VMTEST_MEMORY'' vm_WithMemory opts)"

definition envCPUs :: "(string \<Rightarrow> string) \<Rightarrow> vm_option list \<Rightarrow> halt + vm_option list" where
  "envCPUs env opts =
     (let v = env ''VMTEST_CPUS'' in
      if v \<noteq> [] then
        (case Atoi v of
           Inl err \<Rightarrow> Inl (Fatalf ''VMTEST_CPUS: invalid value %q: %v'' [AStr v, AErr err])
         | Inr n \<Rightarrow> Inr (opts @ [vm_WithCPUs n]))
      else Inr opts)"

definition envTPM :: "(string \<Rightarrow> string) \<Rightarrow> vm_option list \<Rightarrow> vm_option list" where
  "envTPM env opts =
     (let swtpm = env ''VMTEST_SWTPM'';
          swtpmSetup = env ''VMTEST_SWTPM_SETUP''
      in if env ''VMTEST_TPM'' = ''true'' \<and> swtpm \<noteq> [] \<and> swtpmSetup \<noteq> []
         then opts @ [vm_WithTPM swtpm swtpmSetup] else opts)"

definition envNetwork :: "(string \<Rightarrow> string) \<Rightarrow> vm_option list \<Rightarrow> vm_option list" where
  "envNetwork env opts =
     (let net = ToLower (env ''VMTEST_NETWORK'') in
      if net = ''none'' then opts @ [vm_WithNoNetwork]
      else if net = ''bridge'' then opts
      else opts @ [vm_WithUserNet])"

fun addPortForwards :: "string list \<Rightarrow> vm_option list \<Rightarrow> halt + vm_option list" where
  "addPortForwards [] opts = Inr opts"
| "addPortForwards (p # ps) opts =
     (case Atoi (TrimSpace p) of
        Inl err \<Rightarrow> Inl (Fatalf ''VMTEST_PORT_FORWARDS: invalid port %q: %v'' [AStr p, AErr err])
      | Inr port \<Rightarrow> addPortForwards ps (opts @ [vm_WithPortForward port]))"

definition envPortForwards :: "(string \<Rightarrow> string) \<Rightarrow> vm_option list \<Rightarrow> halt + vm_option list" where
  "envPortForwards env opts =
     (let v = env ''VMTEST_PORT_FORWARDS'' in
      if v \<noteq> [] then addPortForwards (Split (CHR '','') v) opts else Inr opts)"

definition buildVMOptsFromEnv :: "(string \<Rightarrow> string) \<Rightarrow> halt + vm_option list" where
  "buildVMOptsFromEnv env =
     (let opts = envBootOpts env (envToolOpts env []) in
      case envCPUs env opts of
        Inl h \<Rightarrow> Inl h
      | Inr opts \<Rightarrow> envPortForwards env (envNetwork env (envTPM env opts)))"

section \<open>Functional options\<close>

text \<open>
  The contract every option list of the package has: options are applied in order to the
  defaults, so the last option that writes a field decides it.
\<close>

locale functional_options =
  fixes apply_opts :: "('c \<Rightarrow> 'c) list \<Rightarrow> 'c"
    and defaults :: 'c
  assumes apply_Nil: "apply_opts [] = defaults"
    and apply_snoc: "apply_opts (opts @ [opt]) = opt (apply_opts opts)"
begin

lemma apply_field_kept:
  "(\<And>opt c. opt \<in> set later \<Longrightarrow> get (opt c) = get c) \<Longrightarrow>
   get (apply_opts (opts @ later)) = get (apply_opts opts)"
proof (induction later rule: rev_induct)
  case (snoc x xs)
  have "apply_opts (opts @ xs @ [x]) = x (apply_opts (opts @ xs))"
    using apply_snoc [of "opts @ xs" x] by simp
  with snoc show ?case by simp
qed simp

lemma untouched_default:
  "(\<And>opt c. opt \<in> set opts \<Longrightarrow> get (opt c) = get c) \<Longrightarrow> get (apply_opts opts) = get defaults"
  using apply_field_kept [of opts get "[]"] by (simp add: apply_Nil)

lemma last_wins:
  assumes "\<And>c. get (opt c) = v" and "\<And>opt' c. opt' \<in> set later \<Longrightarrow> get (opt' c) = get c"
  shows "get (apply_opts (opts @ opt # later)) = v"
proof -
  have "get (apply_opts ((opts @ [opt]) @ later)) = get (apply_opts (opts @ [opt]))"
    by (rule apply_field_kept) (rule assms(2))
  then show ?thesis by (simp add: apply_snoc assms(1))
qed

end

interpretation retry: functional_options applyRetryOpts default_retry
  by unfold_locales (simp_all add: applyRetryOpts_def)

interpretation http: functional_options applyHTTPOpts default_http
  by unfold_locales (simp_all add: applyHTTPOpts_def)

interpretation journal: functional_options applyJournalOpts default_journal
  by unfold_locales (simp_all add: applyJournalOpts_def)

interpretation dump: functional_options applyDumpOpts default_dump
  by unfold_locales (simp_all add: applyDumpOpts_def)

text \<open>Retry options: the last timeout and the last interval given decide, whatever was given
  before, and a setting no option mentions has its default of 60 s or 1 s.\<close>

theorem applyRetryOpts_last_wins:
  "timeout (applyRetryOpts (opts @ WithRetryTimeout t # map WithRetryInterval is)) = t \<and>
   interval (applyRetryOpts (opts @ WithRetryInterval i # map WithRetryTimeout ts)) = i \<and>
   timeout (applyRetryOpts (map WithRetryInterval is)) = 60000000000 \<and>
   interval (applyRetryOpts (map WithRetryTimeout ts)) = 1000000000"
proof (intro conjI)
  show "timeout (applyRetryOpts (opts @ WithRetryTimeout t # map WithRetryInterval is)) = t"
    by (rule retry.last_wins) (auto simp: WithRetryTimeout_def WithRetryInterval_def)
  show "interval (applyRetryOpts (opts @ WithRetryInterval i # map WithRetryTimeout ts)) = i"
    by (rule retry.last_wins) (auto simp: WithRetryTimeout_def WithRetryInterval_def)
  have "timeout (applyRetryOpts (map WithRetryInterval is)) = timeout default_retry"
    by (rule retry.untouched_default) (auto simp: WithRetryInterval_def)
  then show "timeout (applyRetryOpts (map WithRetryInterval is)) = 60000000000"
    by (simp add: default_retry_def defaultRetryTimeout_def second_def)
  have "interval (applyRetryOpts (map WithRetryTimeout ts)) = interval default_retry"
    by (rule retry.untouched_default) (auto simp: WithRetryTimeout_def)
  then show "interval (applyRetryOpts (map WithRetryTimeout ts)) = 1000000000"
    by (simp add: default_retry_def defaultRetryInterval_def second_def)
qed

section \<open>Shell quoting\<close>

text \<open>
  POSIX quote removal on one word, the reference for \<open>shellQuote\<close>: single quotes keep every byte;
  double quotes keep every byte but backslash, dollar and backquote, which are not needed here
  and rejected; outside quotes anything but a quote ends the word, and is rejected too.
\<close>

datatype quote_mode = Unquoted | InSingle | InDouble

fun unquote :: "quote_mode \<Rightarrow> string \<Rightarrow> string option" where
  "unquote Unquoted [] = Some []"
| "unquote Unquoted (c # cs) =
     (if c = sq then unquote InSingle cs else if c = dq then unquote InDouble cs else None)"
| "unquote InSingle [] = None"
| "unquote InSingle (c # cs) = (if c = sq then unquote Unquoted cs else map_option (Cons c) (unquote InSingle cs))"
| "unquote InDouble [] = None"
| "unquote InDouble (c # cs) =
     (if c = dq then unquote Unquoted cs
      else if c \<in> {CHR 0x5C, CHR ''$'', CHR 0x60} then None
      else map_option (Cons c) (unquote InDouble cs))"

lemma unquote_body:
  "unquote InSingle (ReplaceAll s sq [sq, dq, sq, dq, sq] @ t) =
   map_option (\<lambda>u. s @ u) (unquote InSingle t)"
  by (induction s) (auto simp: option.map_comp comp_def option.map_ident)

text \<open>(C19) The shell reads \<open>shellQuote(s)\<close> back as the one word \<open>s\<close>, for every byte string \<open>s\<close>: no
  filter pattern can break out of the quotes in the command \<open>dumpDmesg\<close> builds.\<close>

theorem shellQuote_roundtrip: "unquote Unquoted (shellQuote s) = Some s"
  by (simp add: shellQuote_def unquote_body)

text \<open>Nothing follows the word: what comes after the quoted text is read from outside quotes.\<close>

lemma shellQuote_append: "unquote Unquoted (shellQuote s @ shellQuote t) = Some (s @ t)"
  by (simp add: shellQuote_def unquote_body)

section \<open>MAC addresses\<close>

definition hex_digit :: "char \<Rightarrow> bool" where
  "hex_digit c \<longleftrightarrow> c \<in> set ''0123456789abcdef''"

text \<open>Six octets of two hexadecimal digits, separated by colons.\<close>

definition wf_mac :: "string \<Rightarrow> bool" where
  "wf_mac m \<longleftrightarrow> (let os = Split (CHR '':'') m in
     length os = 6 \<and> (\<forall>h \<in> set os. length h = 2 \<and> (\<forall>c \<in> set h. hex_digit c)))"

lemma hex_digit_char: "0 \<le> d \<Longrightarrow> d < 16 \<Longrightarrow> hex_digit (digit_char d)"
proof -
  assume "0 \<le> d" "d < 16"
  then have "d \<in> set [0..15]" by simp
  moreover have "\<forall>d \<in> set [0..15]. hex_digit (digit_char d)" by code_simp
  ultimately show ?thesis by blast
qed

lemma hex_not_colon: "hex_digit c \<Longrightarrow> c \<noteq> CHR '':''"
  by (auto simp: hex_digit_def)

lemma show_base_10_digits: "0 \<le> n \<Longrightarrow> c \<in> set (show_base 10 n) \<Longrightarrow> digit_val c \<noteq> None"
proof (induction "10 :: int" n rule: show_base.induct)
  case (1 n)
  then show ?case
    by (cases "n < 10") (auto simp: show_base.simps [of 10 n] digit_char_val)
qed

lemma LastIndex_absent: "c \<notin> set s \<Longrightarrow> LastIndex s (c # sub) = None"
  by (induction s) auto

lemma show_base_10_char: "0 \<le> n \<Longrightarrow> digit_val c = None \<Longrightarrow> c \<notin> set (show_base 10 n)"
  using show_base_10_digits by blast

lemma digit_val_letters: "digit_val (CHR ''t'') = None" "digit_val (CHR '','') = None"
  by code_simp+

lemma LastIndex_tap:
  assumes "0 \<le> n"
  shows "LastIndex (p @ ''tap'' @ show_base 10 n) ''tap'' = Some (length p)"
proof -
  have "CHR ''t'' \<notin> set (CHR ''a'' # CHR ''p'' # show_base 10 n)"
    using assms by (simp add: show_base_10_char digit_val_letters)
  then have "LastIndex (CHR ''a'' # CHR ''p'' # show_base 10 n) ''tap'' = None"
    by (rule LastIndex_absent)
  then have "LastIndex (''tap'' @ show_base 10 n) ''tap'' = Some 0" by simp
  from LastIndex_append [OF this, of p] show ?thesis by simp
qed

text \<open>A TAP device named by a prefix, \<open>tap\<close> and a number gets that number as its last octet.\<close>

lemma macFromTap_index:
  assumes "0 \<le> n" and "n < 2 ^ 63"
  shows "macFromTap (p @ ''tap'' @ show_int n) = ''02:00:00:00:00:'' @ fmt_02x n"
proof -
  have "show_int n = show_base 10 n" using assms by (simp add: show_int_def)
  moreover have "Atoi (show_int n) = Inr n" using assms by (intro Atoi_show_int) auto
  ultimately show ?thesis using LastIndex_tap [OF assms(1), of p]
    unfolding macFromTap_def by simp
qed

lemma wf_mac_prefix:
  "wf_mac (''02:00:00:00:00:'' @ h) \<longleftrightarrow> length h = 2 \<and> (\<forall>c \<in> set h. hex_digit c)"
proof -
  have split: "Split (CHR '':'') (''02:00:00:00:00:'' @ h) = [''02'', ''00'', ''00'', ''00'', ''00''] @ Split (CHR '':'') h"
    using Split_append [of "CHR '':''" "''02:00:00:00:00''" h] by simp
  show ?thesis
  proof (cases "CHR '':'' \<in> set h")
    case True
    then obtain a b where "h = a @ CHR '':'' # b" by (meson split_list)
    then have "length (Split (CHR '':'') h) = length (Split (CHR '':'') a) + length (Split (CHR '':'') b)"
      by (simp add: Split_append)
    moreover have "0 < length (Split (CHR '':'') a)" "0 < length (Split (CHR '':'') b)" by simp_all
    ultimately have "length (Split (CHR '':'') h) \<noteq> 1" by linarith
    then have "\<not> wf_mac (''02:00:00:00:00:'' @ h)" unfolding wf_mac_def Let_def split by simp
    moreover have "\<not> (\<forall>c \<in> set h. hex_digit c)" using True hex_not_colon by blast
    ultimately show ?thesis by blast
  next
    case False
    then have "Split (CHR '':'') h = [h]" by (rule Split_no_sep)
    then show ?thesis unfolding wf_mac_def Let_def split by (simp add: hex_digit_def)
  qed
qed

text \<open>(C39) For every TAP index below 256 the address \<open>WithBridge\<close> gives the VM is well formed,
  locally administered and unicast (first octet 02), and two VMs on the bridge whose indices
  differ get different addresses.\<close>

theorem macFromTap_distinct:
  assumes "0 \<le> m" "m < 256" "0 \<le> n" "n < 256"
  shows "wf_mac (macFromTap (p @ ''tap'' @ show_int m)) \<and>
         take 2 (macFromTap (p @ ''tap'' @ show_int m)) = ''02'' \<and>
         (macFromTap (p @ ''tap'' @ show_int m) = macFromTap (q @ ''tap'' @ show_int n) \<longleftrightarrow> m = n)"
proof -
  have mac: "macFromTap (r @ ''tap'' @ show_int k) =
      ''02:00:00:00:00:'' @ [digit_char (k div 16), digit_char (k mod 16)]"
    if "0 \<le> k" "k < 256" for r k
    using that by (subst macFromTap_index) (auto simp: fmt_02x_byte)
  have eq: "m = n" if "digit_char (m div 16) = digit_char (n div 16)" "digit_char (m mod 16) = digit_char (n mod 16)"
  proof -
    have "m div 16 = n div 16" "m mod 16 = n mod 16"
      using assms that by (auto intro!: digit_char_inj)
    then show ?thesis by (metis mult_div_mod_eq)
  qed
  show ?thesis
    unfolding mac [OF assms(1,2)] mac [OF assms(3,4)] wf_mac_prefix
    using assms eq by (auto intro!: hex_digit_char)
qed

theorem macFromTap_distinct_witness:
  "wf_mac (macFromTap ''mltt-tap3'') \<and> macFromTap ''mltt-tap3'' \<noteq> macFromTap ''mltt-tap11''"
proof -
  have s: "''mltt-tap3'' = ''mltt-'' @ ''tap'' @ show_int 3" "''mltt-tap11'' = ''mltt-'' @ ''tap'' @ show_int 11"
    by code_simp+
  show ?thesis
    unfolding s using macFromTap_distinct [of 3 11 "''mltt-''" "''mltt-''"] by simp
qed

text \<open>From index 256 on the last octet has three digits or more, so the address is not a MAC
  address any more; the index 256 already gives \<open>02:00:00:00:00:100\<close>.\<close>

theorem macFromTap_overflow:
  assumes "256 \<le> n" "n < 2 ^ 63"
  shows "\<not> wf_mac (macFromTap (p @ ''tap'' @ show_int n))"
proof -
  have "2 < length (fmt_02x n)"
    using show_base_16_long [OF assms(1)] assms by (simp add: fmt_02x_def Let_def)
  moreover have "macFromTap (p @ ''tap'' @ show_int n) = ''02:00:00:00:00:'' @ fmt_02x n"
    using assms by (intro macFromTap_index) auto
  ultimately show ?thesis by (simp only: wf_mac_prefix) simp
qed

theorem macFromTap_overflow_witness:
  "macFromTap ''mltt-tap256'' = ''02:00:00:00:00:100'' \<and> \<not> wf_mac (macFromTap ''mltt-tap256'')"
proof -
  have s: "''mltt-tap256'' = ''mltt-'' @ ''tap'' @ show_int 256" by code_simp
  have "macFromTap ''mltt-tap256'' = ''02:00:00:00:00:100''" by code_simp
  moreover have "\<not> wf_mac (macFromTap ''mltt-tap256'')"
    unfolding s using macFromTap_overflow [of 256 "''mltt-''"] by simp
  ultimately show ?thesis by blast
qed

section \<open>Options from the environment\<close>

lemma addPortForwards_iff:
  "addPortForwards ps opts = Inr r \<longleftrightarrow>
     (\<forall>p \<in> set ps. \<exists>n. Atoi (TrimSpace p) = Inr n) \<and>
     r = opts @ map (\<lambda>p. vm_WithPortForward (projr (Atoi (TrimSpace p)))) ps"
  by (induction ps opts rule: addPortForwards.induct) (auto split: sum.splits)

lemma addPortForwards_Inl:
  "addPortForwards ps opts = Inl h \<Longrightarrow>
   \<exists>p e. p \<in> set ps \<and> Atoi (TrimSpace p) = Inl e \<and>
     h = Fatalf ''VMTEST_PORT_FORWARDS: invalid port %q: %v'' [AStr p, AErr e]"
  by (induction ps opts rule: addPortForwards.induct) (auto split: sum.splits)

text \<open>The guest ports of the environment, in order.\<close>

definition env_ports :: "(string \<Rightarrow> string) \<Rightarrow> int list" where
  "env_ports env =
     (let v = env ''VMTEST_PORT_FORWARDS'' in
      if v = [] then [] else map (\<lambda>p. projr (Atoi (TrimSpace p))) (Split (CHR '','') v))"

text \<open>The options that choose the VM's network.\<close>

fun net_option :: "vm_option \<Rightarrow> bool" where
  "net_option vm_WithNoNetwork = True"
| "net_option vm_WithUserNet = True"
| "net_option (vm_WithPortForward p) = True"
| "net_option (vm_WithTapDevice t b) = True"
| "net_option _ = False"

lemma net_filter_env_opt: "(\<And>v. \<not> net_option (mk v)) \<Longrightarrow> filter net_option (env_opt env k mk opts) = filter net_option opts"
  by (simp add: env_opt_def Let_def)

lemma net_filter_steps [simp]:
  "filter net_option (envToolOpts env opts) = filter net_option opts"
  "filter net_option (envBootOpts env opts) = filter net_option opts"
  "filter net_option (envTPM env opts) = filter net_option opts"
  by (simp_all add: envToolOpts_def envBootOpts_def envTPM_def Let_def net_filter_env_opt)

lemma net_filter_cpus: "envCPUs env opts = Inr opts' \<Longrightarrow> filter net_option opts' = filter net_option opts"
  by (auto simp: envCPUs_def Let_def split: if_splits sum.splits)

lemma envPortForwards_Inr:
  "envPortForwards env opts = Inr r \<Longrightarrow> r = opts @ map vm_WithPortForward (env_ports env)"
  by (auto simp: envPortForwards_def env_ports_def Let_def addPortForwards_iff comp_def split: if_splits)

text \<open>The choice \<open>VMTEST_NETWORK\<close> makes.\<close>

definition net_choice :: "(string \<Rightarrow> string) \<Rightarrow> vm_option list" where
  "net_choice env =
     (if ToLower (env ''VMTEST_NETWORK'') = ''none'' then [vm_WithNoNetwork]
      else if ToLower (env ''VMTEST_NETWORK'') = ''bridge'' then []
      else [vm_WithUserNet])"

lemma build_shape:
  assumes "buildVMOptsFromEnv env = Inr opts"
  obtains pre where "opts = pre @ map vm_WithPortForward (env_ports env)"
    and "filter net_option pre = net_choice env"
proof -
  from assms obtain o1 where o1: "envCPUs env (envBootOpts env (envToolOpts env [])) = Inr o1"
    and pf: "envPortForwards env (envNetwork env (envTPM env o1)) = Inr opts"
    by (auto simp: buildVMOptsFromEnv_def Let_def split: sum.splits)
  have "filter net_option (envNetwork env (envTPM env o1)) = net_choice env"
    using net_filter_cpus [OF o1] by (simp add: envNetwork_def net_choice_def Let_def)
  then show thesis using that envPortForwards_Inr [OF pf] by blast
qed

lemma envCPUs_ok:
  "(\<exists>o1. envCPUs env opts = Inr o1) \<longleftrightarrow> env ''VMTEST_CPUS'' = [] \<or> (\<exists>n. Atoi (env ''VMTEST_CPUS'') = Inr n)"
  by (auto simp: envCPUs_def Let_def split: sum.splits)

lemma envPortForwards_ok:
  "(\<exists>r. envPortForwards env opts = Inr r) \<longleftrightarrow>
     env ''VMTEST_PORT_FORWARDS'' = [] \<or>
     (\<forall>p \<in> set (Split (CHR '','') (env ''VMTEST_PORT_FORWARDS'')). \<exists>n. Atoi (TrimSpace p) = Inr n)"
  by (simp add: envPortForwards_def Let_def addPortForwards_iff)

lemma build_ok:
  "(\<exists>opts. buildVMOptsFromEnv env = Inr opts) \<longleftrightarrow>
   (\<exists>o1. envCPUs env [] = Inr o1) \<and> (\<exists>r. envPortForwards env [] = Inr r)"
proof -
  have "(\<exists>o1. envCPUs env [] = Inr o1) \<longleftrightarrow> (\<exists>o1. envCPUs env (envBootOpts env (envToolOpts env [])) = Inr o1)"
    by (simp only: envCPUs_ok)
  moreover have "(\<exists>r. envPortForwards env [] = Inr r) \<longleftrightarrow> (\<exists>r. envPortForwards env opts = Inr r)" for opts
    by (simp only: envPortForwards_ok)
  ultimately show ?thesis unfolding buildVMOptsFromEnv_def Let_def by (auto split: sum.splits)
qed

text \<open>(C24) The network part of the options read from the environment is the choice made by
  \<open>VMTEST_NETWORK\<close> (none, nothing for a bridge, user-mode otherwise) followed by one port
  forward per entry of \<open>VMTEST_PORT_FORWARDS\<close> in its order, so forwards always come after, and
  override, the network mode.\<close>

theorem env_network_options:
  assumes "buildVMOptsFromEnv env = Inr opts"
  shows "filter net_option opts = net_choice env @ map vm_WithPortForward (env_ports env)"
proof -
  have "filter net_option (map vm_WithPortForward ps) = map vm_WithPortForward ps" for ps
    by (rule filter_id_set) auto
  with assms show ?thesis by (auto elim: build_shape)
qed

text \<open>An environment for the examples: the given pairs, everything else unset.\<close>

definition env_of :: "(string \<times> string) list \<Rightarrow> string \<Rightarrow> string" where
  "env_of kvs k = (case map_of kvs k of None \<Rightarrow> [] | Some v \<Rightarrow> v)"

theorem env_network_options_witness:
  "\<exists>opts. buildVMOptsFromEnv (env_of [(''VMTEST_NETWORK'', ''none''), (''VMTEST_PORT_FORWARDS'', ''50051, 8080'')]) = Inr opts \<and>
     filter net_option opts = [vm_WithNoNetwork, vm_WithPortForward 50051, vm_WithPortForward 8080]"
proof -
  let ?env = "env_of [(''VMTEST_NETWORK'', ''none''), (''VMTEST_PORT_FORWARDS'', ''50051, 8080'')]"
  have b: "buildVMOptsFromEnv ?env = Inr [vm_WithNoNetwork, vm_WithPortForward 50051, vm_WithPortForward 8080]"
    by code_simp
  have "net_choice ?env @ map vm_WithPortForward (env_ports ?env) =
      [vm_WithNoNetwork, vm_WithPortForward 50051, vm_WithPortForward 8080]" by code_simp
  with b env_network_options [OF b] show ?thesis by simp
qed

text \<open>(C25) Reading the environment fails for exactly these reasons: \<open>VMTEST_CPUS\<close> is set and not a
  number, or an entry of \<open>VMTEST_PORT_FORWARDS\<close> is not a number once trimmed.\<close>

theorem env_options_total:
  "(\<exists>opts. buildVMOptsFromEnv env = Inr opts) \<longleftrightarrow>
     (env ''VMTEST_CPUS'' = [] \<or> (\<exists>n. Atoi (env ''VMTEST_CPUS'') = Inr n)) \<and>
     (env ''VMTEST_PORT_FORWARDS'' = [] \<or>
      (\<forall>p \<in> set (Split (CHR '','') (env ''VMTEST_PORT_FORWARDS'')). \<exists>n. Atoi (TrimSpace p) = Inr n))"
  by (simp only: build_ok envCPUs_ok envPortForwards_ok)

theorem env_options_total_witness:
  "\<exists>opts. buildVMOptsFromEnv (env_of [(''VMTEST_CPUS'', ''4'')]) = Inr opts"
proof -
  have "Atoi (env_of [(''VMTEST_CPUS'', ''4'')] ''VMTEST_CPUS'') = Inr 4" by code_simp
  moreover have "env_of [(''VMTEST_CPUS'', ''4'')] ''VMTEST_PORT_FORWARDS'' = []" by code_simp
  ultimately show ?thesis
    using env_options_total [of "env_of [(''VMTEST_CPUS'', ''4'')]"] by blast
qed

lemma show_int_chars: "c \<in> set (show_int n) \<Longrightarrow> digit_val c \<noteq> None \<or> c = CHR ''-''"
  using show_base_10_digits [of n] show_base_10_digits [of "- n"] by (auto simp: show_int_def split: if_splits)

lemma space_free_show_int: "space_free (show_int n)"
proof -
  have "\<forall>r \<in> set space_runes. digit_val (hd r) = None \<and> digit_val (last r) = None
      \<and> hd r \<noteq> CHR ''-'' \<and> last r \<noteq> CHR ''-''"
    by code_simp
  then show ?thesis unfolding space_free_def using show_int_chars by metis
qed

lemma show_int_no_comma: "CHR '','' \<notin> set (show_int n)"
  using show_int_chars [of "CHR '',''" n] digit_val_letters(2) by auto

lemma Join_nonempty: "ss \<noteq> [] \<Longrightarrow> [] \<notin> set ss \<Longrightarrow> Join c ss \<noteq> []"
  by (induction c ss rule: Join.induct) auto

lemma show_int_nonempty: "show_int n \<noteq> []"
  by (simp add: show_int_def)

text \<open>(C26) A port list written the way the Bazel rules write it, decimal numbers joined by commas,
  is read back as exactly these forwards, in this order, at the end of the option list, whenever
  \<open>VMTEST_CPUS\<close> is unset or a number (the rules set it to one).\<close>

theorem env_ports_roundtrip:
  assumes "env ''VMTEST_PORT_FORWARDS'' = Join (CHR '','') (map show_int ports)"
    and "env ''VMTEST_CPUS'' = [] \<or> (\<exists>n. Atoi (env ''VMTEST_CPUS'') = Inr n)" and "ports \<noteq> []"
    and "\<forall>p \<in> set ports. 0 \<le> p \<and> p < 65536"
  shows "\<exists>pre. buildVMOptsFromEnv env = Inr (pre @ map vm_WithPortForward ports) \<and>
               (\<forall>p. vm_WithPortForward p \<notin> set pre)"
proof -
  have split: "Split (CHR '','') (Join (CHR '','') (map show_int ports)) = map show_int ports"
    using assms(3) by (intro Split_Join) (auto simp: show_int_no_comma)
  have atoi: "Atoi (TrimSpace (show_int p)) = Inr p" if "p \<in> set ports" for p
    using assms(4) that Atoi_show_int [of p] by (fastforce simp: TrimSpace_id space_free_show_int)
  have "\<exists>r. envPortForwards env [] = Inr r"
    unfolding envPortForwards_ok assms(1) split by (auto simp: atoi)
  moreover have "\<exists>o1. envCPUs env [] = Inr o1" unfolding envCPUs_ok using assms(2) by blast
  ultimately obtain opts where b: "buildVMOptsFromEnv env = Inr opts" using build_ok by blast
  have "Join (CHR '','') (map show_int ports) \<noteq> []"
    using assms(3) show_int_nonempty by (intro Join_nonempty) (auto dest: sym)
  then have "env_ports env = ports"
    using assms(3) by (simp add: env_ports_def assms(1) split comp_def atoi cong: map_cong)
  moreover obtain pre where "opts = pre @ map vm_WithPortForward (env_ports env)"
    and net: "filter net_option pre = net_choice env" using b by (rule build_shape)
  moreover have "vm_WithPortForward p \<notin> set pre" for p
  proof
    assume "vm_WithPortForward p \<in> set pre"
    then have "vm_WithPortForward p \<in> set (filter net_option pre)" by simp
    then have "vm_WithPortForward p \<in> set (net_choice env)" by (simp only: net)
    then show False by (auto simp: net_choice_def split: if_splits)
  qed
  ultimately show ?thesis using b by auto
qed

theorem env_ports_roundtrip_witness:
  "\<exists>pre. buildVMOptsFromEnv (env_of [(''VMTEST_MEMORY'', ''2G''), (''VMTEST_CPUS'', ''2''), (''VMTEST_PORT_FORWARDS'', ''8080,50051'')]) =
           Inr (pre @ [vm_WithPortForward 8080, vm_WithPortForward 50051])"
proof -
  let ?env = "env_of [(''VMTEST_MEMORY'', ''2G''), (''VMTEST_CPUS'', ''2''), (''VMTEST_PORT_FORWARDS'', ''8080,50051'')]"
  have "?env ''VMTEST_PORT_FORWARDS'' = Join (CHR '','') (map show_int [8080, 50051])"
    and "Atoi (?env ''VMTEST_CPUS'') = Inr 2" by code_simp+
  then show ?thesis using env_ports_roundtrip [of ?env "[8080, 50051]"] by auto
qed

end
