(* ===== verification/VmApi.thy ===== *)
theory VmApi
  imports MachineConfig
begin

text \<open>
  The two sides \<open>machine/machine.go\<close> stands between.

  \<^item> Below it, the external package \<open>github.com/mikn/rules_qemu/vm\<close>: the agent connection and the
    VM handle are records of functions over the state \<open>'g\<close> of the guest (and of whatever else the
    external code keeps). A call gets the time at which it is made, since the guest runs on between
    calls, and returns a result or an error, the time it took and the next state; nothing else is
    assumed of it.
  \<^item> Above it, the running test (\<open>testing.TB\<close>): the clock, the log, the failed flag and the stack of
    registered cleanups make up the \<open>world\<close> the operations transform. The log also records
    agent calls and the life cycle of the VM, so that ordering can be stated.
\<close>

section \<open>The agent and the VM\<close>

type_synonym ('g, 'a) rpc = "int \<Rightarrow> 'g \<Rightarrow> (go_error + 'a) \<times> nat \<times> 'g"

record ExecResponse =
  Stdout :: string
  Stderr :: string
  ExitCode :: int

record UnitResponse =
  ActiveState :: string
  SubState :: string

record FileResponse =
  Exists :: bool
  Size :: int

record HTTPReply =
  ReplyStatusCode :: int
  ReplyBody :: string

record ProcessEntry =
  EntryPID :: int
  EntryUID :: int
  EntryGID :: int
  EntryCmdline :: string
  EntryState :: string

record RouteEntry =
  RouteDestination :: string
  RouteGateway :: string
  RouteInterface :: string

record AddrEntry =
  Address :: string
  AddrInterface :: string

record LinkEntry =
  LinkName :: string
  LinkState :: string
  LinkMTU :: int

record NetworkInfo =
  AddrTable :: "AddrEntry list"
  RouteTable :: "RouteEntry list"
  LinkTable :: "LinkEntry list"

text \<open>The methods of \<open>vm.AgentConn\<close> the package calls; \<open>Exec\<close> gets its context as a timeout.\<close>

record 'g agent =
  agent_Exec :: "int \<Rightarrow> string \<Rightarrow> int \<Rightarrow> ('g, ExecResponse) rpc"
  agent_Background :: "string list \<Rightarrow> ('g, unit) rpc"
  agent_UnitStatus :: "string \<Rightarrow> ('g, UnitResponse) rpc"
  agent_CheckPort :: "int \<Rightarrow> ('g, bool) rpc"
  agent_Stat :: "string \<Rightarrow> ('g, FileResponse) rpc"
  agent_WriteFile :: "string \<Rightarrow> string \<Rightarrow> int \<Rightarrow> ('g, unit) rpc"
  agent_ReadFile :: "string \<Rightarrow> ('g, string) rpc"
  agent_FileHash :: "string \<Rightarrow> string \<Rightarrow> ('g, string) rpc"
  agent_Listen :: "int \<Rightarrow> ('g, unit) rpc"
  agent_HTTPGet :: "string \<Rightarrow> ('g, HTTPReply) rpc"
  agent_JournalLines :: "string \<Rightarrow> int \<Rightarrow> string \<Rightarrow> ('g, string list) rpc"
  agent_FindProcesses :: "string \<Rightarrow> ('g, ProcessEntry list) rpc"
  agent_NetworkInfo :: "string \<Rightarrow> ('g, NetworkInfo) rpc"
  agent_Close :: "int \<Rightarrow> 'g \<Rightarrow> nat \<times> 'g"

text \<open>The methods of \<open>vm.VM\<close>; \<open>QMP\<close> and \<open>Serial\<close> hand out opaque handles, nil as \<open>None\<close>.\<close>

record 'g VM =
  vm_Stop :: "('g, unit) rpc"
  vm_Kill :: "int \<Rightarrow> 'g \<Rightarrow> nat \<times> 'g"
  vm_ForwardedPort :: "int \<Rightarrow> 'g \<Rightarrow> int"
  vm_QMP :: "string option"
  vm_Serial :: "string option"
  vm_AgentSocketPath :: string

text \<open>\<open>type Machine struct\<close>; the VM pointer may be nil.\<close>

record 'g Machine =
  m_vm :: "'g VM option"
  m_agent :: "'g agent"

section \<open>The running test\<close>

text \<open>The closures given to \<open>t.Cleanup\<close>: the one of \<open>New\<close> (with whether there is a serial log to
  drain) and the one of \<open>DumpOnFailure\<close>.\<close>

datatype 'g cleanup = CleanupNew "'g Machine" bool | CleanupDump "'g Machine" dumpConfig

datatype lifecycle = VMStarted | AgentConnected | AgentClosed | VMKilled | LogDrained

datatype tevent = TLog string "fmt_arg list" | TRpc | TLife lifecycle

record 'g world =
  clock :: int
  delays :: "nat list"
  guest :: 'g
  tevents :: "tevent list"
  tfailed :: bool
  cleanups :: "'g cleanup list"

definition emit :: "tevent \<Rightarrow> 'g world \<Rightarrow> 'g world" where
  "emit e w = w\<lparr>tevents := tevents w @ [e]\<rparr>"

text \<open>A call into the external package, and the same as a request to the guest agent.\<close>

definition extern :: "('g, 'a) rpc \<Rightarrow> 'g world \<Rightarrow> (go_error + 'a) \<times> 'g world" where
  "extern f w = (case f (clock w) (guest w) of (r, d, g') \<Rightarrow> (r, w\<lparr>guest := g', clock := clock w + int d\<rparr>))"

definition extern_unit :: "(int \<Rightarrow> 'g \<Rightarrow> nat \<times> 'g) \<Rightarrow> 'g world \<Rightarrow> 'g world" where
  "extern_unit f w = (case f (clock w) (guest w) of (d, g') \<Rightarrow> w\<lparr>guest := g', clock := clock w + int d\<rparr>)"

definition call :: "('g, 'a) rpc \<Rightarrow> 'g world \<Rightarrow> (go_error + 'a) \<times> 'g world" where
  "call f w = extern f (emit TRpc w)"

text \<open>\<open>time.Sleep\<close>: at least the given duration; \<open>delays\<close> holds by how much the coming sleeps
  oversleep.\<close>

definition Sleep :: "int \<Rightarrow> 'g world \<Rightarrow> 'g world" where
  "Sleep d w =
     (case delays w of
        [] \<Rightarrow> w\<lparr>clock := clock w + max 0 d\<rparr>
      | x # xs \<Rightarrow> w\<lparr>clock := clock w + max 0 d + int x, delays := xs\<rparr>)"

definition Logf :: "string \<Rightarrow> fmt_arg list \<Rightarrow> 'g world \<Rightarrow> 'g world" where
  "Logf f as w = emit (TLog f as) w"

text \<open>\<open>t.Fatalf\<close>: log the message, mark the test as failed, leave the goroutine.\<close>

definition fatal :: "string \<Rightarrow> fmt_arg list \<Rightarrow> 'g world \<Rightarrow> (halt + 'a) \<times> 'g world" where
  "fatal f as w = (Inl (Fatalf f as), (Logf f as w)\<lparr>tfailed := True\<rparr>)"

definition Cleanup :: "'g cleanup \<Rightarrow> 'g world \<Rightarrow> 'g world" where
  "Cleanup c w = w\<lparr>cleanups := c # cleanups w\<rparr>"

section \<open>What the primitives keep\<close>

lemma clock_Sleep: "clock w + max 0 d \<le> clock (Sleep d w)"
  by (auto simp: Sleep_def split: list.splits)

lemma clock_extern: "clock w \<le> clock (snd (extern f w))"
  by (simp add: extern_def split: prod.splits)

lemma clock_call: "clock w \<le> clock (snd (call f w))"
  using clock_extern [of "emit TRpc w" f] by (simp add: call_def emit_def)

lemma clock_call': "call f w = (r, w') \<Longrightarrow> clock w \<le> clock w'"
  using clock_call [of w f] by simp

lemma emit_fields [simp]:
  "clock (emit e w) = clock w" "guest (emit e w) = guest w" "tfailed (emit e w) = tfailed w"
  "delays (emit e w) = delays w" "cleanups (emit e w) = cleanups w" "tevents (emit e w) = tevents w @ [e]"
  by (simp_all add: emit_def)

lemma Logf_fields [simp]:
  "clock (Logf f as w) = clock w" "guest (Logf f as w) = guest w" "tfailed (Logf f as w) = tfailed w"
  "delays (Logf f as w) = delays w" "cleanups (Logf f as w) = cleanups w"
  "tevents (Logf f as w) = tevents w @ [TLog f as]"
  by (simp_all add: Logf_def)

lemma Sleep_fields [simp]:
  "guest (Sleep d w) = guest w" "tfailed (Sleep d w) = tfailed w"
  "cleanups (Sleep d w) = cleanups w" "tevents (Sleep d w) = tevents w"
  by (simp_all add: Sleep_def split: list.splits)

lemma extern_fields:
  assumes "extern f w = (r, w')"
  shows "tfailed w' = tfailed w" "delays w' = delays w" "cleanups w' = cleanups w" "tevents w' = tevents w"
  using assms by (auto simp: extern_def split: prod.splits)

lemma call_fields:
  assumes "call f w = (r, w')"
  shows "tfailed w' = tfailed w" "delays w' = delays w" "cleanups w' = cleanups w"
    "tevents w' = tevents w @ [TRpc]"
  using extern_fields [of f "emit TRpc w" r w'] assms by (simp_all add: call_def)

lemma extern_unit_fields [simp]:
  "tfailed (extern_unit f w) = tfailed w" "delays (extern_unit f w) = delays w"
  "cleanups (extern_unit f w) = cleanups w" "tevents (extern_unit f w) = tevents w"
  by (simp_all add: extern_unit_def split: prod.splits)

lemma fatal_eq: "fatal f as w = (x, w') \<longleftrightarrow>
   x = Inl (Fatalf f as) \<and> w' = (Logf f as w)\<lparr>tfailed := True\<rparr>"
  by (auto simp: fatal_def)

end
