(* ===== verification/Polling.thy ===== *)
theory Polling
  imports VmApi
begin

text \<open>
  The polling loop every \<open>WaitFor*\<close> operation of \<open>machine/machine.go\<close> is written as:
  \<^verbatim>\<open>
    deadline := time.Now().Add(rc.timeout)
    for time.Now().Before(deadline) {
        ... body: one agent call, maybe a return ...
        time.Sleep(rc.interval)
    }
  \<close>
  An agent call takes a natural number of nanoseconds, a sleep at least the interval. The loop
  may not end (an interval of zero and an agent that answers at once), so it is a partial
  function; it is related to the rounds of the inductive relation \<open>rounds\<close>, and the locale
  \<open>polling\<close> proves when it ends and what it then returns.
\<close>

section \<open>Definitions\<close>

text \<open>The loop; \<open>'l\<close> holds the local variables that live across rounds, a body returns \<open>Inl\<close> of
  the function's result or \<open>Inr\<close> of the locals when it falls through to the sleep.\<close>

type_synonym ('g, 'r, 'l) body = "'l \<Rightarrow> 'g world \<Rightarrow> ('r + 'l) \<times> 'g world"

partial_function (option) poll ::
  "int \<Rightarrow> int \<Rightarrow> ('g, 'r, 'l) body \<Rightarrow> 'l \<Rightarrow> 'g world \<Rightarrow> (('r + 'l) \<times> 'g world) option" where
  "poll deadline i body l w =
     (if clock w < deadline then
        (case body l w of
           (Inl r, w') \<Rightarrow> Some (Inl r, w')
         | (Inr l', w') \<Rightarrow> poll deadline i body l' (Sleep i w'))
      else Some (Inr l, w))"

declare poll.simps [code]

text \<open>The states at the head of the loop after a number of rounds that did not return.\<close>

inductive rounds ::
  "int \<Rightarrow> int \<Rightarrow> ('g, 'r, 'l) body \<Rightarrow> nat \<Rightarrow> 'l \<Rightarrow> 'g world \<Rightarrow> 'l \<Rightarrow> 'g world \<Rightarrow> bool"
  for deadline i body where
  rounds_0: "rounds deadline i body 0 l w l w"
| rounds_Suc: "clock w < deadline \<Longrightarrow> body l w = (Inr l1, w1) \<Longrightarrow>
     rounds deadline i body n l1 (Sleep i w1) l2 w2 \<Longrightarrow> rounds deadline i body (Suc n) l w l2 w2"

inductive_cases rounds_SucE: "rounds deadline i body (Suc n) l w l2 w2"
inductive_cases rounds_0E: "rounds deadline i body 0 l w l2 w2"

section \<open>The loop and its rounds\<close>

lemma poll_step: "clock w < deadline \<Longrightarrow> body l w = (Inr l1, w1) \<Longrightarrow>
   poll deadline i body l w = poll deadline i body l1 (Sleep i w1)"
  by (subst poll.simps) simp

lemma poll_rounds: "rounds deadline i body n l w l2 w2 \<Longrightarrow> poll deadline i body l w = poll deadline i body l2 w2"
  by (induction rule: rounds.induct) (auto simp: poll_step)

lemma poll_returned: "clock w < deadline \<Longrightarrow> body l w = (Inl r, w') \<Longrightarrow> poll deadline i body l w = Some (Inl r, w')"
  by (subst poll.simps) simp

lemma poll_expired: "deadline \<le> clock w \<Longrightarrow> poll deadline i body l w = Some (Inr l, w)"
  by (subst poll.simps) simp

text \<open>What a finished loop did: some rounds that fell through, then a return or the deadline.\<close>

definition poll_result ::
  "int \<Rightarrow> int \<Rightarrow> ('g, 'r, 'l) body \<Rightarrow> 'l \<Rightarrow> 'g world \<Rightarrow> ('r + 'l) \<times> 'g world \<Rightarrow> bool" where
  "poll_result deadline i body l w res \<longleftrightarrow>
     (\<exists>n l1 w1. rounds deadline i body n l w l1 w1 \<and>
        (case res of
           (Inl r, w') \<Rightarrow> clock w1 < deadline \<and> body l1 w1 = (Inl r, w')
         | (Inr l', w') \<Rightarrow> deadline \<le> clock w1 \<and> l' = l1 \<and> w' = w1))"

lemma poll_result_step:
  assumes "clock w < deadline" "body l w = (Inr l1, w1)" "poll_result deadline i body l1 (Sleep i w1) res"
  shows "poll_result deadline i body l w res"
proof -
  from assms(3) obtain n l2 w2 where r: "rounds deadline i body n l1 (Sleep i w1) l2 w2"
    and q: "case res of (Inl r, w') \<Rightarrow> clock w2 < deadline \<and> body l2 w2 = (Inl r, w')
                      | (Inr l', w') \<Rightarrow> deadline \<le> clock w2 \<and> l' = l2 \<and> w' = w2"
    unfolding poll_result_def by blast
  from rounds_Suc [OF assms(1,2) r] q show ?thesis unfolding poll_result_def by blast
qed

lemma poll_result_return: "clock w < deadline \<Longrightarrow> body l w = (Inl r, w') \<Longrightarrow> poll_result deadline i body l w (Inl r, w')"
  unfolding poll_result_def by (intro exI conjI, rule rounds_0) auto

lemma poll_result_expired: "deadline \<le> clock w \<Longrightarrow> poll_result deadline i body l w (Inr l, w)"
  unfolding poll_result_def by (intro exI conjI, rule rounds_0) auto

lemma poll_Some_result:
  fixes body :: "('g, 'r, 'l) body"
  assumes "poll deadline i body l w = Some res"
  shows "poll_result deadline i body l w res"
proof (rule poll.raw_induct [where P = "\<lambda>dl iv bd lo wo re. poll_result dl iv bd lo wo re", OF _ assms])
  fix pl and deadline i and body :: "('g, 'r, 'l) body" and l and w :: "'g world" and res
  assume IH: "\<And>dl iv bd lo wo re. pl dl iv bd lo wo = Some re \<Longrightarrow> poll_result dl iv bd lo wo re"
    and eq: "(if clock w < deadline then
        (case body l w of
           (Inl r, w') \<Rightarrow> Some (Inl r, w')
         | (Inr l', w') \<Rightarrow> pl deadline i body l' (Sleep i w'))
      else Some (Inr l, w)) = Some res"
  show "poll_result deadline i body l w res"
  proof (cases "clock w < deadline")
    case True
    obtain x w' where b: "body l w = (x, w')" by fastforce
    show ?thesis
    proof (cases x)
      case (Inl r)
      then have "res = (Inl r, w')" using True b eq by simp
      then show ?thesis using True b Inl by (simp add: poll_result_return)
    next
      case (Inr l')
      then have "pl deadline i body l' (Sleep i w') = Some res" using True b eq by simp
      from poll_result_step [OF True _ IH [OF this]] b Inr show ?thesis by simp
    qed
  next
    case False
    then show ?thesis using eq by (auto intro: poll_result_expired)
  qed
qed

text \<open>The executable loop and the relation agree.\<close>

lemma poll_iff: "poll deadline i body l w = Some res \<longleftrightarrow> poll_result deadline i body l w res"
proof
  assume "poll_result deadline i body l w res"
  then obtain n l1 w1 where r: "rounds deadline i body n l w l1 w1"
    and q: "case res of (Inl r, w') \<Rightarrow> clock w1 < deadline \<and> body l1 w1 = (Inl r, w')
                      | (Inr l', w') \<Rightarrow> deadline \<le> clock w1 \<and> l' = l1 \<and> w' = w1"
    unfolding poll_result_def by blast
  have "poll deadline i body l1 w1 = Some res"
    using q by (cases res) (auto simp: poll_returned poll_expired split: sum.splits)
  then show "poll deadline i body l w = Some res" using poll_rounds [OF r] by simp
qed (rule poll_Some_result)

section \<open>The contract of a loop body\<close>

text \<open>A body may run agent calls and log, but it cannot turn the clock back.\<close>

locale polling =
  fixes body :: "('g, 'r, 'l) body"
  assumes body_clock: "clock w \<le> clock (snd (body l w))"
begin

lemma round_clock: "body l w = (x, w') \<Longrightarrow> clock w + max 0 i \<le> clock (Sleep i w')"
  using body_clock [of w l] clock_Sleep [of w' i] by simp

lemma rounds_clock: "rounds deadline i body n l w l2 w2 \<Longrightarrow> clock w + int n * max 0 i \<le> clock w2"
proof (induction rule: rounds.induct)
  case (rounds_Suc w l l1 w1 n l2 w2)
  then have "clock w + max 0 i \<le> clock (Sleep i w1)" by (auto intro: round_clock)
  with rounds_Suc show ?case by (simp add: algebra_simps)
qed simp

text \<open>With a positive interval the loop returns: each round moves the clock by the interval.\<close>

lemma poll_terminates:
  assumes "0 < i"
  shows "\<exists>res. poll deadline i body l w = Some res"
proof (induction "nat (deadline - clock w)" arbitrary: l w rule: less_induct)
  case less
  show ?case
  proof (cases "clock w < deadline")
    case True
    obtain x w' where b: "body l w = (x, w')" by fastforce
    show ?thesis
    proof (cases x)
      case (Inl r)
      then show ?thesis using True b by (auto simp: poll_returned)
    next
      case (Inr l')
      have "clock w + i \<le> clock (Sleep i w')" using round_clock [OF b, of i] assms by simp
      then have "nat (deadline - clock (Sleep i w')) < nat (deadline - clock w)" using assms True by simp
      from less.hyps [OF this] show ?thesis using True b Inr by (auto simp: poll_step)
    qed
  qed (auto simp: poll_expired)
qed

text \<open>The rounds, and with them the body calls, are bounded by timeout over interval.\<close>

lemma rounds_bound:
  "rounds deadline i body n l w l1 w1 \<Longrightarrow> clock w1 < deadline \<Longrightarrow> int n * max 0 i < deadline - clock w"
  using rounds_clock by fastforce

lemma rounds_Suc_bound:
  "rounds deadline i body (Suc k) l w l1 w1 \<Longrightarrow> int k * max 0 i < deadline - clock w"
proof (induction k arbitrary: l w)
  case (Suc k)
  from Suc.prems obtain la wa where b: "clock w < deadline" "body l w = (Inr la, wa)"
    and r: "rounds deadline i body (Suc k) la (Sleep i wa) l1 w1" by (auto elim: rounds_SucE)
  from Suc.IH [OF r] round_clock [OF b(2), of i] show ?case by (simp add: algebra_simps)
qed (auto elim: rounds_SucE)

text \<open>A loop that did not return has waited for the deadline.\<close>

lemma poll_expired_clock: "poll deadline i body l w = Some (Inr l', w') \<Longrightarrow> deadline \<le> clock w'"
  by (auto simp: poll_iff poll_result_def)

lemma rounds_last:
  assumes "rounds deadline i body n l w l' w'" "clock w < deadline" "deadline \<le> clock w'" "I w"
    and keep: "\<And>l w l' w'. I w \<Longrightarrow> body l w = (Inr l', w') \<Longrightarrow> I (Sleep i w')"
  shows "\<exists>l1 w1 w2. I w1 \<and> clock w1 < deadline \<and> body l1 w1 = (Inr l', w2) \<and> w' = Sleep i w2"
  using assms(1-4)
proof (induction rule: rounds.induct)
  case (rounds_Suc w l l1 w1 n l2 w2)
  show ?case
  proof (cases "clock (Sleep i w1) < deadline")
    case True
    with rounds_Suc keep show ?thesis by blast
  next
    case False
    then have "n = 0" using rounds_Suc.hyps(3) by (cases n) (auto elim: rounds_SucE)
    then have "l2 = l1 \<and> w2 = Sleep i w1" using rounds_Suc.hyps(3) by (auto elim: rounds_0E)
    then show ?thesis using rounds_Suc.hyps(1,2) rounds_Suc.prems(3) by blast
  qed
qed simp

text \<open>When the condition holds for good from time \<open>T\<close> on, and a round that starts before takes at most
  \<open>S\<close> (as long as the invariant \<open>I\<close> holds), the loop returns if it has \<open>S\<close> left after \<open>T\<close>: no
  spurious timeout.\<close>

lemma poll_catches:
  assumes "0 < i" and "clock w < deadline" and "T + S \<le> deadline" and "I w"
    and keep: "\<And>l w l' w'. I w \<Longrightarrow> body l w = (Inr l', w') \<Longrightarrow> I (Sleep i w')"
    and holds: "\<And>l w. T \<le> clock w \<Longrightarrow> \<exists>r w'. body l w = (Inl r, w')"
    and quick: "\<And>l w l' w'. I w \<Longrightarrow> body l w = (Inr l', w') \<Longrightarrow> clock (Sleep i w') \<le> clock w + S"
  shows "\<exists>r w'. poll deadline i body l w = Some (Inl r, w')"
proof -
  obtain x w' where p: "poll deadline i body l w = Some (x, w')"
    using poll_terminates [OF assms(1), of deadline l w] by auto
  show ?thesis
  proof (cases x)
    case (Inr l')
    with p obtain n where r: "rounds deadline i body n l w l' w'" and late: "deadline \<le> clock w'"
      by (auto simp: poll_iff poll_result_def)
    obtain l1 w1 w2 where "I w1" and b: "body l1 w1 = (Inr l', w2)" and w': "w' = Sleep i w2"
      using rounds_last [OF r assms(2) late, of I] assms(4) keep by blast
    from b holds [of w1 l1] have "clock w1 < T" by force
    with quick [OF \<open>I w1\<close> b] have "clock (Sleep i w2) < T + S" by simp
    with late w' assms(3) show ?thesis by simp
  qed (use p in auto)
qed

end

section \<open>Counting requests\<close>

definition rpcs :: "'g world \<Rightarrow> nat" where
  "rpcs w = length (filter (\<lambda>e. e = TRpc) (tevents w))"

text \<open>A body that makes exactly one agent call.\<close>

locale polling_rpc = polling +
  assumes one_rpc: "rpcs (snd (body l w)) = Suc (rpcs w)"
begin

lemma rounds_rpcs: "rounds deadline i body n l w l2 w2 \<Longrightarrow> rpcs w2 = rpcs w + n"
proof (induction rule: rounds.induct)
  case (rounds_Suc w l l1 w1 n l2 w2)
  then have "rpcs w1 = Suc (rpcs w)" using one_rpc [of l w] by simp
  then have "rpcs (Sleep i w1) = Suc (rpcs w)" by (simp add: rpcs_def)
  with rounds_Suc show ?case by simp
qed simp

text \<open>Of the calls a loop makes, all but the last have slept a whole interval before the deadline.\<close>

lemma poll_rpcs:
  assumes "poll deadline i body l w = Some (x, w')"
  shows "rpcs w' = rpcs w \<or> rpcs w < rpcs w' \<and> int (rpcs w' - rpcs w - 1) * max 0 i < deadline - clock w"
proof -
  obtain n l1 w1 where r: "rounds deadline i body n l w l1 w1"
    and q: "case x of Inl r \<Rightarrow> clock w1 < deadline \<and> body l1 w1 = (Inl r, w') | Inr l' \<Rightarrow> l' = l1 \<and> w' = w1"
    using assms by (cases x) (auto simp: poll_iff poll_result_def)
  show ?thesis
  proof (cases x)
    case (Inl r')
    with q have "rpcs w' = rpcs w + n + 1" using rounds_rpcs [OF r] one_rpc [of l1 w1] by simp
    then show ?thesis using q Inl rounds_bound [OF r] by simp
  next
    case (Inr l')
    show ?thesis
    proof (cases n)
      case 0
      then show ?thesis using q Inr r by (auto elim: rounds_0E)
    next
      case (Suc k)
      have "int k * max 0 i < deadline - clock w" using r Suc rounds_Suc_bound by blast
      then show ?thesis using q Inr rounds_rpcs [OF r] Suc by simp
    qed
  qed
qed

end

end
