(* ===== verification/MachineOps.thy ===== *)
theory MachineOps
  imports Polling
begin

text \<open>
  The operations of \<open>machine/machine.go\<close> on a running VM: command execution, systemd units,
  ports, files, HTTP, the journal, processes and the network, each as a function of the machine
  and the world. An operation that fails the test returns \<open>Inl\<close> with the message of its
  \<open>t.Fatalf\<close>; a polling operation returns \<open>None\<close> only if its loop does not end.

  Regular expressions are Go's \<open>regexp\<close>: \<open>compile\<close> gives the matcher of a pattern, \<open>None\<close> for a
  pattern that does not compile, on which \<open>regexp.MustCompile\<close> panics.
\<close>

section \<open>Commands\<close>

text \<open>\<open>(stdout, stderr string, exitCode int, err error)\<close>\<close>

type_synonym exec_result = "string \<times> string \<times> int \<times> go_error option"

definition ExecuteWithTimeout :: "'g Machine \<Rightarrow> string \<Rightarrow> int \<Rightarrow> 'g world \<Rightarrow> exec_result \<times> 'g world" where
  "ExecuteWithTimeout m cmd tmo w =
     (case call (agent_Exec (m_agent m) tmo cmd 0) w of
        (Inl err, w') \<Rightarrow> (([], [], -1, Some err), w')
      | (Inr resp, w') \<Rightarrow> ((Stdout resp, Stderr resp, ExitCode resp, None), w'))"

definition Execute :: "'g Machine \<Rightarrow> string \<Rightarrow> 'g world \<Rightarrow> exec_result \<times> 'g world" where
  "Execute m cmd w = ExecuteWithTimeout m cmd (120 * second) w"

definition Succeed :: "'g Machine \<Rightarrow> string \<Rightarrow> 'g world \<Rightarrow> (halt + string) \<times> 'g world" where
  "Succeed m cmd w =
     (let ((stdout, stderr, exitCode, err), w') = Execute m cmd w in
      case err of
        Some e \<Rightarrow> fatal ''Succeed(%q): RPC error: %v'' [AStr cmd, AErr e] w'
      | None \<Rightarrow>
          if exitCode \<noteq> 0
          then fatal ''Succeed(%q): exit code %d\<newline>stdout: %s\<newline>stderr: %s''
                 [AStr cmd, AInt exitCode, AStr stdout, AStr stderr] w'
          else (Inr stdout, w'))"

definition Background :: "'g Machine \<Rightarrow> string list \<Rightarrow> 'g world \<Rightarrow> (halt + unit) \<times> 'g world" where
  "Background m argv w =
     (case call (agent_Background (m_agent m) argv) w of
        (Inl err, w') \<Rightarrow> fatal ''Background(%v): %v'' [AStrs argv, AErr err] w'
      | (Inr _, w') \<Rightarrow> (Inr (), w'))"

definition Fail :: "'g Machine \<Rightarrow> string \<Rightarrow> 'g world \<Rightarrow> (halt + unit) \<times> 'g world" where
  "Fail m cmd w =
     (let ((stdout, stderr, exitCode, err), w') = Execute m cmd w in
      case err of
        Some e \<Rightarrow> fatal ''Fail(%q): RPC error: %v'' [AStr cmd, AErr e] w'
      | None \<Rightarrow>
          if exitCode = 0
          then fatal ''Fail(%q): expected non-zero exit code, got 0'' [AStr cmd] w'
          else (Inr (), w'))"

section \<open>Polling operations\<close>

text \<open>The loop bodies; \<open>'r = halt + 'a\<close>, since a body may itself fail the test.\<close>

definition until_succeeds_body ::
  "'g Machine \<Rightarrow> string \<Rightarrow> (string \<Rightarrow> bool) \<Rightarrow> ('g, halt + string, exec_result) body" where
  "until_succeeds_body m cmd matches prev w =
     (let ((lastStdout, lastStderr, lastExitCode, lastErr), w') = Execute m cmd w in
      if lastErr = None \<and> lastExitCode = 0 \<and> matches lastStdout
      then (Inl (Inr lastStdout), w')
      else (Inr (lastStdout, lastStderr, lastExitCode, lastErr), w'))"

definition WaitUntilSucceeds ::
  "'g Machine \<Rightarrow> string \<Rightarrow> RetryOption list \<Rightarrow> 'g world \<Rightarrow> ((halt + string) \<times> 'g world) option" where
  "WaitUntilSucceeds m cmd opts w =
     (let rc = applyRetryOpts opts;
          deadline = clock w + timeout rc
      in case poll deadline (interval rc) (until_succeeds_body m cmd (\<lambda>_. True)) ([], [], 0, None) w of
           None \<Rightarrow> None
         | Some (Inl r, w') \<Rightarrow> Some (r, w')
         | Some (Inr (lastStdout, lastStderr, lastExitCode, lastErr), w') \<Rightarrow>
             Some (case lastErr of
                 Some e \<Rightarrow> fatal ''WaitUntilSucceeds(%q): timed out after %s: RPC error: %v''
                             [AStr cmd, ADur (timeout rc), AErr e] w'
               | None \<Rightarrow> fatal ''WaitUntilSucceeds(%q): timed out after %s: exit code %d\<newline>stdout: %s\<newline>stderr: %s''
                             [AStr cmd, ADur (timeout rc), AInt lastExitCode, AStr lastStdout, AStr lastStderr] w'))"

text \<open>\<open>OutputMatcher\<close> and its three constructors.\<close>

type_synonym OutputMatcher = "string \<Rightarrow> bool"

definition OutputContains :: "string \<Rightarrow> OutputMatcher" where
  "OutputContains substr stdout = Contains stdout substr"

definition OutputEquals :: "string \<Rightarrow> OutputMatcher" where
  "OutputEquals exact stdout = (TrimSpace stdout = exact)"

definition MustCompile :: "(string \<Rightarrow> (string \<Rightarrow> bool) option) \<Rightarrow> string \<Rightarrow> halt + (string \<Rightarrow> bool)" where
  "MustCompile compile pattern =
     (case compile pattern of
        None \<Rightarrow> Inl (Panic ''regexp: Compile(%q)'' [AStr pattern])
      | Some re \<Rightarrow> Inr re)"

definition OutputMatches :: "(string \<Rightarrow> (string \<Rightarrow> bool) option) \<Rightarrow> string \<Rightarrow> halt + OutputMatcher" where
  "OutputMatches compile pattern = MustCompile compile pattern"

definition WaitUntilOutput ::
  "'g Machine \<Rightarrow> string \<Rightarrow> OutputMatcher \<Rightarrow> RetryOption list \<Rightarrow> 'g world \<Rightarrow> ((halt + string) \<times> 'g world) option" where
  "WaitUntilOutput m cmd matches opts w =
     (let rc = applyRetryOpts opts;
          deadline = clock w + timeout rc
      in case poll deadline (interval rc) (until_succeeds_body m cmd matches) ([], [], 0, None) w of
           None \<Rightarrow> None
         | Some (Inl r, w') \<Rightarrow> Some (r, w')
         | Some (Inr (lastStdout, lastStderr, lastExitCode, lastErr), w') \<Rightarrow>
             Some (case lastErr of
                 Some e \<Rightarrow> fatal ''WaitUntilOutput(%q): timed out after %s: RPC error: %v''
                             [AStr cmd, ADur (timeout rc), AErr e] w'
               | None \<Rightarrow> fatal ''WaitUntilOutput(%q): timed out after %s: output did not match\<newline>exit code: %d\<newline>stdout: %s\<newline>stderr: %s''
                             [AStr cmd, ADur (timeout rc), AInt lastExitCode, AStr lastStdout, AStr lastStderr] w'))"

text \<open>The operations that keep nothing between rounds: poll, or fail with the given message.\<close>

definition poll_or_fatal ::
  "retryConfig \<Rightarrow> ('g, halt + 'a, unit) body \<Rightarrow> string \<Rightarrow> fmt_arg list \<Rightarrow> 'g world \<Rightarrow> ((halt + 'a) \<times> 'g world) option" where
  "poll_or_fatal rc body f as w =
     (let deadline = clock w + timeout rc in
      case poll deadline (interval rc) body () w of
        None \<Rightarrow> None
      | Some (Inl r, w') \<Rightarrow> Some (r, w')
      | Some (Inr _, w') \<Rightarrow> Some (fatal f as w'))"

definition unit_body :: "'g Machine \<Rightarrow> string \<Rightarrow> ('g, halt + unit, unit) body" where
  "unit_body m unit l w =
     (case call (agent_UnitStatus (m_agent m) unit) w of
        (Inl err, w') \<Rightarrow> (Inr (), w')
      | (Inr resp, w') \<Rightarrow>
          if ActiveState resp = ''active'' then (Inl (Inr ()), w')
          else if ActiveState resp = ''failed'' then
            (case fatal ''WaitForUnit(%q): unit is in 'failed' state (sub: %s)'' [AStr unit, AStr (SubState resp)] w'
             of (r, w'') \<Rightarrow> (Inl r, w''))
          else (Inr (), w'))"

definition WaitForUnit :: "'g Machine \<Rightarrow> string \<Rightarrow> RetryOption list \<Rightarrow> 'g world \<Rightarrow> ((halt + unit) \<times> 'g world) option" where
  "WaitForUnit m unit opts w =
     (let rc = applyRetryOpts opts in
      poll_or_fatal rc (unit_body m unit) ''WaitForUnit(%q): timed out after %s'' [AStr unit, ADur (timeout rc)] w)"

definition port_body :: "'g Machine \<Rightarrow> int \<Rightarrow> bool \<Rightarrow> ('g, halt + unit, unit) body" where
  "port_body m port want l w =
     (case call (agent_CheckPort (m_agent m) port) w of
        (Inl err, w') \<Rightarrow> (Inr (), w')
      | (Inr open_p, w') \<Rightarrow> if open_p = want then (Inl (Inr ()), w') else (Inr (), w'))"

definition WaitForOpenPort :: "'g Machine \<Rightarrow> int \<Rightarrow> RetryOption list \<Rightarrow> 'g world \<Rightarrow> ((halt + unit) \<times> 'g world) option" where
  "WaitForOpenPort m port opts w =
     (let rc = applyRetryOpts opts in
      poll_or_fatal rc (port_body m port True) ''WaitForOpenPort(%d): timed out after %s'' [AInt port, ADur (timeout rc)] w)"

definition WaitForClosedPort :: "'g Machine \<Rightarrow> int \<Rightarrow> RetryOption list \<Rightarrow> 'g world \<Rightarrow> ((halt + unit) \<times> 'g world) option" where
  "WaitForClosedPort m port opts w =
     (let rc = applyRetryOpts opts in
      poll_or_fatal rc (port_body m port False) ''WaitForClosedPort(%d): timed out after %s'' [AInt port, ADur (timeout rc)] w)"

definition file_body :: "'g Machine \<Rightarrow> string \<Rightarrow> ('g, halt + unit, unit) body" where
  "file_body m path l w =
     (case call (agent_Stat (m_agent m) path) w of
        (Inl err, w') \<Rightarrow> (Inr (), w')
      | (Inr resp, w') \<Rightarrow> if Exists resp then (Inl (Inr ()), w') else (Inr (), w'))"

definition WaitForFile :: "'g Machine \<Rightarrow> string \<Rightarrow> RetryOption list \<Rightarrow> 'g world \<Rightarrow> ((halt + unit) \<times> 'g world) option" where
  "WaitForFile m path opts w =
     (let rc = applyRetryOpts opts in
      poll_or_fatal rc (file_body m path) ''WaitForFile(%q): timed out after %s'' [AStr path, ADur (timeout rc)] w)"

record HTTPResponse =
  StatusCode :: int
  Body :: string

definition http_body :: "'g Machine \<Rightarrow> string \<Rightarrow> httpConfig \<Rightarrow> ('g, halt + HTTPResponse, unit) body" where
  "http_body m url hc l w =
     (case call (agent_HTTPGet (m_agent m) url) w of
        (Inl err, w') \<Rightarrow> (Inr (), w')
      | (Inr resp, w') \<Rightarrow>
          if ReplyStatusCode resp = statusCode hc \<and>
             (bodyContains hc = [] \<or> Contains (ReplyBody resp) (bodyContains hc))
          then (Inl (Inr \<lparr>StatusCode = ReplyStatusCode resp, Body = ReplyBody resp\<rparr>), w')
          else (Inr (), w'))"

definition WaitForHTTP ::
  "'g Machine \<Rightarrow> string \<Rightarrow> WaitForHTTPOption list \<Rightarrow> 'g world \<Rightarrow> ((halt + HTTPResponse) \<times> 'g world) option" where
  "WaitForHTTP m url opts w =
     (let (hc, rc) = applyHTTPOpts opts in
      poll_or_fatal rc (http_body m url hc) ''WaitForHTTP(%q): timed out after %s waiting for status %d''
        [AStr url, ADur (timeout rc), AInt (statusCode hc)] w)"

definition log_body :: "'g Machine \<Rightarrow> string \<Rightarrow> (string \<Rightarrow> bool) \<Rightarrow> ('g, halt + string, unit) body" where
  "log_body m unit re l w =
     (case call (agent_JournalLines (m_agent m) unit 0 []) w of
        (Inl err, w') \<Rightarrow> (Inr (), w')
      | (Inr ls, w') \<Rightarrow> (case find re ls of Some line \<Rightarrow> (Inl (Inr line), w') | None \<Rightarrow> (Inr (), w')))"

definition WaitForLog ::
  "(string \<Rightarrow> (string \<Rightarrow> bool) option) \<Rightarrow> 'g Machine \<Rightarrow> string \<Rightarrow> string \<Rightarrow> RetryOption list \<Rightarrow> 'g world
     \<Rightarrow> ((halt + string) \<times> 'g world) option" where
  "WaitForLog compile m unit pattern opts w =
     (let rc = applyRetryOpts opts in
      case MustCompile compile pattern of
        Inl h \<Rightarrow> Some (Inl h, w)
      | Inr re \<Rightarrow>
          poll_or_fatal rc (log_body m unit re) ''WaitForLog(%q, %q): timed out after %s''
            [AStr unit, AStr pattern, ADur (timeout rc)] w)"

section \<open>Single requests\<close>

text \<open>\<open>resp, err := m.agent.X(...); if err != nil { t.Fatalf(f, as..., err) }; return k(resp)\<close>\<close>

definition request ::
  "('g, 'a) rpc \<Rightarrow> string \<Rightarrow> fmt_arg list \<Rightarrow> ('a \<Rightarrow> 'g world \<Rightarrow> (halt + 'b) \<times> 'g world) \<Rightarrow> 'g world \<Rightarrow> (halt + 'b) \<times> 'g world" where
  "request f fmt as k w =
     (case call f w of
        (Inl err, w') \<Rightarrow> fatal fmt (as @ [AErr err]) w'
      | (Inr x, w') \<Rightarrow> k x w')"

text \<open>The host's files as far as \<open>CopyFromHost\<close> reads them.\<close>

definition CopyFromHost ::
  "(string \<Rightarrow> go_error + string) \<Rightarrow> 'g Machine \<Rightarrow> string \<Rightarrow> string \<Rightarrow> 'g world \<Rightarrow> (halt + unit) \<times> 'g world" where
  "CopyFromHost ReadFile_host m hostPath guestPath w =
     (case ReadFile_host hostPath of
        Inl err \<Rightarrow> fatal ''CopyFromHost: failed to read host file %q: %v'' [AStr hostPath, AErr err] w
      | Inr data \<Rightarrow>
          request (agent_WriteFile (m_agent m) guestPath data 420) ''CopyFromHost: failed to write guest file %q: %v''
            [AStr guestPath] (\<lambda>_ w. (Inr (), w)) w)"

definition Listen :: "'g Machine \<Rightarrow> int \<Rightarrow> 'g world \<Rightarrow> (halt + unit) \<times> 'g world" where
  "Listen m port w =
     request (agent_Listen (m_agent m) port) ''Listen(%d): %v'' [AInt port] (\<lambda>_ w. (Inr (), w)) w"

text \<open>A method call on a nil VM pointer is a nil dereference in the external package.\<close>

definition Shutdown :: "'g Machine \<Rightarrow> 'g world \<Rightarrow> (halt + unit) \<times> 'g world" where
  "Shutdown m w =
     (case m_vm m of
        None \<Rightarrow> (Inl (Panic ''nil pointer dereference'' []), w)
      | Some v \<Rightarrow>
          (case extern (vm_Stop v) w of
             (Inl err, w') \<Rightarrow> fatal ''Shutdown: %v'' [AErr err] w'
           | (Inr _, w') \<Rightarrow> (Inr (), w')))"

definition ForwardedPort :: "'g Machine \<Rightarrow> int \<Rightarrow> 'g world \<Rightarrow> int" where
  "ForwardedPort m guestPort w = (case m_vm m of None \<Rightarrow> 0 | Some v \<Rightarrow> vm_ForwardedPort v guestPort (guest w))"

definition QMP :: "'g Machine \<Rightarrow> halt + string option" where
  "QMP m = (case m_vm m of None \<Rightarrow> Inl (Panic ''nil pointer dereference'' []) | Some v \<Rightarrow> Inr (vm_QMP v))"

definition Serial :: "'g Machine \<Rightarrow> halt + string option" where
  "Serial m = (case m_vm m of None \<Rightarrow> Inl (Panic ''nil pointer dereference'' []) | Some v \<Rightarrow> Inr (vm_Serial v))"

definition ReadFile :: "'g Machine \<Rightarrow> string \<Rightarrow> 'g world \<Rightarrow> (halt + string) \<times> 'g world" where
  "ReadFile m path w =
     request (agent_ReadFile (m_agent m) path) ''ReadFile(%q): %v'' [AStr path] (\<lambda>data w. (Inr data, w)) w"

definition FileHash :: "'g Machine \<Rightarrow> string \<Rightarrow> string \<Rightarrow> 'g world \<Rightarrow> (halt + string) \<times> 'g world" where
  "FileHash m path algo w =
     request (agent_FileHash (m_agent m) path algo) ''FileHash(%q, %q): %v'' [AStr path, AStr algo]
       (\<lambda>hex w. (Inr hex, w)) w"

definition FileSize :: "'g Machine \<Rightarrow> string \<Rightarrow> 'g world \<Rightarrow> (halt + int) \<times> 'g world" where
  "FileSize m path w =
     request (agent_Stat (m_agent m) path) ''FileSize(%q): %v'' [AStr path]
       (\<lambda>resp w. if \<not> Exists resp then fatal ''FileSize(%q): file does not exist'' [AStr path] w
                 else (Inr (Size resp), w)) w"

definition HTTPGet :: "'g Machine \<Rightarrow> string \<Rightarrow> 'g world \<Rightarrow> (halt + HTTPResponse) \<times> 'g world" where
  "HTTPGet m url w =
     request (agent_HTTPGet (m_agent m) url) ''HTTPGet(%q): %v'' [AStr url]
       (\<lambda>resp w. (Inr \<lparr>StatusCode = ReplyStatusCode resp, Body = ReplyBody resp\<rparr>, w)) w"

definition JournalLines :: "'g Machine \<Rightarrow> string \<Rightarrow> JournalOption list \<Rightarrow> 'g world \<Rightarrow> (halt + string list) \<times> 'g world" where
  "JournalLines m unit opts w =
     (let jc = applyJournalOpts opts in
      request (agent_JournalLines (m_agent m) unit (lines jc) (since jc)) ''JournalLines(%q): %v'' [AStr unit]
        (\<lambda>ls w. (Inr ls, w)) w)"

record ProcessInfo =
  PID :: int
  UID :: int
  GID :: int
  Cmdline :: string
  ProcState :: string

definition FindProcesses :: "'g Machine \<Rightarrow> string \<Rightarrow> 'g world \<Rightarrow> (halt + ProcessInfo list) \<times> 'g world" where
  "FindProcesses m pattern w =
     request (agent_FindProcesses (m_agent m) pattern) ''FindProcesses(%q): %v'' [AStr pattern]
       (\<lambda>entries w.
          (Inr (map (\<lambda>e. \<lparr>PID = EntryPID e, UID = EntryUID e, GID = EntryGID e,
                          Cmdline = EntryCmdline e, ProcState = EntryState e\<rparr>) entries), w)) w"

section \<open>The guest's network\<close>

record Route =
  Destination :: string
  Gateway :: string
  Interface :: string

record Link =
  Name :: string
  LState :: string
  MTU :: int
  Addrs :: "string list"

definition NetworkAddrs :: "'g Machine \<Rightarrow> string \<Rightarrow> 'g world \<Rightarrow> (halt + string list) \<times> 'g world" where
  "NetworkAddrs m iface w =
     request (agent_NetworkInfo (m_agent m) iface) ''NetworkAddrs(%q): %v'' [AStr iface]
       (\<lambda>resp w. (Inr (map Address (AddrTable resp)), w)) w"

definition NetworkRoutes :: "'g Machine \<Rightarrow> 'g world \<Rightarrow> (halt + Route list) \<times> 'g world" where
  "NetworkRoutes m w =
     request (agent_NetworkInfo (m_agent m) []) ''NetworkRoutes: %v'' []
       (\<lambda>resp w. (Inr (map (\<lambda>r. \<lparr>Destination = RouteDestination r, Gateway = RouteGateway r,
                                  Interface = RouteInterface r\<rparr>) (RouteTable resp)), w)) w"

text \<open>The nested loops of \<open>NetworkLinks\<close>, appending as the source does.\<close>

fun collect_addrs :: "string \<Rightarrow> AddrEntry list \<Rightarrow> string list \<Rightarrow> string list" where
  "collect_addrs name [] acc = acc"
| "collect_addrs name (a # as) acc =
     collect_addrs name as (if AddrInterface a = name then acc @ [Address a] else acc)"

fun collect_links :: "LinkEntry list \<Rightarrow> AddrEntry list \<Rightarrow> Link list \<Rightarrow> Link list" where
  "collect_links [] addrs acc = acc"
| "collect_links (l # ls) addrs acc =
     collect_links ls addrs
       (acc @ [\<lparr>Name = LinkName l, LState = LinkState l, MTU = LinkMTU l,
                Addrs = collect_addrs (LinkName l) addrs []\<rparr>])"

definition NetworkLinks :: "'g Machine \<Rightarrow> 'g world \<Rightarrow> (halt + Link list) \<times> 'g world" where
  "NetworkLinks m w =
     request (agent_NetworkInfo (m_agent m) []) ''NetworkLinks: %v'' []
       (\<lambda>resp w. (Inr (collect_links (LinkTable resp) (AddrTable resp) []), w)) w"

section \<open>Timing\<close>

definition Time :: "string \<Rightarrow> ('g world \<Rightarrow> 'g world) \<Rightarrow> 'g world \<Rightarrow> int \<times> 'g world" where
  "Time label fn w =
     (let start = clock w;
          w' = fn w;
          elapsed = clock w' - start
      in (elapsed, Logf ''[timing] %s: %s'' [AStr label, ADur elapsed] w'))"

section \<open>The bodies meet the polling contract\<close>

lemma rpcs_call: "call f w = (r, w') \<Longrightarrow> rpcs w' = Suc (rpcs w)"
  by (simp add: rpcs_def call_fields)

lemma rpcs_fatal: "fatal f as w = (r, w') \<Longrightarrow> rpcs w' = rpcs w"
  by (auto simp: fatal_eq rpcs_def)

lemma clock_fatal: "fatal f as w = (r, w') \<Longrightarrow> clock w' = clock w"
  by (auto simp: fatal_eq)

lemma Execute_call:
  "Execute m cmd w = (res, w') \<Longrightarrow> clock w \<le> clock w' \<and> rpcs w' = Suc (rpcs w)"
  by (auto simp: Execute_def ExecuteWithTimeout_def rpcs_call dest: clock_call' split: prod.splits sum.splits)

lemmas one_call = clock_call' rpcs_call Execute_call clock_fatal rpcs_fatal

interpretation until_succeeds: polling_rpc "until_succeeds_body m cmd matches" for m cmd matches
proof
  fix l w
  show "clock w \<le> clock (snd (until_succeeds_body m cmd matches l w))"
    and "rpcs (snd (until_succeeds_body m cmd matches l w)) = Suc (rpcs w)"
    by (auto simp: until_succeeds_body_def dest: one_call split: prod.splits)
qed

interpretation unit_poll: polling_rpc "unit_body m unit" for m unit
proof
  fix l w
  show "clock w \<le> clock (snd (unit_body m unit l w))" and "rpcs (snd (unit_body m unit l w)) = Suc (rpcs w)"
    by (auto simp: unit_body_def fatal_def rpcs_def dest: clock_call' call_fields split: prod.splits sum.splits)
qed

interpretation port_poll: polling_rpc "port_body m port want" for m port want
proof
  fix l w
  show "clock w \<le> clock (snd (port_body m port want l w))" and "rpcs (snd (port_body m port want l w)) = Suc (rpcs w)"
    by (auto simp: port_body_def dest: one_call split: prod.splits sum.splits)
qed

interpretation file_poll: polling_rpc "file_body m path" for m path
proof
  fix l w
  show "clock w \<le> clock (snd (file_body m path l w))" and "rpcs (snd (file_body m path l w)) = Suc (rpcs w)"
    by (auto simp: file_body_def dest: one_call split: prod.splits sum.splits)
qed

interpretation http_poll: polling_rpc "http_body m url hc" for m url hc
proof
  fix l w
  show "clock w \<le> clock (snd (http_body m url hc l w))" and "rpcs (snd (http_body m url hc l w)) = Suc (rpcs w)"
    by (auto simp: http_body_def dest: one_call split: prod.splits sum.splits)
qed

interpretation log_poll: polling_rpc "log_body m unit re" for m unit re
proof
  fix l w
  show "clock w \<le> clock (snd (log_body m unit re l w))" and "rpcs (snd (log_body m unit re l w)) = Suc (rpcs w)"
    by (auto simp: log_body_def dest: one_call split: prod.splits sum.splits option.splits)
qed

lemma poll_or_fatal_returns:
  "\<exists>r. poll (clock w + timeout rc) (interval rc) body () w = Some r \<Longrightarrow> \<exists>r. poll_or_fatal rc body f as w = Some r"
  by (auto simp: poll_or_fatal_def Let_def split: sum.splits)

lemma until_returns:
  "\<exists>r. poll d i body l w = Some r \<Longrightarrow>
   \<exists>r. (case poll d i body l w of
           None \<Rightarrow> None
         | Some (Inl r, w') \<Rightarrow> Some (r, w')
         | Some (Inr (a, b, c, e), w') \<Rightarrow> Some (g a b c e w')) = Some r"
  by (auto split: sum.splits prod.splits)

lemma WaitUntilSucceeds_returns:
  "0 < interval (applyRetryOpts opts) \<Longrightarrow> \<exists>r. WaitUntilSucceeds m cmd opts w = Some r"
  unfolding WaitUntilSucceeds_def Let_def by (rule until_returns) (rule until_succeeds.poll_terminates)

text \<open>(C7) Every waiting operation returns, with a result or a failed test, whenever the retry
  interval is positive: no agent behaviour can make it hang.\<close>

theorem wait_operations_return:
  assumes "0 < interval (applyRetryOpts opts)" and "0 < interval (snd (applyHTTPOpts hopts))"
  shows "(\<exists>r. WaitUntilSucceeds m cmd opts w = Some r) \<and>
         (\<exists>r. WaitUntilOutput m cmd matches opts w = Some r) \<and>
         (\<exists>r. WaitForUnit m unit opts w = Some r) \<and>
         (\<exists>r. WaitForOpenPort m port opts w = Some r) \<and>
         (\<exists>r. WaitForClosedPort m port opts w = Some r) \<and>
         (\<exists>r. WaitForFile m path opts w = Some r) \<and>
         (\<exists>r. WaitForHTTP m url hopts w = Some r) \<and>
         (\<exists>r. WaitForLog compile m unit pattern opts w = Some r)"
proof (intro conjI)
  let ?i = "interval (applyRetryOpts opts)"
  show "\<exists>r. WaitUntilSucceeds m cmd opts w = Some r"
    by (rule WaitUntilSucceeds_returns [OF assms(1)])
  show "\<exists>r. WaitUntilOutput m cmd matches opts w = Some r"
    unfolding WaitUntilOutput_def Let_def by (rule until_returns) (rule until_succeeds.poll_terminates [OF assms(1)])
  show "\<exists>r. WaitForUnit m unit opts w = Some r"
    unfolding WaitForUnit_def Let_def by (intro poll_or_fatal_returns unit_poll.poll_terminates assms)
  show "\<exists>r. WaitForOpenPort m port opts w = Some r"
    unfolding WaitForOpenPort_def Let_def by (intro poll_or_fatal_returns port_poll.poll_terminates assms)
  show "\<exists>r. WaitForClosedPort m port opts w = Some r"
    unfolding WaitForClosedPort_def Let_def by (intro poll_or_fatal_returns port_poll.poll_terminates assms)
  show "\<exists>r. WaitForFile m path opts w = Some r"
    unfolding WaitForFile_def Let_def by (intro poll_or_fatal_returns file_poll.poll_terminates assms)
  show "\<exists>r. WaitForHTTP m url hopts w = Some r"
    using assms(2) unfolding WaitForHTTP_def case_prod_unfold Let_def
    by (intro poll_or_fatal_returns http_poll.poll_terminates)
  show "\<exists>r. WaitForLog compile m unit pattern opts w = Some r"
    unfolding WaitForLog_def Let_def
    by (cases "MustCompile compile pattern")
      (simp_all only: sum.case poll_or_fatal_returns log_poll.poll_terminates [OF assms(1)] option.inject, blast)
qed

text \<open>A machine for the examples: files and ports appear and units start at given times, a command
  succeeds from a given time on, and every call takes one tick.\<close>

definition demo_agent :: "unit agent" where
  "demo_agent = \<lparr>
     agent_Exec = (\<lambda>tmo cmd n t g. (Inr \<lparr>Stdout = ''out'', Stderr = [], ExitCode = (if t \<ge> 5 then 0 else 1)\<rparr>, 1, g)),
     agent_Background = (\<lambda>argv t g. (Inr (), 1, g)),
     agent_UnitStatus = (\<lambda>u t g. (Inr \<lparr>ActiveState = (if u = ''bad'' then ''failed'' else ''active''), SubState = ''dead''\<rparr>, 1, g)),
     agent_CheckPort = (\<lambda>p t g. (Inr (t \<ge> 5), 1, g)),
     agent_Stat = (\<lambda>p t g. (Inr \<lparr>Exists = (t \<ge> 5), Size = 7\<rparr>, 1, g)),
     agent_WriteFile = (\<lambda>p d n t g. (Inr (), 1, g)),
     agent_ReadFile = (\<lambda>p t g. (Inr ''data'', 1, g)),
     agent_FileHash = (\<lambda>p a t g. (Inr ''00'', 1, g)),
     agent_Listen = (\<lambda>p t g. (Inr (), 1, g)),
     agent_HTTPGet = (\<lambda>u t g. (Inr \<lparr>ReplyStatusCode = 200, ReplyBody = ''ok''\<rparr>, 1, g)),
     agent_JournalLines = (\<lambda>u n s t g. (Inr [''line''], 1, g)),
     agent_FindProcesses = (\<lambda>p t g. (Inr [], 1, g)),
     agent_NetworkInfo = (\<lambda>i t g. (Inr \<lparr>AddrTable = [], RouteTable = [], LinkTable = []\<rparr>, 1, g)),
     agent_Close = (\<lambda>t g. (0, g))\<rparr>"

definition demo_machine :: "unit Machine" where
  "demo_machine = \<lparr>m_vm = None, m_agent = demo_agent\<rparr>"

definition demo_world :: "unit world" where
  "demo_world = \<lparr>clock = 0, delays = [], guest = (), tevents = [], tfailed = False, cleanups = []\<rparr>"

theorem wait_operations_return_witness:
  "\<exists>r. WaitUntilSucceeds demo_machine ''true'' [WithRetryInterval 500000000] demo_world = Some r"
proof -
  have "0 < interval (applyRetryOpts [WithRetryInterval 500000000])" by code_simp
  moreover have "0 < interval (snd (applyHTTPOpts []))" by code_simp
  ultimately show ?thesis using wait_operations_return by blast
qed


section \<open>What a waiting operation did\<close>

text \<open>The successful attempt of \<open>WaitUntilSucceeds\<close> and \<open>WaitUntilOutput\<close>, in terms of the command.\<close>

lemma until_succeeds_body_Inl:
  "until_succeeds_body m cmd matches l w = (Inl r, w') \<longleftrightarrow>
     (\<exists>out err. Execute m cmd w = ((out, err, 0, None), w') \<and> matches out \<and> r = Inr out)"
  by (auto simp: until_succeeds_body_def split: prod.splits)

lemma until_succeeds_body_Inr:
  "until_succeeds_body m cmd matches l w = (Inr l', w') \<longleftrightarrow>
     Execute m cmd w = (l', w') \<and> \<not> (\<exists>out err. l' = (out, err, 0, None) \<and> matches out)"
  by (cases l') (auto simp: until_succeeds_body_def split: prod.splits)

lemma WaitUntilSucceeds_cases:
  assumes "WaitUntilSucceeds m cmd opts w = Some (r, w')"
  obtains (success) out where "r = Inr out"
      and "poll (clock w + timeout (applyRetryOpts opts)) (interval (applyRetryOpts opts))
             (until_succeeds_body m cmd (\<lambda>_. True)) ([], [], 0, None) w = Some (Inl (Inr out), w')"
  | (timeout) h l w1 where "r = Inl h"
      and "poll (clock w + timeout (applyRetryOpts opts)) (interval (applyRetryOpts opts))
             (until_succeeds_body m cmd (\<lambda>_. True)) ([], [], 0, None) w = Some (Inr l, w1)"
      and "clock w' = clock w1" and "rpcs w' = rpcs w1" and "tfailed w'"
proof -
  let ?p = "poll (clock w + timeout (applyRetryOpts opts)) (interval (applyRetryOpts opts))
             (until_succeeds_body m cmd (\<lambda>_. True)) ([], [], 0, None) w"
  obtain x w1 where p: "?p = Some (x, w1)"
    using assms by (cases ?p) (auto simp: WaitUntilSucceeds_def Let_def)
  show thesis
  proof (cases x)
    case (Inl r')
    with p have "\<exists>out. r' = Inr out"
      by (auto simp: poll_iff poll_result_def until_succeeds_body_Inl)
    with p Inl assms show thesis by (auto simp: WaitUntilSucceeds_def Let_def intro: success)
  next
    case (Inr l)
    obtain a b c e where "l = (a, b, c, e)" by (cases l) auto
    with p Inr assms show thesis
      by (cases e) (auto simp: WaitUntilSucceeds_def Let_def fatal_eq rpcs_def intro!: timeout)
  qed
qed

lemma WaitUntilSucceeds_Inr:
  "WaitUntilSucceeds m cmd opts w = Some (Inr out, w') \<longleftrightarrow>
     (\<exists>n l w1 err.
        rounds (clock w + timeout (applyRetryOpts opts)) (interval (applyRetryOpts opts))
          (until_succeeds_body m cmd (\<lambda>_. True)) n ([], [], 0, None) w l w1 \<and>
        clock w1 < clock w + timeout (applyRetryOpts opts) \<and>
        Execute m cmd w1 = ((out, err, 0, None), w'))" (is "_ \<longleftrightarrow> ?attempt")
proof -
  let ?p = "poll (clock w + timeout (applyRetryOpts opts)) (interval (applyRetryOpts opts))
             (until_succeeds_body m cmd (\<lambda>_. True)) ([], [], 0, None) w"
  have "?attempt \<longleftrightarrow> ?p = Some (Inl (Inr out), w')"
    by (auto simp: poll_iff poll_result_def until_succeeds_body_Inl)
  moreover have "WaitUntilSucceeds m cmd opts w = Some (Inr out, w') \<longleftrightarrow> ?p = Some (Inl (Inr out), w')"
  proof
    assume "WaitUntilSucceeds m cmd opts w = Some (Inr out, w')"
    then show "?p = Some (Inl (Inr out), w')" by (cases rule: WaitUntilSucceeds_cases) auto
  qed (simp add: WaitUntilSucceeds_def Let_def)
  ultimately show ?thesis by blast
qed

text \<open>(C8) \<open>WaitUntilSucceeds\<close> returns an output exactly when, after some rounds in which the command
  did not exit with 0, an attempt that starts before the deadline exits with 0 without an RPC
  error and prints that output: it is the output of the first successful attempt. With a positive retry
  interval it fails the test exactly when there is no such attempt.\<close>

theorem WaitUntilSucceeds_first_success:
  defines "success m cmd opts w out w' \<equiv>
     (\<exists>n l w1 err.
        rounds (clock w + timeout (applyRetryOpts opts)) (interval (applyRetryOpts opts))
          (until_succeeds_body m cmd (\<lambda>_. True)) n ([], [], 0, None) w l w1 \<and>
        clock w1 < clock w + timeout (applyRetryOpts opts) \<and>
        Execute m cmd w1 = ((out, err, 0, None), w'))"
  shows "(WaitUntilSucceeds m cmd opts w = Some (Inr out, w') \<longleftrightarrow> success m cmd opts w out w') \<and>
    (0 < interval (applyRetryOpts opts) \<longrightarrow>
      (\<exists>h w'. WaitUntilSucceeds m cmd opts w = Some (Inl h, w')) \<longleftrightarrow> \<not> (\<exists>out w'. success m cmd opts w out w'))"
proof (intro conjI impI)
  show "WaitUntilSucceeds m cmd opts w = Some (Inr out, w') \<longleftrightarrow> success m cmd opts w out w'"
    unfolding success_def by (rule WaitUntilSucceeds_Inr)
next
  assume "0 < interval (applyRetryOpts opts)"
  then obtain r w'' where "WaitUntilSucceeds m cmd opts w = Some (r, w'')"
    using WaitUntilSucceeds_returns by fastforce
  then show "(\<exists>h w'. WaitUntilSucceeds m cmd opts w = Some (Inl h, w')) \<longleftrightarrow> \<not> (\<exists>out w'. success m cmd opts w out w')"
    unfolding success_def WaitUntilSucceeds_Inr [symmetric] by (cases r) auto
qed

theorem WaitUntilSucceeds_first_success_witness:
  "\<not> (\<exists>out w' n l w1 err.
        rounds 3 1 (until_succeeds_body demo_machine ''true'' (\<lambda>_. True)) n ([], [], 0, None) demo_world l w1 \<and>
        clock w1 < 3 \<and> Execute demo_machine ''true'' w1 = ((out, err, 0, None), w'))"
proof -
  let ?opts = "[WithRetryTimeout 3, WithRetryInterval 1]"
  let ?r = "WaitUntilSucceeds demo_machine ''true'' ?opts demo_world"
  have "(case ?r of Some (Inl h, w') \<Rightarrow> True | _ \<Rightarrow> False)" by code_simp
  then have r: "\<exists>h w'. ?r = Some (Inl h, w')" by (auto split: option.splits sum.splits)
  have "timeout (applyRetryOpts ?opts) = 3" "interval (applyRetryOpts ?opts) = 1" "clock demo_world = 0" by code_simp+
  with r WaitUntilSucceeds_first_success [of demo_machine "''true''" ?opts demo_world] show ?thesis by simp
qed

text \<open>(C20) \<open>WaitUntilSucceeds\<close> fails the test only once the whole timeout has passed.\<close>

theorem WaitUntilSucceeds_waits:
  assumes "WaitUntilSucceeds m cmd opts w = Some (Inl h, w')"
  shows "clock w + timeout (applyRetryOpts opts) \<le> clock w' \<and> tfailed w'"
  using assms by (cases rule: WaitUntilSucceeds_cases) (auto dest: until_succeeds.poll_expired_clock)

theorem WaitUntilSucceeds_waits_witness:
  "\<exists>h w'. WaitUntilSucceeds demo_machine ''true'' [WithRetryTimeout 3, WithRetryInterval 1] demo_world = Some (Inl h, w') \<and>
     3 \<le> clock w' \<and> tfailed w'"
proof -
  let ?r = "WaitUntilSucceeds demo_machine ''true'' [WithRetryTimeout 3, WithRetryInterval 1] demo_world"
  have "(case ?r of Some (Inl h, w') \<Rightarrow> True | _ \<Rightarrow> False)" by code_simp
  then obtain h w' where r: "?r = Some (Inl h, w')" by (auto split: option.splits sum.splits)
  have "timeout (applyRetryOpts [WithRetryTimeout 3, WithRetryInterval 1]) = 3" "clock demo_world = 0" by code_simp+
  with r WaitUntilSucceeds_waits [OF r] show ?thesis by simp
qed

text \<open>(C21) The number of times \<open>WaitUntilSucceeds\<close> runs the command is bounded by the timeout over the
  interval, rounded up: all runs but the last are followed by a sleep that ends before the deadline.\<close>

theorem WaitUntilSucceeds_attempts:
  assumes "WaitUntilSucceeds m cmd opts w = Some (r, w')"
  shows "rpcs w' = rpcs w \<or>
    rpcs w < rpcs w' \<and> int (rpcs w' - rpcs w - 1) * max 0 (interval (applyRetryOpts opts)) < timeout (applyRetryOpts opts)"
  using assms
proof (cases rule: WaitUntilSucceeds_cases)
  case (success out)
  from until_succeeds.poll_rpcs [OF success(2)] show ?thesis by simp
next
  case (timeout h l w1)
  from until_succeeds.poll_rpcs [OF timeout(2)] timeout(4) show ?thesis by simp
qed

theorem WaitUntilSucceeds_attempts_witness:
  "\<exists>r w'. WaitUntilSucceeds demo_machine ''true'' [WithRetryTimeout 10, WithRetryInterval 2] demo_world = Some (r, w') \<and>
     int (rpcs w' - rpcs demo_world - 1) * 2 < 10"
proof -
  let ?r = "WaitUntilSucceeds demo_machine ''true'' [WithRetryTimeout 10, WithRetryInterval 2] demo_world"
  have "(case ?r of Some (r, w') \<Rightarrow> True | _ \<Rightarrow> False)" by code_simp
  then obtain r w' where r: "?r = Some (r, w')" by (auto split: option.splits)
  have "max 0 (interval (applyRetryOpts [WithRetryTimeout 10, WithRetryInterval 2])) = 2"
    "timeout (applyRetryOpts [WithRetryTimeout 10, WithRetryInterval 2]) = 10" by code_simp+
  with WaitUntilSucceeds_attempts [OF r] have "int (rpcs w' - rpcs demo_world - 1) * 2 < 10" by auto
  with r show ?thesis by blast
qed

lemma poll_or_fatal_Some:
  "poll_or_fatal rc body f as w = Some (r, w') \<longleftrightarrow>
     poll (clock w + timeout rc) (interval rc) body () w = Some (Inl r, w') \<or>
     (\<exists>w1. poll (clock w + timeout rc) (interval rc) body () w = Some (Inr (), w1) \<and> (r, w') = fatal f as w1)"
  by (auto simp: poll_or_fatal_def Let_def split: sum.splits option.splits)

text \<open>(C23) What \<open>WaitForUnit\<close> does, exactly: it succeeds at the first attempt before the deadline that
  sees the unit active; it fails at once, without waiting out the timeout, at the first that sees it failed;
  and it times out when the attempts before the deadline see neither.\<close>

theorem WaitForUnit_outcome:
  "WaitForUnit m unit opts w = Some (r, w') \<longleftrightarrow>
    (let deadline = clock w + timeout (applyRetryOpts opts); undecided = rounds deadline (interval (applyRetryOpts opts)) (unit_body m unit) in
      (\<exists>n w1 resp w2. undecided n () w () w1 \<and> clock w1 < deadline \<and> call (agent_UnitStatus (m_agent m) unit) w1 = (Inr resp, w2) \<and>
          (ActiveState resp = ''active'' \<and> (r, w') = (Inr (), w2) \<or>
           ActiveState resp = ''failed'' \<and>
             (r, w') = fatal ''WaitForUnit(%q): unit is in 'failed' state (sub: %s)'' [AStr unit, AStr (SubState resp)] w2)) \<or>
      (\<exists>n w1. undecided n () w () w1 \<and> deadline \<le> clock w1 \<and>
          (r, w') = fatal ''WaitForUnit(%q): timed out after %s'' [AStr unit, ADur (timeout (applyRetryOpts opts))] w1))"
proof -
  define deadline where "deadline = clock w + timeout (applyRetryOpts opts)"
  have b: "unit_body m unit () w1 = (Inl r, w') \<longleftrightarrow>
      (\<exists>resp w2. call (agent_UnitStatus (m_agent m) unit) w1 = (Inr resp, w2) \<and>
        (ActiveState resp = ''active'' \<and> (r, w') = (Inr (), w2) \<or>
         ActiveState resp = ''failed'' \<and>
           (r, w') = fatal ''WaitForUnit(%q): unit is in 'failed' state (sub: %s)'' [AStr unit, AStr (SubState resp)] w2))" for w1
    by (cases "call (agent_UnitStatus (m_agent m) unit) w1"; cases "fst (call (agent_UnitStatus (m_agent m) unit) w1)")
      (auto simp: unit_body_def fatal_def split: if_splits)
  show ?thesis
    unfolding WaitForUnit_def Let_def poll_or_fatal_Some deadline_def [symmetric]
    by (simp add: poll_iff poll_result_def b) blast
qed

theorem WaitForUnit_outcome_witness:
  "\<exists>w'. WaitForUnit demo_machine ''bad'' [] demo_world =
     Some (Inl (Fatalf ''WaitForUnit(%q): unit is in 'failed' state (sub: %s)'' [AStr ''bad'', AStr ''dead'']), w') \<and> clock w' = 1"
proof -
  let ?c = "call (agent_UnitStatus (m_agent demo_machine) ''bad'') demo_world"
  let ?f = "Fatalf ''WaitForUnit(%q): unit is in 'failed' state (sub: %s)'' [AStr ''bad'', AStr ''dead'']"
  obtain resp w2 where c: "?c = (Inr resp, w2)" "ActiveState resp = ''failed''" "SubState resp = ''dead''" "clock w2 = 1"
  proof -
    have "case ?c of (Inr resp, w2) \<Rightarrow> ActiveState resp = ''failed'' \<and> SubState resp = ''dead'' \<and> clock w2 = 1 | _ \<Rightarrow> False" by code_simp
    then show thesis using that by (auto split: prod.splits sum.splits)
  qed
  have "clock demo_world < clock demo_world + timeout (applyRetryOpts [])" by code_simp
  then have "WaitForUnit demo_machine ''bad'' [] demo_world =
      Some (fatal ''WaitForUnit(%q): unit is in 'failed' state (sub: %s)'' [AStr ''bad'', AStr ''dead''] w2)"
    by (subst surjective_pairing, subst WaitForUnit_outcome)
      (use c in \<open>auto simp: Let_def intro!: exI [of _ "0::nat"] exI [of _ demo_world] rounds.intros\<close>)
  then show ?thesis using c(4) by (simp add: fatal_def)
qed

lemma file_body_Inl: "file_body m path l w = (Inl r, w') \<Longrightarrow> r = Inr ()"
  by (cases "call (agent_Stat (m_agent m) path) w") (auto simp: file_body_def split: sum.splits if_splits)

text \<open>(C22) If the file exists for good from time \<open>T\<close> on, \<open>WaitForFile\<close> does not time out as long as one
  call of at most \<open>D\<close>, one interval and one oversleep of at most \<open>L\<close> fit between \<open>T\<close> and the
  deadline.\<close>

theorem WaitForFile_no_spurious_timeout:
  assumes holds: "\<forall>t g. T \<le> t \<longrightarrow> (\<exists>resp d g'. agent_Stat (m_agent m) path t g = (Inr resp, d, g') \<and> Exists resp)"
    and quick: "\<forall>t g r d g'. agent_Stat (m_agent m) path t g = (r, d, g') \<longrightarrow> int d \<le> D"
    and lag: "\<forall>x \<in> set (delays w). int x \<le> L" "0 \<le> L"
    and rc: "0 < interval (applyRetryOpts opts)" "0 < timeout (applyRetryOpts opts)"
    and fits: "T + D + interval (applyRetryOpts opts) + L \<le> clock w + timeout (applyRetryOpts opts)"
  shows "\<exists>w'. WaitForFile m path opts w = Some (Inr (), w')"
proof -
  let ?i = "interval (applyRetryOpts opts)"
  have round: "clock (Sleep ?i w') \<le> clock w1 + (D + ?i + L)" "\<forall>x \<in> set (delays (Sleep ?i w')). int x \<le> L"
    if "\<forall>x \<in> set (delays w1). int x \<le> L" and b: "file_body m path l w1 = (Inr l', w')" for l w1 l' w'
  proof -
    from b obtain r where c: "call (agent_Stat (m_agent m) path) w1 = (r, w')"
      by (auto simp: file_body_def split: prod.splits sum.splits if_splits)
    obtain x d g' where "agent_Stat (m_agent m) path (clock w1) (guest w1) = (x, d, g')" by (cases "agent_Stat (m_agent m) path (clock w1) (guest w1)") auto
    moreover from this have "int d \<le> D" using quick by blast
    ultimately have "clock w' \<le> clock w1 + D" using c by (auto simp: call_def extern_def)
    moreover have "delays w' = delays w1" using call_fields(2) [OF c] .
    ultimately show "clock (Sleep ?i w') \<le> clock w1 + (D + ?i + L)" "\<forall>x \<in> set (delays (Sleep ?i w')). int x \<le> L"
      using that(1) rc(1) lag(2) by (auto simp: Sleep_def split: list.splits)
  qed
  have "\<exists>r w'. file_body m path l w1 = (Inl r, w')" if late: "T \<le> clock w1" for l w1
  proof -
    obtain resp d g' where "agent_Stat (m_agent m) path (clock w1) (guest w1) = (Inr resp, d, g')" "Exists resp"
      using holds late by blast
    then show ?thesis by (simp add: file_body_def call_def extern_def)
  qed
  then have "\<exists>r w'. poll (clock w + timeout (applyRetryOpts opts)) ?i (file_body m path) () w = Some (Inl r, w')"
    using rc fits lag round
    by (intro file_poll.poll_catches [where T = T and S = "D + ?i + L" and I = "\<lambda>w. \<forall>x \<in> set (delays w). int x \<le> L"]) auto
  then obtain r w' where p: "poll (clock w + timeout (applyRetryOpts opts)) ?i (file_body m path) () w = Some (Inl r, w')"
    by blast
  then have "r = Inr ()" by (auto simp: poll_iff poll_result_def dest: file_body_Inl)
  with p show ?thesis by (auto simp: WaitForFile_def Let_def poll_or_fatal_Some)
qed

theorem WaitForFile_no_spurious_timeout_witness:
  "\<exists>w'. WaitForFile demo_machine ''/run/app.pid'' [WithRetryTimeout 10, WithRetryInterval 2] (demo_world\<lparr>delays := [1, 0, 1]\<rparr>)
          = Some (Inr (), w')"
  by (rule WaitForFile_no_spurious_timeout [where T = 5 and D = 1 and L = 1])
    (auto simp: demo_machine_def demo_agent_def demo_world_def applyRetryOpts_def WithRetryTimeout_def
      WithRetryInterval_def default_retry_def)

section \<open>Assertions on commands\<close>

lemma Succeed_iff: "(\<exists>w'. Succeed m cmd w = (Inr out, w')) \<longleftrightarrow> (\<exists>err. fst (Execute m cmd w) = (out, err, 0, None))"
  by (cases "Execute m cmd w") (auto simp: Succeed_def fatal_def split: prod.splits option.splits)

lemma Fail_iff: "(\<exists>w'. Fail m cmd w = (Inr (), w')) \<longleftrightarrow> (\<exists>out err c. fst (Execute m cmd w) = (out, err, c, None) \<and> c \<noteq> 0)"
  by (cases "Execute m cmd w") (auto simp: Fail_def fatal_def split: prod.splits option.splits)

text \<open>On the same guest state \<open>Succeed\<close> and \<open>Fail\<close> never both pass, and both fail the test exactly
  when the command could not be run: an RPC error is never taken for a failing command.\<close>

theorem Succeed_Fail_exclusive:
  "\<not> (\<not> isl (fst (Succeed m cmd w)) \<and> \<not> isl (fst (Fail m cmd w))) \<and>
   (isl (fst (Succeed m cmd w)) \<and> isl (fst (Fail m cmd w)) \<longleftrightarrow>
      (\<exists>out err c e. fst (Execute m cmd w) = (out, err, c, Some e)))"
  by (cases "Execute m cmd w") (auto simp: Succeed_def Fail_def fatal_def split: prod.splits option.splits)

section \<open>Links and their addresses\<close>

lemma collect_addrs_eq: "collect_addrs name as acc = acc @ map Address (filter (\<lambda>a. AddrInterface a = name) as)"
  by (induction as arbitrary: acc) auto

lemma collect_links_eq:
  "collect_links ls addrs acc = acc @ map (\<lambda>l. \<lparr>Name = LinkName l, LState = LinkState l, MTU = LinkMTU l,
     Addrs = map Address (filter (\<lambda>a. AddrInterface a = LinkName l) addrs)\<rparr>) ls"
  by (induction ls arbitrary: acc) (auto simp: collect_addrs_eq)

text \<open>(C38) \<open>NetworkLinks\<close> lists the guest's links in the order reported, each with exactly the addresses
  reported for that interface, in their order; an address whose interface is listed is found
  under it.\<close>

theorem NetworkLinks_addresses:
  assumes "call (agent_NetworkInfo (m_agent m) []) w = (Inr resp, w')"
  shows "\<exists>links. NetworkLinks m w = (Inr links, w') \<and>
     map Name links = map LinkName (LinkTable resp) \<and>
     (\<forall>k \<in> set links. Addrs k = map Address (filter (\<lambda>a. AddrInterface a = Name k) (AddrTable resp)))"
  using assms by (auto simp: NetworkLinks_def request_def collect_links_eq)


theorem NetworkLinks_addresses_witness:
  "\<exists>links w'. NetworkLinks (demo_machine\<lparr>m_agent := demo_agent\<lparr>agent_NetworkInfo := \<lambda>i t g.
       (Inr \<lparr>AddrTable = [\<lparr>Address = ''10.0.2.15'', AddrInterface = ''eth0''\<rparr>], RouteTable = [],
             LinkTable = [\<lparr>LinkName = ''lo'', LinkState = ''UNKNOWN'', LinkMTU = 65536\<rparr>,
                          \<lparr>LinkName = ''eth0'', LinkState = ''UP'', LinkMTU = 1500\<rparr>]\<rparr>, 0, g)\<rparr>\<rparr>) demo_world
     = (Inr links, w') \<and> map Name links = [''lo'', ''eth0'']"
proof -
  define m where "m = demo_machine\<lparr>m_agent := demo_agent\<lparr>agent_NetworkInfo := \<lambda>i t g.
       (Inr \<lparr>AddrTable = [\<lparr>Address = ''10.0.2.15'', AddrInterface = ''eth0''\<rparr>], RouteTable = [],
             LinkTable = [\<lparr>LinkName = ''lo'', LinkState = ''UNKNOWN'', LinkMTU = 65536\<rparr>,
                          \<lparr>LinkName = ''eth0'', LinkState = ''UP'', LinkMTU = 1500\<rparr>]\<rparr>, 0, g)\<rparr>\<rparr>"
  obtain w' where c: "call (agent_NetworkInfo (m_agent m) []) demo_world =
      (Inr \<lparr>AddrTable = [\<lparr>Address = ''10.0.2.15'', AddrInterface = ''eth0''\<rparr>], RouteTable = [],
             LinkTable = [\<lparr>LinkName = ''lo'', LinkState = ''UNKNOWN'', LinkMTU = 65536\<rparr>,
                          \<lparr>LinkName = ''eth0'', LinkState = ''UP'', LinkMTU = 1500\<rparr>]\<rparr>, w')"
    by (simp add: m_def call_def extern_def)
  from NetworkLinks_addresses [OF c] show ?thesis unfolding m_def by auto
qed

end
