(* ===== verification/MachineLife.thy ===== *)
theory MachineLife
  imports MachineOps
begin

text \<open>
  The life of a \<open>Machine\<close> within a test, \<open>machine/machine.go\<close>: \<open>New\<close> boots the VM and connects the
  agent, \<open>t.Cleanup\<close> stacks what has to happen at the end, \<open>DumpOnFailure\<close> collects diagnostics
  when the test failed. \<open>finish_test\<close> is what the \<open>testing\<close> package does when the test function has
  ended: it runs the registered cleanups, the last one registered first, and goes on with the
  rest when one of them panics.
\<close>

section \<open>Definitions\<close>

definition halted :: "halt \<Rightarrow> 'g world \<Rightarrow> (halt + 'a) \<times> 'g world" where
  "halted h w = (case h of Fatalf f as \<Rightarrow> fatal f as w | Panic f as \<Rightarrow> (Inl (Panic f as), w))"

definition Kill :: "'g VM \<Rightarrow> 'g world \<Rightarrow> 'g world" where
  "Kill v w = emit (TLife VMKilled) (extern_unit (vm_Kill v) w)"

definition Close :: "'g agent \<Rightarrow> 'g world \<Rightarrow> 'g world" where
  "Close a w = emit (TLife AgentClosed) (extern_unit (agent_Close a) w)"

text \<open>\<open>Start\<close> is \<open>vm.Start\<close>, \<open>ConnectAgent\<close> is \<open>vm.ConnectAgent\<close> with its context as a timeout.\<close>

definition New ::
  "(string \<Rightarrow> string) \<Rightarrow> (vm_option list \<Rightarrow> ('g, 'g VM) rpc) \<Rightarrow> (int \<Rightarrow> string \<Rightarrow> ('g, 'g agent) rpc)
     \<Rightarrow> 'g machine_option list \<Rightarrow> 'g world \<Rightarrow> (halt + 'g Machine) \<times> 'g world" where
  "New env Start ConnectAgent opts w =
     (case applyOptions opts \<lparr>vmOpts = []\<rparr> (guest w) of
        (Inl h, g) \<Rightarrow> halted h (w\<lparr>guest := g\<rparr>)
      | (Inr mc, g) \<Rightarrow>
          let w = w\<lparr>guest := g\<rparr> in
          case buildVMOptsFromEnv env of
            Inl h \<Rightarrow> halted h w
          | Inr vmo \<Rightarrow>
              let vmo = vmo @ [vm_WithAgent, vm_WithSerialCapture, vm_WithQMP];
                  vmo = vmo @ vmOpts mc
              in case extern (Start vmo) w of
                   (Inl err, w) \<Rightarrow> fatal ''machine.New: failed to start VM: %v'' [AErr err] w
                 | (Inr v, w) \<Rightarrow>
                     let w = emit (TLife VMStarted) w;
                         logDone = (vm_Serial v \<noteq> None)
                     in case extern (ConnectAgent (120 * second) (vm_AgentSocketPath v)) w of
                          (Inl err, w) \<Rightarrow> fatal ''machine.New: failed to connect agent: %v'' [AErr err] (Kill v w)
                        | (Inr agt, w) \<Rightarrow>
                            let w = emit (TLife AgentConnected) w;
                                m = \<lparr>m_vm = Some v, m_agent = agt\<rparr>
                            in (Inr m, Cleanup (CleanupNew m logDone) w))"

definition close_machine :: "'g Machine \<Rightarrow> bool \<Rightarrow> 'g world \<Rightarrow> (halt + unit) \<times> 'g world" where
  "close_machine m logDone w =
     (let w = Close (m_agent m) w in
      case m_vm m of
        None \<Rightarrow> (Inl (Panic ''nil pointer dereference'' []), w)
      | Some v \<Rightarrow>
          let w = Kill v w in
          (Inr (), if logDone then emit (TLife LogDrained) w else w))"

text \<open>\<open>DumpOnFailure\<close> and what its cleanup does. \<open>strings.Join(lines, "\n")\<close> is \<open>Join\<close> on a newline.\<close>

definition DumpOnFailure :: "'g Machine \<Rightarrow> DumpOption list \<Rightarrow> 'g world \<Rightarrow> 'g world" where
  "DumpOnFailure m opts w = Cleanup (CleanupDump m (applyDumpOpts opts)) w"

abbreviation newline :: char where "newline \<equiv> CHR 0x0A"

fun dump_units :: "'g Machine \<Rightarrow> string list \<Rightarrow> 'g world \<Rightarrow> 'g world" where
  "dump_units m [] w = w"
| "dump_units m (unit # units) w =
     (case call (agent_JournalLines (m_agent m) unit 100 []) w of
        (Inl err, w') \<Rightarrow> dump_units m units w'
      | (Inr ls, w') \<Rightarrow> dump_units m units (Logf ''[journal:%s]\<newline>%s'' [AStr unit, AStr (Join newline ls)] w'))"

fun log_procs :: "ProcessEntry list \<Rightarrow> 'g world \<Rightarrow> 'g world" where
  "log_procs [] w = w"
| "log_procs (p # ps) w =
     log_procs ps (Logf ''[process:%d] %s (state=%s uid=%d)''
       [AInt (EntryPID p), AStr (EntryCmdline p), AStr (EntryState p), AInt (EntryUID p)] w)"

fun dump_files :: "'g Machine \<Rightarrow> string list \<Rightarrow> 'g world \<Rightarrow> 'g world" where
  "dump_files m [] w = w"
| "dump_files m (glob # globs) w =
     (case call (agent_ReadFile (m_agent m) glob) w of
        (Inl err, w') \<Rightarrow> dump_files m globs w'
      | (Inr data, w') \<Rightarrow> dump_files m globs (Logf ''[file:%s]\<newline>%s'' [AStr glob, AStr data] w'))"

definition dmesg_cmd :: "string list \<Rightarrow> string" where
  "dmesg_cmd filters =
     (if filters \<noteq> [] then ''dmesg --color=never | grep -E '' @ shellQuote (Join (CHR ''|'') filters)
      else ''dmesg --color=never'')"

definition dumpDmesg :: "'g Machine \<Rightarrow> string list \<Rightarrow> 'g world \<Rightarrow> 'g world" where
  "dumpDmesg m filters w =
     (let ((stdout, _, _, err), w') = Execute m (dmesg_cmd filters) w in
      if err = None then Logf ''[dmesg]\<newline>%s'' [AStr stdout] w' else w')"

text \<open>\<open>strings.Fields(line)[0]\<close> is out of range on a line of white space only: a run-time panic.\<close>

fun dump_failed_lines :: "'g Machine \<Rightarrow> string list \<Rightarrow> 'g world \<Rightarrow> (halt + unit) \<times> 'g world" where
  "dump_failed_lines m [] w = (Inr (), w)"
| "dump_failed_lines m (line # rest) w =
     (if line = [] then dump_failed_lines m rest w
      else case Fields line of
        [] \<Rightarrow> (Inl (Panic ''index out of range [0] with length 0'' []), w)
      | unit # _ \<Rightarrow>
          (case call (agent_JournalLines (m_agent m) unit 50 []) w of
             (Inl jErr, w') \<Rightarrow> dump_failed_lines m rest w'
           | (Inr ls, w') \<Rightarrow>
               dump_failed_lines m rest (Logf ''[failed-unit:%s]\<newline>%s'' [AStr unit, AStr (Join newline ls)] w')))"

definition dumpFailedUnits :: "'g Machine \<Rightarrow> 'g world \<Rightarrow> (halt + unit) \<times> 'g world" where
  "dumpFailedUnits m w =
     (let ((stdout, _, _, err), w') = Execute m ''systemctl --failed --no-legend --no-pager --plain'' w in
      if err \<noteq> None then (Inr (), w')
      else dump_failed_lines m (Split newline (TrimSpace stdout)) w')"

definition dump_cleanup :: "'g Machine \<Rightarrow> dumpConfig \<Rightarrow> 'g world \<Rightarrow> (halt + unit) \<times> 'g world" where
  "dump_cleanup m dc w =
     (if \<not> tfailed w then (Inr (), w)
      else
        let w = Logf ''=== DumpOnFailure: collecting diagnostics ==='' [] w in
        if \<not> hasOptions dc then
          (case dumpFailedUnits m w of
             (Inl h, w') \<Rightarrow> (Inl h, w')
           | (Inr _, w') \<Rightarrow> (Inr (), dumpDmesg m [] w'))
        else
          let w = (if journalUnits dc \<noteq> [] then dump_units m (journalUnits dc) w else w);
              w = (case dmesgFilters dc of None \<Rightarrow> w | Some fs \<Rightarrow> dumpDmesg m fs w);
              w = (if processGlob dc \<noteq> [] then
                     (case call (agent_FindProcesses (m_agent m) (processGlob dc)) w of
                        (Inl err, w') \<Rightarrow> w'
                      | (Inr procs, w') \<Rightarrow> log_procs procs w')
                   else w)
          in (Inr (), dump_files m (fileGlobs dc) w))"

fun run_cleanup :: "'g cleanup \<Rightarrow> 'g world \<Rightarrow> (halt + unit) \<times> 'g world" where
  "run_cleanup (CleanupNew m logDone) w = close_machine m logDone w"
| "run_cleanup (CleanupDump m dc) w = dump_cleanup m dc w"

fun run_cleanups :: "'g cleanup list \<Rightarrow> 'g world \<Rightarrow> 'g world" where
  "run_cleanups [] w = w"
| "run_cleanups (c # cs) w = run_cleanups cs (snd (run_cleanup c w))"

definition finish_test :: "'g world \<Rightarrow> 'g world" where
  "finish_test w = run_cleanups (cleanups w) (w\<lparr>cleanups := []\<rparr>)"

section \<open>Steady operations\<close>

fun lifecycle_of :: "tevent list \<Rightarrow> lifecycle list" where
  "lifecycle_of [] = []"
| "lifecycle_of (TLife l # es) = l # lifecycle_of es"
| "lifecycle_of (_ # es) = lifecycle_of es"

lemma lifecycle_of_append [simp]: "lifecycle_of (xs @ ys) = lifecycle_of xs @ lifecycle_of ys"
  by (induction xs rule: lifecycle_of.induct) auto

fun is_dump :: "'g cleanup \<Rightarrow> bool" where
  "is_dump (CleanupDump m dc) = True"
| "is_dump (CleanupNew m b) = False"

text \<open>An operation on a running machine is steady: it leaves the life cycle of the VM alone, and the
  only cleanups it registers are dumps.\<close>

definition steady :: "'g world \<Rightarrow> 'g world \<Rightarrow> bool" where
  "steady w w' \<longleftrightarrow> lifecycle_of (tevents w') = lifecycle_of (tevents w) \<and>
     (\<exists>ds. cleanups w' = ds @ cleanups w \<and> list_all is_dump ds)"

lemma steady_refl [simp]: "steady w w"
  by (simp add: steady_def)

lemma steady_trans [trans]: "steady w1 w2 \<Longrightarrow> steady w2 w3 \<Longrightarrow> steady w1 w3"
  unfolding steady_def by (metis append.assoc list_all_append)

lemma steady_same:
  "cleanups w' = cleanups w \<Longrightarrow> lifecycle_of (tevents w') = lifecycle_of (tevents w) \<Longrightarrow> steady w w'"
  by (simp add: steady_def)

lemma steady_call: "call f w = (r, w') \<Longrightarrow> steady w w'"
  by (rule steady_same) (simp_all add: call_fields)

lemma steady_extern: "extern f w = (r, w') \<Longrightarrow> steady w w'"
  by (rule steady_same) (simp_all add: extern_fields)

lemma steady_Logf: "steady w (Logf f as w)"
  by (rule steady_same) simp_all

lemma steady_Sleep: "steady w (Sleep d w)"
  by (rule steady_same) simp_all

lemma steady_fatal: "fatal f as w = (r, w') \<Longrightarrow> steady w w'"
  by (rule steady_same) (auto simp: fatal_eq)

lemma steady_call_Logf: "call f w = (r, w') \<Longrightarrow> steady w (Logf g as w')"
  using steady_call steady_Logf steady_trans by metis

lemma steady_call_fatal: "call f w = (r, w1) \<Longrightarrow> fatal g as w1 = (x, w') \<Longrightarrow> steady w w'"
  using steady_call steady_fatal steady_trans by metis

lemma steady_Execute: "Execute m cmd w = (r, w') \<Longrightarrow> steady w w'"
  by (auto simp: Execute_def ExecuteWithTimeout_def intro: steady_call split: prod.splits sum.splits)

lemma steady_Execute_fatal: "Execute m cmd w = (r, w1) \<Longrightarrow> fatal g as w1 = (x, w') \<Longrightarrow> steady w w'"
  using steady_Execute steady_fatal steady_trans by metis

lemmas steady_steps = steady_call steady_extern steady_fatal steady_call_fatal steady_Execute steady_Execute_fatal

text \<open>A polling loop whose body is steady is steady.\<close>

locale steady_body =
  fixes body :: "('g, 'r, 'l) body"
  assumes body_steady: "body l w = (x, w') \<Longrightarrow> steady w w'"
begin

lemma rounds_steady: "rounds deadline i body n l w l2 w2 \<Longrightarrow> steady w w2"
proof (induction rule: rounds.induct)
  case (rounds_Suc w l l1 w1 n l2 w2)
  have "steady w w1" using rounds_Suc.hyps(2) by (rule body_steady)
  also have "steady w1 (Sleep i w1)" by (rule steady_Sleep)
  also have "steady (Sleep i w1) w2" by (rule rounds_Suc.IH)
  finally show ?case .
qed simp

lemma poll_steady: "poll deadline i body l w = Some (x, w') \<Longrightarrow> steady w w'"
  by (cases x) (auto simp: poll_iff poll_result_def intro: rounds_steady steady_trans [OF rounds_steady body_steady])

end

interpretation until_steady: steady_body "until_succeeds_body m cmd matches" for m cmd matches
  by unfold_locales (auto simp: until_succeeds_body_def intro: steady_steps split: prod.splits if_splits)

interpretation unit_steady: steady_body "unit_body m unit" for m unit
  by unfold_locales (auto simp: unit_body_def intro: steady_steps split: prod.splits sum.splits if_splits)

interpretation port_steady: steady_body "port_body m port want" for m port want
  by unfold_locales (auto simp: port_body_def intro: steady_steps split: prod.splits sum.splits if_splits)

interpretation file_steady: steady_body "file_body m path" for m path
  by unfold_locales (auto simp: file_body_def intro: steady_steps split: prod.splits sum.splits if_splits)

interpretation http_steady: steady_body "http_body m url hc" for m url hc
  by unfold_locales (auto simp: http_body_def intro: steady_steps split: prod.splits sum.splits if_splits)

interpretation log_steady: steady_body "log_body m unit re" for m unit re
  by unfold_locales (auto simp: log_body_def intro: steady_steps split: prod.splits sum.splits option.splits)

lemma steady_poll_or_fatal:
  assumes "steady_body body" and "poll_or_fatal rc body f as w = Some (r, w')"
  shows "steady w w'"
  using assms(2) unfolding poll_or_fatal_Some
proof (elim disjE exE conjE)
  fix w1
  assume p: "poll (clock w + timeout rc) (interval rc) body () w = Some (Inr (), w1)" and "(r, w') = fatal f as w1"
  then have "steady w w1" "steady w1 w'" using steady_body.poll_steady [OF assms(1) p] steady_fatal by metis+
  then show ?thesis by (rule steady_trans)
qed (rule steady_body.poll_steady [OF assms(1)])

lemma steady_request:
  assumes "request f fmt as k w = (r, w')" and "\<And>x w1 r w2. k x w1 = (r, w2) \<Longrightarrow> steady w1 w2"
  shows "steady w w'"
  using assms steady_call [of f w] steady_trans
  by (fastforce simp: request_def intro: steady_call_fatal split: prod.splits sum.splits)

section \<open>A test as a run of operations\<close>

text \<open>One step of a test that holds the machine: any of its operations, with any arguments, or
  registering a dump.\<close>

inductive test_step :: "'g Machine \<Rightarrow> 'g world \<Rightarrow> 'g world \<Rightarrow> bool" for m where
  "Execute m cmd w = (r1, w') \<Longrightarrow> test_step m w w'"
| "Succeed m cmd w = (r2, w') \<Longrightarrow> test_step m w w'"
| "Fail m cmd w = (r3, w') \<Longrightarrow> test_step m w w'"
| "Background m argv w = (r4, w') \<Longrightarrow> test_step m w w'"
| "WaitUntilSucceeds m cmd opts w = Some (r5, w') \<Longrightarrow> test_step m w w'"
| "WaitUntilOutput m cmd matches opts w = Some (r6, w') \<Longrightarrow> test_step m w w'"
| "WaitForUnit m unit opts w = Some (r7, w') \<Longrightarrow> test_step m w w'"
| "WaitForOpenPort m port opts w = Some (r8, w') \<Longrightarrow> test_step m w w'"
| "WaitForClosedPort m port opts w = Some (r9, w') \<Longrightarrow> test_step m w w'"
| "WaitForFile m path opts w = Some (r10, w') \<Longrightarrow> test_step m w w'"
| "WaitForHTTP m url hopts w = Some (r11, w') \<Longrightarrow> test_step m w w'"
| "WaitForLog compile m unit pattern opts w = Some (r12, w') \<Longrightarrow> test_step m w w'"
| "CopyFromHost host m hp gp w = (r13, w') \<Longrightarrow> test_step m w w'"
| "Listen m port w = (r14, w') \<Longrightarrow> test_step m w w'"
| "Shutdown m w = (r15, w') \<Longrightarrow> test_step m w w'"
| "ReadFile m path w = (r16, w') \<Longrightarrow> test_step m w w'"
| "FileHash m path algo w = (r17, w') \<Longrightarrow> test_step m w w'"
| "FileSize m path w = (r18, w') \<Longrightarrow> test_step m w w'"
| "HTTPGet m url w = (r19, w') \<Longrightarrow> test_step m w w'"
| "JournalLines m unit jopts w = (r20, w') \<Longrightarrow> test_step m w w'"
| "FindProcesses m pattern w = (r21, w') \<Longrightarrow> test_step m w w'"
| "NetworkAddrs m iface w = (r22, w') \<Longrightarrow> test_step m w w'"
| "NetworkRoutes m w = (r23, w') \<Longrightarrow> test_step m w w'"
| "NetworkLinks m w = (r24, w') \<Longrightarrow> test_step m w w'"
| "test_step m w (DumpOnFailure m dopts w)"

inductive test_run :: "'g Machine \<Rightarrow> 'g world \<Rightarrow> 'g world \<Rightarrow> bool" for m where
  test_start: "test_run m w w"
| test_more: "test_run m w w1 \<Longrightarrow> test_step m w1 w2 \<Longrightarrow> test_run m w w2"

lemma steady_commands:
  "Succeed m cmd w = (r, w') \<Longrightarrow> steady w w'"
  "Fail m cmd w = (r', w') \<Longrightarrow> steady w w'"
  "Background m argv w = (r', w') \<Longrightarrow> steady w w'"
  "Shutdown m w = (r', w') \<Longrightarrow> steady w w'"
  by (auto simp: Succeed_def Fail_def Background_def Shutdown_def
      intro: steady_steps steady_trans [OF steady_extern steady_fatal] split: prod.splits option.splits sum.splits if_splits)

lemma steady_waits:
  "WaitUntilSucceeds m cmd opts w = Some (r, w') \<Longrightarrow> steady w w'"
  "WaitUntilOutput m cmd matches opts w = Some (r, w') \<Longrightarrow> steady w w'"
  by (auto simp: WaitUntilSucceeds_def WaitUntilOutput_def Let_def
      intro: until_steady.poll_steady steady_trans [OF until_steady.poll_steady steady_fatal]
      split: prod.splits option.splits sum.splits)

lemma steady_unit_waits:
  "WaitForUnit m unit opts w = Some (r, w') \<Longrightarrow> steady w w'"
  "WaitForOpenPort m port opts w = Some (r, w') \<Longrightarrow> steady w w'"
  "WaitForClosedPort m port opts w = Some (r, w') \<Longrightarrow> steady w w'"
  "WaitForFile m path opts w = Some (r, w') \<Longrightarrow> steady w w'"
  "WaitForHTTP m url hopts w = Some (r', w') \<Longrightarrow> steady w w'"
  "WaitForLog compile m unit pattern opts w = Some (r'', w') \<Longrightarrow> steady w w'"
  by (auto simp: WaitForUnit_def WaitForOpenPort_def WaitForClosedPort_def WaitForFile_def WaitForHTTP_def
      WaitForLog_def Let_def intro: steady_poll_or_fatal unit_steady.steady_body_axioms
      port_steady.steady_body_axioms file_steady.steady_body_axioms http_steady.steady_body_axioms
      log_steady.steady_body_axioms split: prod.splits sum.splits)

lemma steady_requests:
  "CopyFromHost host m hp gp w = (r, w') \<Longrightarrow> steady w w'"
  "Listen m port w = (r, w') \<Longrightarrow> steady w w'"
  "ReadFile m path w = (s, w') \<Longrightarrow> steady w w'"
  "FileHash m path algo w = (s, w') \<Longrightarrow> steady w w'"
  "FileSize m path w = (n, w') \<Longrightarrow> steady w w'"
  "HTTPGet m url w = (h, w') \<Longrightarrow> steady w w'"
  "JournalLines m unit jopts w = (ss, w') \<Longrightarrow> steady w w'"
  "FindProcesses m pattern w = (ps, w') \<Longrightarrow> steady w w'"
  "NetworkAddrs m iface w = (ss, w') \<Longrightarrow> steady w w'"
  "NetworkRoutes m w = (rs, w') \<Longrightarrow> steady w w'"
  "NetworkLinks m w = (ls, w') \<Longrightarrow> steady w w'"
  by (auto simp: CopyFromHost_def Listen_def ReadFile_def FileHash_def FileSize_def HTTPGet_def JournalLines_def
      FindProcesses_def NetworkAddrs_def NetworkRoutes_def NetworkLinks_def Let_def
      elim!: steady_request intro: steady_fatal split: sum.splits if_splits)

lemma steady_DumpOnFailure: "steady w (DumpOnFailure m dopts w)"
  by (simp add: steady_def DumpOnFailure_def Cleanup_def)

lemma test_step_steady: "test_step m w w' \<Longrightarrow> steady w w'"
  by (erule test_step.cases)
    (auto intro: steady_Execute steady_commands steady_waits steady_unit_waits steady_requests steady_DumpOnFailure)

lemma test_run_steady: "test_run m w w' \<Longrightarrow> steady w w'"
  by (induction rule: test_run.induct) (auto intro: steady_trans test_step_steady)

section \<open>Dumping\<close>

lemma steady_dump_units: "steady w (dump_units m units w)"
  by (induction m units w rule: dump_units.induct)
    (auto split: prod.splits sum.splits intro: steady_trans [OF steady_call] steady_trans [OF steady_call_Logf])

lemma steady_dump_files: "steady w (dump_files m globs w)"
  by (induction m globs w rule: dump_files.induct)
    (auto split: prod.splits sum.splits intro: steady_trans [OF steady_call] steady_trans [OF steady_call_Logf])

lemma steady_log_procs: "steady w (log_procs ps w)"
  by (induction ps w rule: log_procs.induct) (auto intro: steady_trans [OF steady_Logf])

lemma steady_dumpDmesg: "steady w (dumpDmesg m fs w)"
  by (auto simp: dumpDmesg_def split: prod.splits intro: steady_Execute steady_trans [OF steady_Execute steady_Logf])

lemma steady_dump_failed_lines: "dump_failed_lines m ls w = (r, w') \<Longrightarrow> steady w w'"
proof (induction ls arbitrary: w)
  case (Cons l ls)
  then show ?case
    by (auto split: prod.splits sum.splits if_splits list.splits
        dest!: Cons.IH intro: steady_trans [OF steady_call] steady_trans [OF steady_call_Logf])
qed simp

lemma steady_dumpFailedUnits: "dumpFailedUnits m w = (r, w') \<Longrightarrow> steady w w'"
  by (auto simp: dumpFailedUnits_def split: prod.splits if_splits
      intro: steady_Execute steady_trans [OF steady_Execute steady_dump_failed_lines])

lemma steady_dump_cleanup: "steady w (snd (dump_cleanup m dc w))"
proof -
  define w1 where "w1 = Logf ''=== DumpOnFailure: collecting diagnostics ==='' [] w"
  define w2 where "w2 = (if journalUnits dc \<noteq> [] then dump_units m (journalUnits dc) w1 else w1)"
  define w3 where "w3 = (case dmesgFilters dc of None \<Rightarrow> w2 | Some fs \<Rightarrow> dumpDmesg m fs w2)"
  define w4 where "w4 = (if processGlob dc \<noteq> [] then
      (case call (agent_FindProcesses (m_agent m) (processGlob dc)) w3 of (Inl err, w') \<Rightarrow> w' | (Inr procs, w') \<Rightarrow> log_procs procs w')
      else w3)"
  have "steady w w1" by (simp add: w1_def steady_Logf)
  moreover have "steady w1 w2" by (simp add: w2_def steady_dump_units)
  moreover have "steady w2 w3" by (simp add: w3_def steady_dumpDmesg split: option.splits)
  moreover have "steady w3 w4"
    by (auto simp: w4_def split: prod.splits sum.splits intro: steady_call steady_trans [OF steady_call steady_log_procs])
  moreover have "steady w4 (dump_files m (fileGlobs dc) w4)" by (rule steady_dump_files)
  ultimately have "steady w (dump_files m (fileGlobs dc) w4)" "steady w w1" by (blast intro: steady_trans)+
  moreover have "steady w1 (snd (case dumpFailedUnits m w1 of (Inl h, w') \<Rightarrow> (Inl h, w') | (Inr _, w') \<Rightarrow> (Inr (), dumpDmesg m [] w')))"
    by (auto split: prod.splits sum.splits intro: steady_dumpFailedUnits steady_trans [OF steady_dumpFailedUnits steady_dumpDmesg])
  ultimately show ?thesis
    unfolding dump_cleanup_def Let_def w1_def [symmetric] w2_def [symmetric] w3_def [symmetric] w4_def [symmetric]
    by (auto intro: steady_trans)
qed






lemma dump_failed_lines_panic:
  "isl (fst (dump_failed_lines m ls w)) \<longleftrightarrow> (\<exists>l \<in> set ls. l \<noteq> [] \<and> Fields l = [])"
  by (induction m ls w rule: dump_failed_lines.induct) (auto split: prod.splits sum.splits list.splits)

text \<open>(C40) Listing the failed units panics exactly when the \<open>systemctl\<close> output, trimmed, has a line of
  white space only between other lines; an error of the command itself is ignored.\<close>

theorem dumpFailedUnits_panics:
  "isl (fst (dumpFailedUnits m w)) \<longleftrightarrow>
     (\<exists>out err c. fst (Execute m ''systemctl --failed --no-legend --no-pager --plain'' w) = (out, err, c, None) \<and>
        (\<exists>l \<in> set (Split newline (TrimSpace out)). l \<noteq> [] \<and> Fields l = []))"
  by (cases "Execute m ''systemctl --failed --no-legend --no-pager --plain'' w")
    (auto simp: dumpFailedUnits_def dump_failed_lines_panic split: prod.splits)

section \<open>Booting and finishing\<close>

lemma halted_world:
  "halted h w = (r, w') \<Longrightarrow> isl r \<and> cleanups w' = cleanups w \<and> lifecycle_of (tevents w') = lifecycle_of (tevents w)"
  by (cases h) (auto simp: halted_def fatal_eq)

lemma New_cases:
  assumes "New env Start ConnectAgent opts w = (r, w')"
  obtains (early) h where "r = Inl h" and "cleanups w' = cleanups w"
      and "lifecycle_of (tevents w') = lifecycle_of (tevents w)"
  | (unreachable) h where "r = Inl h" and "cleanups w' = cleanups w"
      and "lifecycle_of (tevents w') = lifecycle_of (tevents w) @ [VMStarted, VMKilled]"
  | (up) v agt where "r = Inr \<lparr>m_vm = Some v, m_agent = agt\<rparr>"
      and "cleanups w' = CleanupNew \<lparr>m_vm = Some v, m_agent = agt\<rparr> (vm_Serial v \<noteq> None) # cleanups w"
      and "lifecycle_of (tevents w') = lifecycle_of (tevents w) @ [VMStarted, AgentConnected]"
proof -
  obtain x g where a: "applyOptions opts \<lparr>vmOpts = []\<rparr> (guest w) = (x, g)" by fastforce
  show thesis
  proof (cases x)
    case (Inl h)
    with a assms show thesis by (cases r) (auto simp: New_def dest!: halted_world intro: early)
  next
    case mc: (Inr mc)
    show thesis
    proof (cases "buildVMOptsFromEnv env")
      case (Inl h)
      with a mc assms show thesis by (cases r) (auto simp: New_def dest!: halted_world intro: early)
    next
      case vmo: (Inr vmo)
      define o1 where "o1 = vmo @ [vm_WithAgent, vm_WithSerialCapture, vm_WithQMP] @ vmOpts mc"
      obtain s w1 where st: "extern (Start o1) (w\<lparr>guest := g\<rparr>) = (s, w1)" by fastforce
      show thesis
      proof (cases s)
        case (Inl err)
        with a mc vmo st assms show thesis
          by (auto simp: New_def o1_def fatal_eq dest: extern_fields intro!: early)
      next
        case v: (Inr v)
        obtain c w2 where cn: "extern (ConnectAgent (120 * second) (vm_AgentSocketPath v)) (emit (TLife VMStarted) w1) = (c, w2)"
          by fastforce
        note fields = extern_fields [OF st] extern_fields [OF cn]
        show thesis
        proof (cases c)
          case (Inl err)
          with a mc vmo st v cn assms fields show thesis
            by (auto simp: New_def o1_def fatal_eq Kill_def intro!: unreachable)
        next
          case (Inr agt)
          with a mc vmo st v cn assms fields show thesis
            by (intro up [of v agt]) (auto simp: New_def o1_def Cleanup_def Let_def)
        qed
      qed
    qed
  qed
qed

text \<open>(C17) A failed \<open>New\<close> leaks no VM: it registers no cleanup, and a VM it has started it has killed.
  The serial log, though, is not waited for on this path: no drained log appears.\<close>

theorem New_failure_kills_vm:
  assumes "New env Start ConnectAgent opts w = (Inl h, w')"
  shows "cleanups w' = cleanups w \<and>
         (\<exists>new. lifecycle_of (tevents w') = lifecycle_of (tevents w) @ new \<and> new \<in> {[], [VMStarted, VMKilled]})"
  using assms by (cases rule: New_cases) auto

text \<open>A VM and its agent for the examples.\<close>

definition demo_vm :: "unit VM" where
  "demo_vm = \<lparr>vm_Stop = (\<lambda>t g. (Inr (), 0, g)), vm_Kill = (\<lambda>t g. (0, g)), vm_ForwardedPort = (\<lambda>p g. p),
     vm_QMP = None, vm_Serial = Some ''serial'', vm_AgentSocketPath = ''/tmp/agent.sock''\<rparr>"

definition demo_start :: "vm_option list \<Rightarrow> (unit, unit VM) rpc" where
  "demo_start opts t g = (if vm_WithAgent \<in> set opts then Inr demo_vm else Inl (ErrExt ''no agent''), 3, g)"

definition demo_connect :: "bool \<Rightarrow> int \<Rightarrow> string \<Rightarrow> (unit, unit agent) rpc" where
  "demo_connect up tmo path t g = (if up then Inr demo_agent else Inl (ErrExt ''refused''), 2, g)"

theorem New_failure_kills_vm_witness:
  "\<exists>h w'. New (env_of []) demo_start (demo_connect False) [] demo_world = (Inl h, w') \<and>
     lifecycle_of (tevents w') = [VMStarted, VMKilled] \<and> cleanups w' = []"
proof -
  let ?n = "New (env_of []) demo_start (demo_connect False) [] demo_world"
  have "case ?n of (Inl h, w') \<Rightarrow> lifecycle_of (tevents w') = [VMStarted, VMKilled] | _ \<Rightarrow> False" by code_simp
  then obtain h w' where n: "?n = (Inl h, w')" and l: "lifecycle_of (tevents w') = [VMStarted, VMKilled]"
    by (cases ?n; cases "fst ?n") auto
  with New_failure_kills_vm [OF n] show ?thesis by (simp add: demo_world_def)
qed

text \<open>(C18) \<open>New\<close> starts the VM with the options of the environment first, then agent, serial capture
  and QMP, then the caller's own options in the order given, and with nothing else: what \<open>vm.Start\<close>
  would do on any other option list does not matter.\<close>

theorem New_option_order:
  assumes "buildVMOptsFromEnv env = Inr envOpts"
    and "applyOptions opts \<lparr>vmOpts = []\<rparr> (guest w) = (Inr mc, g)"
    and "Start1 (envOpts @ [vm_WithAgent, vm_WithSerialCapture, vm_WithQMP] @ vmOpts mc) =
         Start2 (envOpts @ [vm_WithAgent, vm_WithSerialCapture, vm_WithQMP] @ vmOpts mc)"
  shows "New env Start1 ConnectAgent opts w = New env Start2 ConnectAgent opts w"
  using assms by (simp add: New_def Let_def)

theorem New_option_order_witness:
  "New (env_of []) demo_start (demo_connect True) [WithPortForward 8080] demo_world =
   New (env_of []) (\<lambda>opts. if opts = [vm_WithUserNet, vm_WithAgent, vm_WithSerialCapture, vm_WithQMP, vm_WithPortForward 8080]
      then demo_start opts else (\<lambda>t g. (Inl (ErrExt ''other options''), 0, g))) (demo_connect True) [WithPortForward 8080] demo_world"
proof -
  have "buildVMOptsFromEnv (env_of []) = Inr [vm_WithUserNet]" by code_simp
  moreover have "applyOptions [WithPortForward 8080] \<lparr>vmOpts = []\<rparr> (guest demo_world) =
      (Inr \<lparr>vmOpts = [vm_WithPortForward 8080]\<rparr>, ())" by (simp add: WithPortForward_def)
  ultimately show ?thesis by (rule New_option_order) simp
qed

lemma run_cleanups_dumps: "list_all is_dump cs \<Longrightarrow> steady w (run_cleanups cs w)"
proof (induction cs arbitrary: w)
  case (Cons c cs)
  then obtain m dc where "c = CleanupDump m dc" by (cases c) auto
  then have "steady w (snd (run_cleanup c w))" by (simp add: steady_dump_cleanup)
  also have "steady (snd (run_cleanup c w)) (run_cleanups cs (snd (run_cleanup c w)))" using Cons by simp
  finally show ?case by simp
qed simp

lemma run_cleanups_append: "run_cleanups (as @ bs) w = run_cleanups bs (run_cleanups as w)"
  by (induction as arbitrary: w) auto

lemma finish_after_New:
  assumes "cleanups w = ds @ [CleanupNew \<lparr>m_vm = Some v, m_agent = agt\<rparr> ld]" and "list_all is_dump ds"
  obtains pre where "tevents (finish_test w) = pre @ map TLife ([AgentClosed, VMKilled] @ (if ld then [LogDrained] else []))"
    and "lifecycle_of pre = lifecycle_of (tevents w)"
proof -
  define w1 where "w1 = run_cleanups ds (w\<lparr>cleanups := []\<rparr>)"
  have "steady (w\<lparr>cleanups := []\<rparr>) w1" unfolding w1_def by (rule run_cleanups_dumps [OF assms(2)])
  then have "lifecycle_of (tevents w1) = lifecycle_of (tevents w)" by (simp add: steady_def)
  moreover have "finish_test w = snd (close_machine \<lparr>m_vm = Some v, m_agent = agt\<rparr> ld w1)"
    by (simp add: finish_test_def assms(1) run_cleanups_append w1_def)
  then have "tevents (finish_test w) = tevents w1 @ map TLife ([AgentClosed, VMKilled] @ (if ld then [LogDrained] else []))"
    by (simp add: close_machine_def Let_def Close_def Kill_def)
  ultimately show thesis using that by blast
qed

text \<open>(C2) Whatever operations a test performs on the machine \<open>New\<close> gave it, and whatever dumps it
  registers, finishing the test ends with closing the agent, killing the VM and then draining
  the serial log, once each and in this order, after everything else: diagnostics are collected
  while the agent is still connected.\<close>

theorem test_lifecycle:
  assumes "New env Start ConnectAgent opts w = (Inr m, w1)" and "cleanups w = []" and "test_run m w1 w2"
  shows "\<exists>pre v. m_vm m = Some v \<and>
    tevents (finish_test w2) = pre @ map TLife ([AgentClosed, VMKilled] @ (if vm_Serial v \<noteq> None then [LogDrained] else [])) \<and>
    lifecycle_of pre = lifecycle_of (tevents w) @ [VMStarted, AgentConnected]"
  using assms(1)
proof (cases rule: New_cases)
  case (up v agt)
  from test_run_steady [OF assms(3)] obtain ds where
    ds: "cleanups w2 = ds @ cleanups w1" "list_all is_dump ds" and life: "lifecycle_of (tevents w2) = lifecycle_of (tevents w1)"
    unfolding steady_def by blast
  have "cleanups w2 = ds @ [CleanupNew \<lparr>m_vm = Some v, m_agent = agt\<rparr> (vm_Serial v \<noteq> None)]"
    using ds(1) up(2) assms(2) by simp
  from finish_after_New [OF this ds(2)] obtain pre where
    "tevents (finish_test w2) = pre @ map TLife ([AgentClosed, VMKilled] @ (if vm_Serial v \<noteq> None then [LogDrained] else []))"
    and "lifecycle_of pre = lifecycle_of (tevents w2)" .
  moreover have "m_vm m = Some v" using up(1) by auto
  ultimately show ?thesis using life up(3) by auto
qed auto


theorem test_lifecycle_witness:
  "\<exists>m w1 w2 pre. New (env_of []) demo_start (demo_connect True) [] demo_world = (Inr m, w1) \<and> test_run m w1 w2 \<and>
     tevents (finish_test w2) = pre @ map TLife [AgentClosed, VMKilled, LogDrained]"
proof -
  let ?n = "New (env_of []) demo_start (demo_connect True) [] demo_world"
  have "case ?n of (Inr m, w1) \<Rightarrow> (case m_vm m of Some v \<Rightarrow> vm_Serial v \<noteq> None | None \<Rightarrow> False) | _ \<Rightarrow> False" by code_simp
  then obtain m w1 where n: "?n = (Inr m, w1)" and v: "\<And>v. m_vm m = Some v \<Longrightarrow> vm_Serial v \<noteq> None"
    by (cases ?n; cases "fst ?n") (auto split: option.splits)
  define w2 where "w2 = DumpOnFailure m [] (snd (Succeed m ''true'' w1))"
  have "test_run m w1 w2"
    unfolding w2_def by (rule test_more [OF test_more [OF test_start]])
      (rule test_step.intros(2) [OF surjective_pairing], rule test_step.intros(25))
  moreover have "cleanups demo_world = []" by (simp add: demo_world_def)
  ultimately show ?thesis using test_lifecycle [OF n _ \<open>test_run m w1 w2\<close>] n v by fastforce
qed

end
