(* ===== verification/HostApi.thy ===== *)
theory HostApi
  imports GoStd
begin

text \<open>
  The host the command-line programs run on, shared by \<open>runner/\<close>, \<open>orchestrator/\<close> and \<open>vmtest/cmd/\<close>:
  the part of \<open>os\<close>, \<open>os/exec\<close>, \<open>syscall\<close> and \<open>fmt\<close> they use, as state programs over a \<open>host\<close>.

  \<^item> \<open>files\<close> are the regular files, with contents and modification time; \<open>unreadable\<close> and
    \<open>unremovable\<close> say where \<open>os.ReadFile\<close> and \<open>os.Remove\<close> fail for want of permission.
  \<^item> \<open>cmds\<close> is the store of \<open>exec.Cmd\<close> objects: the process manager and the routine that started a
    command hold the same pointer, and \<open>Wait\<close> through one is seen through the other.
  \<^item> \<open>hevents\<close> is the trace of what was printed, run, started, signalled and slept.
  \<^item> \<open>ext\<close>, of type \<open>'h\<close>, is everything else: the network, other processes, the clock.

  Programs that are run (\<open>ip\<close>, \<open>qemu-img\<close>, \<open>tmux\<close>, QEMU) and the functions of the external package
  \<open>github.com/mikn/rules_qemu/vm\<close> are the fields of a record \<open>'h sys\<close>, an argument of every routine
  that reaches them: they may change \<open>files\<close> and \<open>ext\<close> in any way.
\<close>

section \<open>Definitions\<close>

text \<open>The two signals the program sends, in the order of escalation.\<close>

datatype signal = SIGTERM | SIGKILL

instantiation signal :: linorder
begin

definition less_eq_signal :: "signal \<Rightarrow> signal \<Rightarrow> bool" where
  "less_eq_signal s t \<longleftrightarrow> s = SIGTERM \<or> t = SIGKILL"

definition less_signal :: "signal \<Rightarrow> signal \<Rightarrow> bool" where
  "less_signal s t \<longleftrightarrow> s = SIGTERM \<and> t = SIGKILL"

instance
proof
  fix x y z :: signal
  show "x < y \<longleftrightarrow> x \<le> y \<and> \<not> y \<le> x" by (cases x; cases y) (simp_all add: less_eq_signal_def less_signal_def)
  show "x \<le> x" by (cases x) (simp_all add: less_eq_signal_def)
  show "x \<le> y \<Longrightarrow> y \<le> z \<Longrightarrow> x \<le> z" by (cases x; cases z) (simp_all add: less_eq_signal_def)
  show "x \<le> y \<Longrightarrow> y \<le> x \<Longrightarrow> x = y" by (cases x; cases y) (simp_all add: less_eq_signal_def)
  show "x \<le> y \<or> y \<le> x" by (cases x; cases y) (simp_all add: less_eq_signal_def)
qed

end

text \<open>\<open>exec.Cmd\<close>: program and arguments, the process once started, and whether \<open>ProcessState\<close> is set. All
  commands that are started are made by \<open>exec.CommandContext\<close>.\<close>

record Cmd =
  cmd_path :: string
  cmd_args :: "string list"
  cmd_Process :: "int option"
  cmd_ProcessState :: bool

datatype hevent =
    HPrint string "fmt_arg list"
  | HErr string "fmt_arg list"
  | HRun string "string list"
  | HStart int string "string list"
  | HSignal int signal
  | HSleep int
  | HSwtpm string
  | HStream string "string list"
  | HStreamErr string "string list"

type_synonym files = "string \<rightharpoonup> string \<times> int"

record 'h host =
  files :: files
  unreadable :: "string \<Rightarrow> bool"
  unremovable :: "string \<Rightarrow> bool"
  cmds :: "Cmd list"
  hevents :: "hevent list"
  ext :: 'h

type_synonym ('h, 'a) prog = "files \<Rightarrow> 'h \<Rightarrow> 'a \<times> files \<times> 'h"

text \<open>How the wait in build mode ends: QEMU exits, the 20 minutes are over, or the context is
  cancelled. In the last two cases the goroutine that waits for QEMU may have come first all the same, when
  \<open>select\<close> had the choice: the flag tells whether it has.\<close>

datatype wait_event = QemuExited "exec_error option" | TimeAfter bool | CtxDone bool

record 'h sys =
  sys_Run :: "string \<Rightarrow> string list \<Rightarrow> ('h, string \<times> exec_error option) prog"
  sys_Pipe :: "int \<Rightarrow> ('h, go_error option) prog"
  sys_Start :: "string \<Rightarrow> string list \<Rightarrow> ('h, go_error + int) prog"
  sys_Wait :: "int \<Rightarrow> ('h, exec_error option) prog"
  sys_Select :: "int \<Rightarrow> ('h, wait_event) prog"
  sys_Reads :: "int \<Rightarrow> int \<Rightarrow> 'h \<Rightarrow> string list"
  sys_MkdirAll :: "string \<Rightarrow> int \<Rightarrow> ('h, go_error option) prog"
  sys_Getwd :: "'h \<Rightarrow> go_error + string"
  vm_FileExists :: "string \<Rightarrow> files \<Rightarrow> 'h \<Rightarrow> bool"
  vm_CopyFile :: "string \<Rightarrow> string \<Rightarrow> ('h, go_error option) prog"
  vm_CopyDir :: "string \<Rightarrow> string \<Rightarrow> ('h, go_error option) prog"
  vm_InitializeTPMState :: "string \<Rightarrow> string \<Rightarrow> string list \<Rightarrow> ('h, go_error option) prog"
  vm_StartSwtpm :: "string \<Rightarrow> string \<Rightarrow> ('h, go_error + string \<times> string) prog"
  vm_ProcessEscapeSequences :: "string \<Rightarrow> string \<times> string"

subsection \<open>Primitives\<close>

definition hemit :: "hevent \<Rightarrow> (('h, 'z) host_scheme, unit) state" where
  "hemit e = modify (\<lambda>s. s\<lparr>hevents := hevents s @ [e]\<rparr>)"

definition Printf :: "string \<Rightarrow> fmt_arg list \<Rightarrow> (('h, 'z) host_scheme, unit) state" where
  "Printf f as = hemit (HPrint f as)"

definition Eprintf :: "string \<Rightarrow> fmt_arg list \<Rightarrow> (('h, 'z) host_scheme, unit) state" where
  "Eprintf f as = hemit (HErr f as)"

definition time_Sleep :: "int \<Rightarrow> (('h, 'z) host_scheme, unit) state" where
  "time_Sleep d = hemit (HSleep d)"

definition millisecond :: int where
  "millisecond = 1000000"

text \<open>Running external code.\<close>

definition prog :: "('h, 'a) prog \<Rightarrow> (('h, 'z) host_scheme, 'a) state" where
  "prog p = State (\<lambda>s. case p (files s) (ext s) of (a, fs, h) \<Rightarrow> (a, s\<lparr>files := fs, ext := h\<rparr>))"

definition os_ReadFile :: "string \<Rightarrow> (('h, 'z) host_scheme, string option) state" where
  "os_ReadFile p = gets (\<lambda>s. if unreadable s p then None else map_option fst (files s p))"

definition os_Remove :: "string \<Rightarrow> (('h, 'z) host_scheme, unit) state" where
  "os_Remove p = modify (\<lambda>s. if unremovable s p then s else s\<lparr>files := (files s)(p := None)\<rparr>)"

text \<open>\<open>os.Stat(p).ModTime()\<close>\<close>

definition os_Stat :: "string \<Rightarrow> (('h, 'z) host_scheme, int option) state" where
  "os_Stat p = gets (\<lambda>s. map_option snd (files s p))"

definition os_MkdirAll :: "'h sys \<Rightarrow> string \<Rightarrow> int \<Rightarrow> (('h, 'z) host_scheme, go_error option) state" where
  "os_MkdirAll S p perm = prog (sys_MkdirAll S p perm)"

definition filepath_Abs :: "'h sys \<Rightarrow> string \<Rightarrow> (('h, 'z) host_scheme, go_error + string) state" where
  "filepath_Abs S p =
     gets (\<lambda>s. if IsAbs p then Inr (Clean p)
               else case sys_Getwd S (ext s) of Inl e \<Rightarrow> Inl e | Inr wd \<Rightarrow> Inr (path_join [wd, p]))"

definition syscall_Kill :: "int \<Rightarrow> signal \<Rightarrow> (('h, 'z) host_scheme, unit) state" where
  "syscall_Kill pid sig = hemit (HSignal pid sig)"

text \<open>\<open>exec.Command(path, args...)\<close> followed by \<open>CombinedOutput\<close>, \<open>Output\<close> or \<open>Run\<close>: the output and the error.\<close>

definition exec_Run :: "'h sys \<Rightarrow> string \<Rightarrow> string list \<Rightarrow> (('h, 'z) host_scheme, string \<times> exec_error option) state" where
  "exec_Run S path args = do { hemit (HRun path args); prog (sys_Run S path args) }"

text \<open>\<open>exec.CommandContext(r.ctx, path, args...)\<close>: a new object in the store; its address is returned.\<close>

definition exec_CommandContext :: "string \<Rightarrow> string list \<Rightarrow> (('h, 'z) host_scheme, nat) state" where
  "exec_CommandContext path args = do {
     a \<leftarrow> gets (\<lambda>s. length (cmds s));
     modify (\<lambda>s. s\<lparr>cmds := cmds s @
       [\<lparr>cmd_path = path, cmd_args = args, cmd_Process = None, cmd_ProcessState = False\<rparr>]\<rparr>);
     ret a
   }"

definition cmd_update :: "nat \<Rightarrow> (Cmd \<Rightarrow> Cmd) \<Rightarrow> (('h, 'z) host_scheme, unit) state" where
  "cmd_update a f = modify (\<lambda>s. s\<lparr>cmds := (cmds s)[a := f (cmds s ! a)]\<rparr>)"

definition cmd_Start :: "'h sys \<Rightarrow> nat \<Rightarrow> (('h, 'z) host_scheme, go_error option) state" where
  "cmd_Start S a = do {
     c \<leftarrow> gets (\<lambda>s. cmds s ! a);
     r \<leftarrow> prog (sys_Start S (cmd_path c) (cmd_args c));
     (case r of
        Inl err \<Rightarrow> ret (Some err)
      | Inr pid \<Rightarrow> do {
          hemit (HStart pid (cmd_path c) (cmd_args c));
          cmd_update a (\<lambda>c. c\<lparr>cmd_Process := Some pid\<rparr>);
          ret None
        })
   }"

text \<open>\<open>Process.Signal\<close> on a process that has been waited for reports \<open>os.ErrProcessDone\<close> and sends nothing.\<close>

definition cmd_Signal :: "nat \<Rightarrow> signal \<Rightarrow> (('h, 'z) host_scheme, unit) state" where
  "cmd_Signal a sig = do {
     c \<leftarrow> gets (\<lambda>s. cmds s ! a);
     (case cmd_Process c of
        Some pid \<Rightarrow> if cmd_ProcessState c then ret () else hemit (HSignal pid sig)
      | None \<Rightarrow> ret ())
   }"

text \<open>\<open>Wait\<close> blocks until the process has ended and sets \<open>ProcessState\<close>; a second call is an error.\<close>

definition cmd_Wait :: "'h sys \<Rightarrow> nat \<Rightarrow> (('h, 'z) host_scheme, exec_error option) state" where
  "cmd_Wait S a = do {
     c \<leftarrow> gets (\<lambda>s. cmds s ! a);
     (case cmd_Process c of
        None \<Rightarrow> ret (Some (ExecOther ''exec: not started''))
      | Some pid \<Rightarrow>
          if cmd_ProcessState c then ret (Some (ExecOther ''exec: Wait was already called''))
          else do {
            r \<leftarrow> prog (sys_Wait S pid);
            cmd_update a (\<lambda>c. c\<lparr>cmd_ProcessState := True\<rparr>);
            ret r
          })
   }"

section \<open>What the primitives do\<close>

lemma run_hemit [simp]: "run_state (hemit e) s = ((), s\<lparr>hevents := hevents s @ [e]\<rparr>)"
  by (simp add: hemit_def)

lemma run_prints [simp]:
  "run_state (Printf f as) s = ((), s\<lparr>hevents := hevents s @ [HPrint f as]\<rparr>)"
  "run_state (Eprintf f as) s = ((), s\<lparr>hevents := hevents s @ [HErr f as]\<rparr>)"
  "run_state (time_Sleep d) s = ((), s\<lparr>hevents := hevents s @ [HSleep d]\<rparr>)"
  "run_state (syscall_Kill pid sig) s = ((), s\<lparr>hevents := hevents s @ [HSignal pid sig]\<rparr>)"
  by (simp_all add: Printf_def Eprintf_def time_Sleep_def syscall_Kill_def)

lemma run_prog: "run_state (prog p) s = (case p (files s) (ext s) of (a, fs, h) \<Rightarrow> (a, s\<lparr>files := fs, ext := h\<rparr>))"
  by (simp add: prog_def)

lemma preserves_prog:
  assumes "\<And>s a fs h. I s \<Longrightarrow> p (files s) (ext s) = (a, fs, h) \<Longrightarrow> I (s\<lparr>files := fs, ext := h\<rparr>)"
  shows "preserves I (prog p)"
  using assms by (auto simp: preserves_def run_prog split: prod.splits)

text \<open>External code that leaves a file alone.\<close>

definition keeps :: "('h, 'a) prog \<Rightarrow> string \<Rightarrow> bool" where
  "keeps p q \<longleftrightarrow> (\<forall>fs h. fst (snd (p fs h)) q = fs q)"

lemma keepsD: "keeps p q \<Longrightarrow> p fs h = (a, fs', h') \<Longrightarrow> fs' q = fs q"
  unfolding keeps_def by (metis fst_conv snd_conv)

lemma run_os_ReadFile [simp]:
  "run_state (os_ReadFile p) s = (if unreadable s p then None else map_option fst (files s p), s)"
  by (simp add: os_ReadFile_def)

lemma run_os_Remove [simp]:
  "run_state (os_Remove p) s = ((), if unremovable s p then s else s\<lparr>files := (files s)(p := None)\<rparr>)"
  by (simp add: os_Remove_def)

lemma run_os_Stat [simp]: "run_state (os_Stat p) s = (map_option snd (files s p), s)"
  by (simp add: os_Stat_def)

fun signals_to :: "int \<Rightarrow> hevent list \<Rightarrow> signal list" where
  "signals_to pid [] = []"
| "signals_to pid (HSignal p sig # es) = (if p = pid then sig # signals_to pid es else signals_to pid es)"
| "signals_to pid (_ # es) = signals_to pid es"

lemma signals_to_append [simp]: "signals_to pid (xs @ ys) = signals_to pid xs @ signals_to pid ys"
  by (induction pid xs rule: signals_to.induct) auto

text \<open>The processes a trace has started.\<close>

fun started_pids :: "hevent list \<Rightarrow> int list" where
  "started_pids [] = []"
| "started_pids (HStart pid path args # es) = pid # started_pids es"
| "started_pids (_ # es) = started_pids es"

lemma started_pids_iff: "pid \<in> set (started_pids es) \<longleftrightarrow> (\<exists>path args. HStart pid path args \<in> set es)"
  by (induction es rule: started_pids.induct) auto

section \<open>A host that works\<close>

text \<open>For concrete runs: \<open>ip\<close> reports interfaces that are up, \<open>qemu-img\<close> creates its file, swtpm
  leaves its pid file, QEMU starts and exits with status 0.\<close>

definition demo_run :: "string \<Rightarrow> string list \<Rightarrow> (unit, string \<times> exec_error option) prog" where
  "demo_run path args fs h =
     (case args of
        [c, f, raw, p, sz] \<Rightarrow> (([], None), fs(p \<mapsto> (''disk'', 1)), h)
      | _ \<Rightarrow> ((''<BROADCAST,UP>'', None), fs, h))"

definition demo_swtpm :: "string \<Rightarrow> string \<Rightarrow> (unit, go_error + string \<times> string) prog" where
  "demo_swtpm bin dir fs h =
     (Inr (path_join [dir, ''swtpm-sock''], ''/run/swtpm.pid''), fs(''/run/swtpm.pid'' \<mapsto> (''4242\<newline>'', 2)), h)"

definition demo_copy :: "string \<Rightarrow> string \<Rightarrow> (unit, go_error option) prog" where
  "demo_copy src dst fs h = (if fs src = None then (Some (ErrExt ''no such file''), fs, h) else (None, fs(dst := fs src), h))"

definition demo_sys :: "unit sys" where
  "demo_sys =
     \<lparr>sys_Run = demo_run,
      sys_Pipe = (\<lambda>fd fs h. (None, fs, h)),
      sys_Start = (\<lambda>path args fs h. (Inr 77, fs, h)),
      sys_Wait = (\<lambda>pid fs h. (None, fs, h)),
      sys_Select = (\<lambda>pid fs h. (QemuExited None, fs, h)),
      sys_Reads = (\<lambda>pid fd h. []),
      sys_MkdirAll = (\<lambda>p perm fs h. (None, fs, h)),
      sys_Getwd = (\<lambda>h. Inr ''/root''),
      vm_FileExists = (\<lambda>p fs h. fs p \<noteq> None),
      vm_CopyFile = demo_copy,
      vm_CopyDir = (\<lambda>src dst. demo_copy (path_join [src, ''tpm2-00.permall'']) (path_join [dst, ''tpm2-00.permall''])),
      vm_InitializeTPMState = (\<lambda>setup dir banks fs h. (None, fs(path_join [dir, ''tpm2-00.permall''] \<mapsto> (''tpm'', 1)), h)),
      vm_StartSwtpm = demo_swtpm,
      vm_ProcessEscapeSequences = (\<lambda>data. (data, []))\<rparr>"

definition demo_with :: "wait_event \<Rightarrow> unit sys" where
  "demo_with ev = demo_sys\<lparr>sys_Select := (\<lambda>pid fs h. (ev, fs, h))\<rparr>"

end
