(* ===== verification/ProcessManager.thy ===== *)
theory ProcessManager
  imports HostApi
begin

text \<open>
  The process manager of \<open>runner/process_manager.go\<close>: the pid files and commands registered with it
  and the clean-up that stops them. A mutex makes each method atomic, so a method is one state
  program; the state is the runner's (\<open>rstate\<close>), of which the manager is a part.
\<close>

section \<open>Definitions\<close>

text \<open>\<open>type ProcessManager struct\<close>; \<open>pm_canceled\<close> says whether its context is cancelled.\<close>

record ProcessManager =
  processes :: "nat list"
  pidFiles :: "string list"
  pm_canceled :: bool

text \<open>\<open>type OutputStreamer struct\<close>: the streams each wait group counts, as command, descriptor, tag
  and, for a filtered stream, the patterns.\<close>

datatype StreamType = Monitored | Detached

record OutputStreamer =
  monitored :: "(nat \<times> int \<times> string \<times> string list option) list"
  detached :: "(nat \<times> int \<times> string \<times> string list option) list"

text \<open>The mutable part of \<open>type Runner struct\<close>, on the host it runs on.\<close>

record 'h rstate = "'h host" +
  pm :: ProcessManager
  streamer :: OutputStreamer
  workDir :: string

definition NewProcessManager :: ProcessManager where
  "NewProcessManager = \<lparr>processes = [], pidFiles = [], pm_canceled = False\<rparr>"

definition NewOutputStreamer :: OutputStreamer where
  "NewOutputStreamer = \<lparr>monitored = [], detached = []\<rparr>"

definition AddProcess :: "nat \<Rightarrow> ('h rstate, unit) state" where
  "AddProcess a = modify (\<lambda>s. s\<lparr>pm := (pm s)\<lparr>processes := processes (pm s) @ [a]\<rparr>\<rparr>)"

definition AddPIDFile :: "string \<Rightarrow> ('h rstate, unit) state" where
  "AddPIDFile pidFile = modify (\<lambda>s. s\<lparr>pm := (pm s)\<lparr>pidFiles := pidFiles (pm s) @ [pidFile]\<rparr>\<rparr>)"

definition cleanupPIDFile :: "string \<Rightarrow> ('h rstate, unit) state" where
  "cleanupPIDFile pidFile = do {
     r \<leftarrow> os_ReadFile pidFile;
     (case r of
        None \<Rightarrow> ret ()
      | Some pidData \<Rightarrow>
          (case Atoi (TrimSpace pidData) of
             Inl err \<Rightarrow> ret ()
           | Inr pid \<Rightarrow> do {
               syscall_Kill pid SIGTERM;
               time_Sleep (500 * millisecond);
               syscall_Kill pid SIGKILL
             }));
     os_Remove pidFile
   }"

text \<open>The body of the second loop of \<open>CleanupAll\<close>.\<close>

definition cleanup_cmd :: "'h sys \<Rightarrow> nat \<Rightarrow> ('h rstate, unit) state" where
  "cleanup_cmd S a = do {
     c \<leftarrow> gets (\<lambda>s. cmds s ! a);
     (if cmd_Process c \<noteq> None then do {
        cmd_Signal a SIGTERM;
        time_Sleep (500 * millisecond);
        c' \<leftarrow> gets (\<lambda>s. cmds s ! a);
        (if \<not> cmd_ProcessState c' then cmd_Signal a SIGKILL else ret ());
        _ \<leftarrow> cmd_Wait S a;
        ret ()
      } else ret ())
   }"

definition CleanupAll :: "'h sys \<Rightarrow> ('h rstate, unit) state" where
  "CleanupAll S = do {
     modify (\<lambda>s. s\<lparr>pm := (pm s)\<lparr>pm_canceled := True\<rparr>\<rparr>);
     fs \<leftarrow> gets (\<lambda>s. pidFiles (pm s));
     for_each fs cleanupPIDFile;
     ps \<leftarrow> gets (\<lambda>s. processes (pm s));
     for_each ps (cleanup_cmd S)
   }"

section \<open>The clean-up of pid files\<close>

definition pid_in :: "'h rstate \<Rightarrow> string \<Rightarrow> int option" where
  "pid_in s p =
     (if unreadable s p then None
      else case files s p of
        None \<Rightarrow> None
      | Some (d, t) \<Rightarrow> (case Atoi (TrimSpace d) of Inl e \<Rightarrow> None | Inr pid \<Rightarrow> Some pid))"

text \<open>The escalation a process to be stopped sees.\<close>

definition escalation :: "int \<Rightarrow> hevent list" where
  "escalation pid = [HSignal pid SIGTERM, HSleep (500 * millisecond), HSignal pid SIGKILL]"

definition pid_trace :: "'h rstate \<Rightarrow> string \<Rightarrow> hevent list" where
  "pid_trace s p = (case pid_in s p of None \<Rightarrow> [] | Some pid \<Rightarrow> escalation pid)"

definition removed :: "'h rstate \<Rightarrow> string set \<Rightarrow> files" where
  "removed s ps = (\<lambda>q. if q \<in> ps \<and> \<not> unremovable s q then None else files s q)"

lemma run_cleanupPIDFile:
  "run_state (cleanupPIDFile p) s =
     ((), s\<lparr>files := removed s {p}, hevents := hevents s @ pid_trace s p\<rparr>)"
proof -
  have "(if unremovable s p then files s else (files s)(p := None)) = removed s {p}"
    by (auto simp: removed_def fun_eq_iff)
  then show ?thesis
    by (auto simp: cleanupPIDFile_def pid_trace_def pid_in_def escalation_def split: option.splits sum.splits)
qed

lemma removed_simps [simp]: "removed s {} = files s" "unremovable (s\<lparr>files := fs\<rparr>) = unremovable s"
  by (simp_all add: removed_def)

lemma removed_removed: "removed (s\<lparr>files := removed s ps, hevents := es\<rparr>) qs = removed s (ps \<union> qs)"
  by (auto simp: removed_def fun_eq_iff)

lemma pid_trace_removed:
  "q \<notin> ps \<Longrightarrow> pid_trace (s\<lparr>files := removed s ps, hevents := es\<rparr>) q = pid_trace s q"
  by (simp add: pid_trace_def pid_in_def removed_def)

lemma run_cleanup_pid_files:
  assumes "distinct ps"
  shows "run_state (for_each ps cleanupPIDFile) s =
     ((), s\<lparr>files := removed s (set ps), hevents := hevents s @ concat (map (pid_trace s) ps)\<rparr>)"
  using assms
proof (induction ps rule: rev_induct)
  case (snoc p ps)
  let ?t = "s\<lparr>files := removed s (set ps), hevents := hevents s @ concat (map (pid_trace s) ps)\<rparr>"
  have "run_state (for_each (ps @ [p]) cleanupPIDFile) s = run_state (cleanupPIDFile p) ?t"
    using snoc by (simp add: run_for_each_append split: prod.splits)
  then show ?case using snoc.prems
    by (simp add: run_cleanupPIDFile removed_removed pid_trace_removed)
qed simp

section \<open>The clean-up of commands\<close>

definition running :: "'h rstate \<Rightarrow> nat \<Rightarrow> int option" where
  "running s a = (if cmd_ProcessState (cmds s ! a) then None else cmd_Process (cmds s ! a))"

definition cmd_trace :: "'h rstate \<Rightarrow> nat \<Rightarrow> hevent list" where
  "cmd_trace s a =
     (case cmd_Process (cmds s ! a) of
        None \<Rightarrow> []
      | Some pid \<Rightarrow> if cmd_ProcessState (cmds s ! a) then [HSleep (500 * millisecond)] else escalation pid)"

lemma cleanup_cmd_effect:
  assumes "run_state (cleanup_cmd S a) s = (u, s')" and "a < length (cmds s)"
  shows "hevents s' = hevents s @ cmd_trace s a" "length (cmds s') = length (cmds s)"
    "b \<noteq> a \<Longrightarrow> cmds s' ! b = cmds s ! b" "cmd_Process (cmds s' ! a) = cmd_Process (cmds s ! a)"
    "cmd_Process (cmds s ! a) \<noteq> None \<Longrightarrow> cmd_ProcessState (cmds s' ! a)"
    "pm s' = pm s" "unreadable s' = unreadable s" "unremovable s' = unremovable s"
  using assms
  by (auto simp: cleanup_cmd_def cmd_Signal_def cmd_Wait_def cmd_update_def cmd_trace_def escalation_def run_prog
      split: option.splits if_splits prod.splits)

lemma cmd_trace_cong: "cmds s' ! a = cmds s ! a \<Longrightarrow> cmd_trace s' a = cmd_trace s a"
  by (auto simp: cmd_trace_def split: option.splits)

lemma cleanup_cmds_effect:
  assumes "run_state (for_each ps (cleanup_cmd S)) s = (u, s')" and "distinct ps" and "\<forall>a \<in> set ps. a < length (cmds s)"
  shows "hevents s' = hevents s @ concat (map (cmd_trace s) ps) \<and> length (cmds s') = length (cmds s) \<and>
    (\<forall>a. a \<notin> set ps \<longrightarrow> cmds s' ! a = cmds s ! a) \<and> (\<forall>a \<in> set ps. running s' a = None) \<and>
    pm s' = pm s \<and> unreadable s' = unreadable s \<and> unremovable s' = unremovable s"
  using assms
proof (induction ps arbitrary: s)
  case (Cons p ps)
  obtain t where t: "run_state (cleanup_cmd S p) s = ((), t)" by (metis old.unit.exhaust surj_pair)
  with Cons.prems have r: "run_state (for_each ps (cleanup_cmd S)) t = (u, s')" by simp
  have p: "p < length (cmds s)" using Cons.prems by simp
  note e = cleanup_cmd_effect [OF t p]
  have IH: "hevents s' = hevents t @ concat (map (cmd_trace t) ps)" "length (cmds s') = length (cmds t)"
    "\<forall>a. a \<notin> set ps \<longrightarrow> cmds s' ! a = cmds t ! a" "\<forall>a \<in> set ps. running s' a = None"
    "pm s' = pm t" "unreadable s' = unreadable t" "unremovable s' = unremovable t"
    using Cons.IH [OF r] Cons.prems e(2) by auto
  have "concat (map (cmd_trace t) ps) = concat (map (cmd_trace s) ps)"
    using Cons.prems(2) e(3) cmd_trace_cong by (metis (no_types, lifting) distinct.simps(2) map_eq_conv)
  moreover have "running s' p = None"
    using IH(3) Cons.prems(2) e(4,5) by (cases "cmd_Process (cmds s ! p)") (auto simp: running_def)
  ultimately show ?case using IH e by auto
qed simp

lemma run_CleanupAll:
  "run_state (CleanupAll S) s =
     (let s1 = s\<lparr>pm := (pm s)\<lparr>pm_canceled := True\<rparr>\<rparr>;
          s2 = snd (run_state (for_each (pidFiles (pm s)) cleanupPIDFile) s1)
      in run_state (for_each (processes (pm s2)) (cleanup_cmd S)) s2)"
  by (simp add: CleanupAll_def Let_def split: prod.splits)

lemma pid_trace_pm [simp]: "pid_trace (s\<lparr>pm := m\<rparr>) = pid_trace s" "removed (s\<lparr>pm := m\<rparr>) ps = removed s ps"
  by (simp_all add: pid_trace_def pid_in_def removed_def fun_eq_iff)

text \<open>What every user of the process manager relies on: nothing is registered twice, and what is
  registered is a command that exists.\<close>

definition pm_wf :: "'h rstate \<Rightarrow> bool" where
  "pm_wf s \<longleftrightarrow> distinct (pidFiles (pm s)) \<and> distinct (processes (pm s)) \<and> (\<forall>a \<in> set (processes (pm s)). a < length (cmds s))"

lemma CleanupAll_effect:
  assumes "run_state (CleanupAll S) s = (u, s')" and "pm_wf s"
  defines "s2 \<equiv> s\<lparr>pm := (pm s)\<lparr>pm_canceled := True\<rparr>, files := removed s (set (pidFiles (pm s))),
                  hevents := hevents s @ concat (map (pid_trace s) (pidFiles (pm s)))\<rparr>"
  shows "run_state (for_each (processes (pm s)) (cleanup_cmd S)) s2 = (u, s')"
    and "hevents s' = hevents s @ concat (map (pid_trace s) (pidFiles (pm s))) @ concat (map (cmd_trace s) (processes (pm s)))"
    and "\<forall>a \<in> set (processes (pm s)). running s' a = None"
    and "pm s' = (pm s)\<lparr>pm_canceled := True\<rparr>" "unreadable s' = unreadable s" "unremovable s' = unremovable s"
    and "length (cmds s') = length (cmds s)"
proof -
  have d: "distinct (pidFiles (pm s))" "distinct (processes (pm s))" "\<forall>a \<in> set (processes (pm s)). a < length (cmds s)"
    using assms(2) by (auto simp: pm_wf_def)
  show r: "run_state (for_each (processes (pm s)) (cleanup_cmd S)) s2 = (u, s')"
    using assms(1) d(1) unfolding s2_def
    by (simp add: run_CleanupAll Let_def run_cleanup_pid_files)
  have "cmd_trace s2 = cmd_trace s"
    by (rule ext, rule cmd_trace_cong) (simp add: s2_def)
  then show "hevents s' = hevents s @ concat (map (pid_trace s) (pidFiles (pm s))) @ concat (map (cmd_trace s) (processes (pm s)))"
    "\<forall>a \<in> set (processes (pm s)). running s' a = None"
    "pm s' = (pm s)\<lparr>pm_canceled := True\<rparr>" "unreadable s' = unreadable s" "unremovable s' = unremovable s"
    "length (cmds s') = length (cmds s)"
    using cleanup_cmds_effect [OF r d(2)] d(3) by (simp_all add: s2_def)
qed

section \<open>Properties\<close>

text \<open>(C9) \<open>CleanupAll\<close> does exactly this, in this order: for every registered pid file that can be
  read and holds a number, SIGTERM, half a second, SIGKILL; then the same for every registered
  command that is still running; and when it returns, no registered command is running.\<close>

theorem CleanupAll_trace:
  assumes "pm_wf s" and "run_state (CleanupAll S) s = (u, s')"
  shows "hevents s' = hevents s @ concat (map (pid_trace s) (pidFiles (pm s))) @ concat (map (cmd_trace s) (processes (pm s))) \<and>
    (\<forall>a \<in> set (processes (pm s)). running s' a = None) \<and> pm_canceled (pm s')"
  using CleanupAll_effect [OF assms(2,1)] by simp_all

definition demo_rstate :: "(string \<times> string \<times> int) list \<Rightarrow> unit rstate" where
  "demo_rstate fs =
     \<lparr>files = map_of fs, unreadable = (\<lambda>_. False), unremovable = (\<lambda>_. False), cmds = [], hevents = [], ext = (),
      pm = NewProcessManager, streamer = \<lparr>monitored = [], detached = []\<rparr>, workDir = []\<rparr>"

definition demo_busy :: "unit rstate" where
  "demo_busy = (demo_rstate [(''/run/swtpm.pid'', (''4242\<newline>'', 2))])
     \<lparr>cmds := [\<lparr>cmd_path = ''qemu'', cmd_args = [], cmd_Process = Some 77, cmd_ProcessState = False\<rparr>],
      pm := \<lparr>processes = [0], pidFiles = [''/run/swtpm.pid''], pm_canceled = False\<rparr>\<rparr>"

theorem CleanupAll_trace_witness:
  "hevents (snd (run_state (CleanupAll demo_sys) demo_busy)) = escalation 4242 @ escalation 77"
proof -
  have "pm_wf demo_busy" by (simp add: pm_wf_def demo_busy_def)
  from CleanupAll_trace [OF this surjective_pairing]
  have "hevents (snd (run_state (CleanupAll demo_sys) demo_busy)) =
    hevents demo_busy @ concat (map (pid_trace demo_busy) (pidFiles (pm demo_busy))) @ concat (map (cmd_trace demo_busy) (processes (pm demo_busy)))" by blast
  moreover have "pid_trace demo_busy ''/run/swtpm.pid'' = escalation 4242" by code_simp
  ultimately show ?thesis by (simp add: demo_busy_def demo_rstate_def cmd_trace_def)
qed

definition wait_keeps :: "'h sys \<Rightarrow> string \<Rightarrow> bool" where
  "wait_keeps S p \<longleftrightarrow> (\<forall>pid. keeps (sys_Wait S pid) p)"

lemma cleanup_cmds_keep:
  assumes "wait_keeps S p" and "run_state (for_each ps (cleanup_cmd S)) s = (u, s')"
  shows "files s' p = files s p"
proof -
  have "preserves (\<lambda>s. files s p = f) (cleanup_cmd S a)" for a f
    unfolding cleanup_cmd_def cmd_Signal_def cmd_Wait_def cmd_update_def hemit_def time_Sleep_def
    using assms(1) by (intro preserves_rules preserves_modify preserves_prog) (auto simp: wait_keeps_def dest: keepsD)
  from preservesD [OF preserves_for_each [OF this] assms(2)] show ?thesis by simp
qed

text \<open>(C27) A second \<open>CleanupAll\<close> signals nobody: the pid files are gone and the commands have been
  waited for. (Pid files have to be removable, and a process that ends must not bring one back.)\<close>

theorem CleanupAll_twice:
  assumes "pm_wf s" and "run_state (CleanupAll S) s = (u, s1)" and "run_state (CleanupAll S) s1 = (v, s2)"
    and "\<And>p. p \<in> set (pidFiles (pm s)) \<Longrightarrow> \<not> unremovable s p \<and> wait_keeps S p"
  shows "signals_to pid (hevents s2) = signals_to pid (hevents s1)"
proof -
  note e1 = CleanupAll_effect [OF assms(2,1)]
  have wf: "pm_wf s1" using assms(1) e1(4,7) by (simp add: pm_wf_def)
  note e2 = CleanupAll_effect [OF assms(3) wf]
  have "files s1 p = None" if "p \<in> set (pidFiles (pm s))" for p
    using cleanup_cmds_keep [OF _ e1(1), of p] that assms(4) [OF that] by (simp add: removed_def)
  then have p: "signals_to pid (concat (map (pid_trace s1) ps)) = []" if "set ps \<subseteq> set (pidFiles (pm s))" for ps
    using that by (induction ps) (auto simp: pid_trace_def pid_in_def)
  have "signals_to pid (cmd_trace s1 a) = []" if "a \<in> set (processes (pm s))" for a
    using e1(3) that by (auto simp: running_def cmd_trace_def split: option.splits if_splits)
  then have c: "signals_to pid (concat (map (cmd_trace s1) as)) = []" if "set as \<subseteq> set (processes (pm s))" for as
    using that by (induction as) auto
  show ?thesis using e2(2) e1(4) p [of "pidFiles (pm s)"] c [of "processes (pm s)"] by simp
qed

theorem CleanupAll_twice_witness:
  "let s1 = snd (run_state (CleanupAll demo_sys) demo_busy); s2 = snd (run_state (CleanupAll demo_sys) s1)
   in signals_to 4242 (hevents s2) = [SIGTERM, SIGKILL]"
proof -
  let ?s1 = "snd (run_state (CleanupAll demo_sys) demo_busy)"
  have "pm_wf demo_busy" by (simp add: pm_wf_def demo_busy_def)
  from CleanupAll_twice [OF this surjective_pairing surjective_pairing]
  have "signals_to 4242 (hevents (snd (run_state (CleanupAll demo_sys) ?s1))) = signals_to 4242 (hevents ?s1)"
    by (simp add: wait_keeps_def keeps_def demo_sys_def demo_busy_def demo_rstate_def)
  moreover have "signals_to 4242 (hevents ?s1) = [SIGTERM, SIGKILL]" by code_simp
  ultimately show ?thesis by simp
qed

end
