(* ===== verification/Streamer.thy ===== *)
theory Streamer
  imports ProcessManager
begin

text \<open>
  The output streamer of \<open>runner/process_manager.go\<close>. What a stream prints is a function of the
  results of its successive \<open>Read\<close> calls, so the loop of \<open>AttachTagged\<close> is a fold over the chunks
  read; \<open>vm.ProcessEscapeSequences\<close>, external, is the argument \<open>pes\<close>: the bytes to show and an
  incomplete sequence to carry over. A goroutine's lines come out in order, those of two streams in
  any interleaving: the trace records, when the wait group is waited for, the lines of each stream.
\<close>

section \<open>Definitions\<close>

fun IndexByte :: "char \<Rightarrow> string \<Rightarrow> nat option" where
  "IndexByte c [] = None"
| "IndexByte c (x # s) = (if x = c then Some 0 else map_option Suc (IndexByte c s))"

lemma IndexByte_Some: "IndexByte c s = Some i \<Longrightarrow> i < length s"
  by (induction s arbitrary: i) (auto split: if_splits)

abbreviation nl :: char where "nl \<equiv> CHR 0x0A"

text \<open>The inner loop: print every complete line of the buffer that is not empty, keep the rest.\<close>

function drain_lines :: "string list \<Rightarrow> string \<Rightarrow> string list \<times> string" where
  "drain_lines printed lineBuf =
     (case IndexByte nl lineBuf of
        None \<Rightarrow> (printed, lineBuf)
      | Some idx \<Rightarrow> drain_lines (if idx > 0 then printed @ [take idx lineBuf] else printed) (drop (idx + 1) lineBuf))"
  by auto
termination
  by (relation "measure (\<lambda>(_, b). length b)") (auto dest: IndexByte_Some)

declare drain_lines.simps [simp del]

text \<open>One successful \<open>Read\<close>.\<close>

definition tagged_chunk ::
  "(string \<Rightarrow> string \<times> string) \<Rightarrow> string \<Rightarrow> string list \<times> string \<times> string \<Rightarrow> string list \<times> string \<times> string" where
  "tagged_chunk pes chunk st =
     (let (printed, pending, lineBuf) = st in
      if chunk = [] then (printed, pending, lineBuf)
      else
        let (output, incomplete) = pes (pending @ chunk);
            (printed, lineBuf) = drain_lines printed (lineBuf @ output);
            (printed, lineBuf) = (if int (length lineBuf) > 4096 then (printed @ [lineBuf], []) else (printed, lineBuf))
        in (printed, incomplete, lineBuf))"

text \<open>The loop of \<open>AttachTagged\<close>; the last \<open>Read\<close> returns an error, which ends it.\<close>

definition tagged_lines :: "(string \<Rightarrow> string \<times> string) \<Rightarrow> string list \<Rightarrow> string list" where
  "tagged_lines pes chunks =
     (let (printed, pending, lineBuf) = fold (tagged_chunk pes) chunks ([], [], []);
          lineBuf = lineBuf @ pending
      in if lineBuf \<noteq> [] then printed @ [lineBuf] else printed)"

text \<open>\<open>bufio.Scanner\<close> with its default split function and buffer: a line of 64 KiB or more ends the
  scan; a trailing carriage return is dropped; an empty rest after the last newline is no line.\<close>

definition drop_cr :: "string \<Rightarrow> string" where
  "drop_cr s = (if s \<noteq> [] \<and> last s = CHR 0x0D then butlast s else s)"

definition raw_lines :: "string \<Rightarrow> string list" where
  "raw_lines data = (let ps = Split nl data in if last ps = [] then butlast ps else ps)"

definition fits :: "string \<Rightarrow> bool" where
  "fits l \<longleftrightarrow> int (length l) < 65536"

definition scan_lines :: "string \<Rightarrow> string list" where
  "scan_lines data = map drop_cr (takeWhile fits (raw_lines data))"

fun any_pattern :: "string \<Rightarrow> string list \<Rightarrow> bool" where
  "any_pattern line [] = False"
| "any_pattern line (pattern # patterns) = (if Contains line pattern then True else any_pattern line patterns)"

text \<open>The lines a filtered stream prints to standard error.\<close>

fun filter_lines :: "string list \<Rightarrow> string list \<Rightarrow> string list" where
  "filter_lines patterns [] = []"
| "filter_lines patterns (line # ls) =
     (if any_pattern line patterns then line # filter_lines patterns ls else filter_lines patterns ls)"

definition filter_stream :: "string \<Rightarrow> string list \<Rightarrow> string list" where
  "filter_stream data patterns = filter_lines patterns (scan_lines data)"

text \<open>A stream is added to the wait group its type selects.\<close>

definition attach :: "StreamType \<Rightarrow> nat \<times> int \<times> string \<times> string list option \<Rightarrow> ('h rstate, unit) state" where
  "attach streamType e =
     (case streamType of
        Monitored \<Rightarrow> modify (\<lambda>s. s\<lparr>streamer := (streamer s)\<lparr>monitored := monitored (streamer s) @ [e]\<rparr>\<rparr>)
      | Detached \<Rightarrow> modify (\<lambda>s. s\<lparr>streamer := (streamer s)\<lparr>detached := detached (streamer s) @ [e]\<rparr>\<rparr>))"

definition AttachTagged :: "nat \<Rightarrow> int \<Rightarrow> string \<Rightarrow> StreamType \<Rightarrow> ('h rstate, unit) state" where
  "AttachTagged a fd tag streamType = attach streamType (a, fd, tag, None)"

definition AttachFilter :: "nat \<Rightarrow> int \<Rightarrow> string \<Rightarrow> StreamType \<Rightarrow> string list \<Rightarrow> ('h rstate, unit) state" where
  "AttachFilter a fd tag streamType patterns = attach streamType (a, fd, tag, Some patterns)"

text \<open>A goroutine runs until its reader is exhausted.\<close>

definition finish_stream :: "'h sys \<Rightarrow> nat \<times> int \<times> string \<times> string list option \<Rightarrow> ('h rstate, unit) state" where
  "finish_stream S = (\<lambda>(a, fd, tag, filtered). do {
     c \<leftarrow> gets (\<lambda>s. cmds s ! a);
     (case cmd_Process c of
        None \<Rightarrow> ret ()
      | Some pid \<Rightarrow> do {
          chunks \<leftarrow> gets (\<lambda>s. sys_Reads S pid fd (ext s));
          (case filtered of
             None \<Rightarrow> hemit (HStream tag (tagged_lines (vm_ProcessEscapeSequences S) chunks))
           | Some patterns \<Rightarrow> hemit (HStreamErr tag (filter_stream (concat chunks) patterns)))
        })
   })"

definition WaitMonitored :: "'h sys \<Rightarrow> ('h rstate, unit) state" where
  "WaitMonitored S = do {
     ms \<leftarrow> gets (\<lambda>s. monitored (streamer s));
     for_each ms (finish_stream S);
     modify (\<lambda>s. s\<lparr>streamer := (streamer s)\<lparr>monitored := []\<rparr>\<rparr>)
   }"

definition WaitAll :: "'h sys \<Rightarrow> ('h rstate, unit) state" where
  "WaitAll S = do {
     WaitMonitored S;
     ds \<leftarrow> gets (\<lambda>s. detached (streamer s));
     for_each ds (finish_stream S);
     modify (\<lambda>s. s\<lparr>streamer := (streamer s)\<lparr>detached := []\<rparr>\<rparr>)
   }"

text \<open>\<open>MatchSync\<close>: the submatches its callback gets, if it is called; \<open>submatch\<close> is
  \<open>pattern.FindStringSubmatch\<close>.\<close>

fun match_first :: "(string \<Rightarrow> string list) \<Rightarrow> string list \<Rightarrow> string list option" where
  "match_first submatch [] = None"
| "match_first submatch (line # ls) = (if submatch line \<noteq> [] then Some (submatch line) else match_first submatch ls)"

definition MatchSync :: "string \<Rightarrow> (string \<Rightarrow> string list) \<Rightarrow> string list option" where
  "MatchSync data submatch = match_first submatch (scan_lines data)"

section \<open>Lines\<close>

lemma IndexByte_None: "IndexByte c s = None \<longleftrightarrow> c \<notin> set s"
  by (induction s) auto

lemma IndexByte_split: "IndexByte c s = Some i \<Longrightarrow> s = take i s @ c # drop (i + 1) s \<and> c \<notin> set (take i s)"
  by (induction s arbitrary: i) (auto split: if_splits)

lemma Split_glue: "Split c (a @ b) = butlast (Split c a) @ (last (Split c a) @ hd (Split c b)) # tl (Split c b)"
proof (induction a)
  case (Cons x a)
  then show ?case by (cases "Split c a") (auto simp: Split_nonempty)
qed (simp add: Split_nonempty)

lemma last_Split_no_sep: "c \<notin> set (last (Split c s))"
  by (rule Split_parts [of _ c s]) simp

lemma concat_Split: "concat (Split c s) = filter (\<lambda>x. x \<noteq> c) s"
proof (induction s)
  case (Cons x s)
  then show ?case by (cases "Split c s") auto
qed simp

lemma concat_butlast_last: "xs \<noteq> [] \<Longrightarrow> concat (butlast xs) @ last xs = concat xs"
  by (induction xs) auto

definition nonempty :: "string list \<Rightarrow> string list" where
  "nonempty ls = filter (\<lambda>l. l \<noteq> []) ls"

lemma nonempty_simps [simp]:
  "nonempty [] = []" "nonempty (l # ls) = (if l = [] then nonempty ls else l # nonempty ls)"
  "nonempty (as @ bs) = nonempty as @ nonempty bs" "concat (nonempty ls) = concat ls"
  by (auto simp: nonempty_def) (induction ls, auto)

lemma drain_lines_Split: "drain_lines printed buf = (printed @ nonempty (butlast (Split nl buf)), last (Split nl buf))"
proof (induction printed buf rule: drain_lines.induct)
  case (1 printed buf)
  show ?case
  proof (cases "IndexByte nl buf")
    case None
    moreover from None have "nl \<notin> set buf" by (simp add: IndexByte_None)
    ultimately show ?thesis by (simp add: drain_lines.simps [of printed buf] Split_no_sep)
  next
    case (Some i)
    from IndexByte_split [OF Some] have "Split nl buf = take i buf # Split nl (drop (i + 1) buf)"
      using Split_append_sep by metis
    moreover have "take i buf = [] \<longleftrightarrow> i = 0" using IndexByte_Some [OF Some] by auto
    ultimately show ?thesis using 1 [OF Some] Some by (simp add: drain_lines.simps [of printed buf])
  qed
qed

section \<open>Nothing is lost\<close>

text \<open>What \<open>vm.ProcessEscapeSequences\<close> lets through, and what it holds back at the end.\<close>

fun shown :: "(string \<Rightarrow> string \<times> string) \<Rightarrow> string \<Rightarrow> string list \<Rightarrow> string \<times> string" where
  "shown pes pending [] = ([], pending)"
| "shown pes pending (chunk # chunks) =
     (if chunk = [] then shown pes pending chunks
      else let (output, incomplete) = pes (pending @ chunk);
               (rest, held) = shown pes incomplete chunks
           in (output @ rest, held))"

lemma tagged_chunks_bytes:
  assumes "fold (tagged_chunk pes) chunks (printed, pending, lineBuf) = (printed', pending', lineBuf')"
    and "shown pes pending chunks = (out, held)" and "nl \<notin> set lineBuf"
  shows "concat printed' @ lineBuf' = concat printed @ lineBuf @ filter (\<lambda>x. x \<noteq> nl) out \<and> pending' = held"
  using assms
proof (induction chunks arbitrary: printed pending lineBuf out)
  case (Cons chunk chunks)
  show ?case
  proof (cases "chunk = []")
    case False
    obtain outp inc where p: "pes (pending @ chunk) = (outp, inc)" by fastforce
    obtain rest where r: "shown pes inc chunks = (rest, held)" "out = outp @ rest"
      using Cons.prems(2) False p by (auto split: prod.splits)
    let ?ps = "Split nl (lineBuf @ outp)"
    define st where "st = (if int (length (last ?ps)) > 4096 then (printed @ nonempty (butlast ?ps) @ [last ?ps], inc, [])
        else (printed @ nonempty (butlast ?ps), inc, last ?ps))"
    have "tagged_chunk pes chunk (printed, pending, lineBuf) = st"
      using False p by (simp add: tagged_chunk_def drain_lines_Split st_def)
    then obtain pr lb where st: "st = (pr, inc, lb)" "fold (tagged_chunk pes) chunks (pr, inc, lb) = (printed', pending', lineBuf')"
      using Cons.prems(1) by (cases st) (auto simp: st_def split: if_splits)
    have "nl \<notin> set lb" using st(1) last_Split_no_sep [of nl "lineBuf @ outp"] by (auto simp: st_def split: if_splits)
    from Cons.IH [OF st(2) r(1) this]
    have "concat printed' @ lineBuf' = concat pr @ lb @ filter (\<lambda>x. x \<noteq> nl) rest \<and> pending' = held" .
    moreover have "concat pr @ lb = concat printed @ concat ?ps"
      using st(1) concat_butlast_last [of ?ps] by (auto simp: st_def split: if_splits)
    moreover have "filter (\<lambda>x. x \<noteq> nl) lineBuf = lineBuf" using Cons.prems(3) by (intro filter_id_set) auto
    ultimately show ?thesis using r(2) by (simp add: concat_Split)
  qed (use Cons in \<open>simp add: tagged_chunk_def\<close>)
qed simp

text \<open>(C11) A tagged stream loses no byte: put together, the printed lines are what the escape-sequence
  filter let through, without the newlines, followed by what it held back; however the output
  was cut into reads, and even when a line exceeds the 4096-byte buffer and is printed in parts.\<close>

theorem tagged_lines_lossless:
  "concat (tagged_lines pes chunks) =
     filter (\<lambda>x. x \<noteq> nl) (fst (shown pes [] chunks)) @ snd (shown pes [] chunks)"
proof -
  obtain pr pe lb where f: "fold (tagged_chunk pes) chunks ([], [], []) = (pr, pe, lb)" by (metis prod_cases3)
  have "concat pr @ lb = filter (\<lambda>x. x \<noteq> nl) (fst (shown pes [] chunks)) \<and> pe = snd (shown pes [] chunks)"
    using tagged_chunks_bytes [OF f, of "fst (shown pes [] chunks)" "snd (shown pes [] chunks)"] by simp
  then show ?thesis by (auto simp: tagged_lines_def f simp flip: append.assoc)
qed

section \<open>Independence of the reads\<close>

lemma prefix_line_length:
  assumes "\<forall>l \<in> set (Split nl (a @ b)). int (length l) \<le> 4096"
  shows "int (length (last (Split nl a))) \<le> 4096"
proof -
  have "last (Split nl a) @ hd (Split nl b) \<in> set (Split nl (a @ b))" by (simp add: Split_glue [of nl a b])
  with assms have "int (length (last (Split nl a) @ hd (Split nl b))) \<le> 4096" by blast
  then show ?thesis by simp
qed

lemma Split_resume:
  "nonempty (butlast (Split nl a)) @ nonempty (butlast (Split nl (last (Split nl a) @ b))) = nonempty (butlast (Split nl (a @ b)))"
  "last (Split nl (last (Split nl a) @ b)) = last (Split nl (a @ b))"
proof -
  have s: "Split nl (last (Split nl a) @ b) = (last (Split nl a) @ hd (Split nl b)) # tl (Split nl b)"
    by (subst Split_glue) (simp add: Split_no_sep [OF last_Split_no_sep])
  show "last (Split nl (last (Split nl a) @ b)) = last (Split nl (a @ b))"
    by (simp add: s Split_glue [of nl a b])
  show "nonempty (butlast (Split nl a)) @ nonempty (butlast (Split nl (last (Split nl a) @ b))) = nonempty (butlast (Split nl (a @ b)))"
    by (simp add: s Split_glue [of nl a b] butlast_append)
qed

lemma tagged_chunks_shown:
  assumes "shown pes ra chunks = (out, held)" and "\<forall>l \<in> set (Split nl (oa @ out)). int (length l) \<le> 4096"
  shows "fold (tagged_chunk pes) chunks (nonempty (butlast (Split nl oa)), ra, last (Split nl oa)) =
    (nonempty (butlast (Split nl (oa @ out))), held, last (Split nl (oa @ out)))"
  using assms
proof (induction chunks arbitrary: oa ra out)
  case (Cons chunk chunks)
  show ?case
  proof (cases "chunk = []")
    case False
    obtain ob rb where b: "pes (ra @ chunk) = (ob, rb)" by fastforce
    obtain rest where r: "shown pes rb chunks = (rest, held)" "out = ob @ rest"
      using Cons.prems(1) False b by (auto split: prod.splits)
    have "int (length (last (Split nl (oa @ ob)))) \<le> 4096"
      using prefix_line_length [of "oa @ ob" rest] Cons.prems(2) r(2) by simp
    then have "tagged_chunk pes chunk (nonempty (butlast (Split nl oa)), ra, last (Split nl oa)) =
      (nonempty (butlast (Split nl (oa @ ob))), rb, last (Split nl (oa @ ob)))"
      using False b by (simp add: tagged_chunk_def drain_lines_Split Split_resume)
    then show ?thesis using Cons.IH [OF r(1), of "oa @ ob"] Cons.prems(2) r(2) by simp
  qed (use Cons in \<open>simp add: tagged_chunk_def\<close>)
qed simp

text \<open>(C10) Where no line of what the escape-sequence filter lets through is longer than 4096 bytes, the
  reads matter only through the filter: a tagged stream prints, once each and in order, the non-empty
  lines of what it let through, the last one with what it held back.\<close>

theorem tagged_lines_chunk_independent:
  assumes "\<forall>l \<in> set (Split nl (fst (shown pes [] chunks))). int (length l) \<le> 4096"
  shows "tagged_lines pes chunks =
    (let (out, held) = shown pes [] chunks; ls = Split nl out
     in filter (\<lambda>l. l \<noteq> []) (butlast ls @ [last ls @ held]))"
proof -
  obtain out held where p: "shown pes [] chunks = (out, held)" by fastforce
  have "fold (tagged_chunk pes) chunks ([], [], []) = (nonempty (butlast (Split nl out)), held, last (Split nl out))"
    using tagged_chunks_shown [OF p, of "[]"] assms p by simp
  then show ?thesis by (simp add: tagged_lines_def p nonempty_def Let_def)
qed

text \<open>A filter that drops two-byte escape sequences, for concrete runs.\<close>

fun demo_pes :: "string \<Rightarrow> string \<times> string" where
  "demo_pes [] = ([], [])"
| "demo_pes [x] = (if x = CHR 0x1B then ([], [x]) else ([x], []))"
| "demo_pes (x # y # s) =
     (if x = CHR 0x1B then demo_pes s else (let (out, held) = demo_pes (y # s) in (x # out, held)))"

theorem tagged_lines_chunk_independent_witness:
  "tagged_lines demo_pes [''boo'', ''t'' @ [CHR 0x1B], ''[ok\<newline>'', [], ''\<newline>login: ''] = [''bootok'', ''login: '']"
proof -
  let ?cs = "[''boo'', ''t'' @ [CHR 0x1B], ''[ok\<newline>'', [], ''\<newline>login: '']"
  have "\<forall>l \<in> set (Split nl (fst (shown demo_pes [] ?cs))). int (length l) \<le> 4096" by code_simp
  from tagged_lines_chunk_independent [OF this]
  have "tagged_lines demo_pes ?cs =
    (let (out, held) = shown demo_pes [] ?cs; ls = Split nl out in filter (\<lambda>l. l \<noteq> []) (butlast ls @ [last ls @ held]))" .
  also have "\<dots> = [''bootok'', ''login: '']" by code_simp
  finally show ?thesis .
qed

section \<open>Filtering and matching\<close>

lemma any_pattern_iff: "any_pattern line patterns \<longleftrightarrow> (\<exists>p \<in> set patterns. sublist p line)"
  by (induction patterns) (auto simp: Contains_iff)

lemma filter_lines_eq: "filter_lines patterns ls = filter (\<lambda>l. \<exists>p \<in> set patterns. sublist p l) ls"
  by (induction ls) (simp_all add: any_pattern_iff)

lemma sublist_any: "(\<lambda>l. \<exists>p \<in> set ps. sublist p l) = (\<lambda>l. list_ex (Contains l) ps)"
  by (simp add: fun_eq_iff list_ex_iff Contains_iff)

text \<open>\<open>AttachFilter\<close> prints, once each and in order, the lines that contain one of the patterns, as
  long as every line fits the scanner's 64 KiB buffer.\<close>

theorem AttachFilter_prints:
  assumes "\<forall>l \<in> set (raw_lines data). int (length l) < 65536"
  shows "filter_stream data patterns =
    filter (\<lambda>l. \<exists>p \<in> set patterns. sublist p l) (map drop_cr (raw_lines data))"
proof -
  have "takeWhile fits (raw_lines data) = raw_lines data" using assms by (intro takeWhile_eq_all_conv [THEN iffD2]) (simp add: fits_def)
  then show ?thesis by (simp only: filter_stream_def scan_lines_def filter_lines_eq)
qed

theorem AttachFilter_prints_witness:
  "filter_stream ''a: error\<newline>b: fine\<newline>c: error, panic'' [''error'', ''panic''] = [''a: error'', ''c: error, panic'']"
proof -
  let ?d = "''a: error\<newline>b: fine\<newline>c: error, panic''"
  have "\<forall>l \<in> set (raw_lines ?d). int (length l) < 65536" by code_simp
  from AttachFilter_prints [OF this, of "[''error'', ''panic'']"]
  have "filter_stream ?d [''error'', ''panic''] =
    filter (\<lambda>l. list_ex (Contains l) [''error'', ''panic'']) (map drop_cr (raw_lines ?d))"
    unfolding sublist_any .
  also have "\<dots> = [''a: error'', ''c: error, panic'']" by code_simp
  finally show ?thesis .
qed

lemma raw_lines_cut: "raw_lines (pre @ nl # long @ rest) = Split nl pre @ raw_lines (long @ rest)"
  by (auto simp: raw_lines_def Let_def Split_append butlast_append)

lemma raw_lines_end: "raw_lines (pre @ [nl]) = Split nl pre"
  by (simp add: raw_lines_def Split_append)

lemma hd_raw_lines:
  assumes "nl \<notin> set long" and "long \<noteq> []"
  obtains r ls where "raw_lines (long @ rest) = (long @ r) # ls"
proof -
  have s: "Split nl (long @ rest) = (long @ hd (Split nl rest)) # tl (Split nl rest)"
    using assms by (simp add: Split_glue [of nl long rest] Split_no_sep)
  show thesis
  proof (cases "last (Split nl (long @ rest)) = []")
    case True
    then have "tl (Split nl rest) \<noteq> []" using s assms(2) by auto
    with True s have "raw_lines (long @ rest) = (long @ hd (Split nl rest)) # butlast (tl (Split nl rest))"
      by (simp add: raw_lines_def Let_def)
    then show ?thesis by (rule that)
  next
    case False
    then have "raw_lines (long @ rest) = (long @ hd (Split nl rest)) # tl (Split nl rest)"
      by (simp add: raw_lines_def Let_def s)
    then show ?thesis by (rule that)
  qed
qed

text \<open>(C36) At a line of 64 KiB or more the scan ends, silently: whatever the guest prints in that line
  or after it is not looked at.\<close>

theorem AttachFilter_stops:
  assumes "nl \<notin> set long" and "65536 \<le> int (length long)"
  shows "filter_stream (pre @ nl # long @ rest) patterns = filter_stream (pre @ [nl]) patterns"
proof -
  have "long \<noteq> []" using assms(2) by auto
  from hd_raw_lines [OF assms(1) this] obtain r ls where "raw_lines (long @ rest) = (long @ r) # ls" .
  moreover have "\<not> fits (long @ r)" for r using assms(2) by (simp add: fits_def)
  ultimately have "takeWhile fits (Split nl pre @ raw_lines (long @ rest)) = takeWhile fits (Split nl pre)"
    by (simp add: takeWhile_tail)
  then show ?thesis by (simp add: filter_stream_def scan_lines_def raw_lines_cut raw_lines_end)
qed

theorem AttachFilter_stops_witness:
  "filter_stream (''panic'' @ nl # replicate 65536 (CHR ''x'') @ ''\<newline>panic'') [''panic''] = [''panic'']"
proof -
  have "nl \<notin> set (replicate 65536 (CHR ''x''))" by simp
  moreover have "65536 \<le> int (length (replicate 65536 (CHR ''x'')))" by simp
  ultimately have "filter_stream (''panic'' @ nl # replicate 65536 (CHR ''x'') @ ''\<newline>panic'') [''panic''] =
    filter_stream (''panic'' @ [nl]) [''panic'']" by (rule AttachFilter_stops)
  also have "\<dots> = [''panic'']" by code_simp
  finally show ?thesis .
qed

text \<open>\<open>MatchSync\<close> calls back with the submatches of the first line that matches.\<close>

lemma MatchSync_first:
  "MatchSync data submatch = map_option submatch (List.find (\<lambda>l. submatch l \<noteq> []) (scan_lines data))"
proof -
  have "match_first submatch ls = map_option submatch (List.find (\<lambda>l. submatch l \<noteq> []) ls)" for ls
    by (induction ls) auto
  then show ?thesis by (simp add: MatchSync_def)
qed

end
