(* ===== verification/QemuArgs.thy ===== *)
theory QemuArgs
  imports GoStd
begin

text \<open>
  The configuration of a runner (\<open>runner/config.go\<close>, \<open>runner/runner.go\<close>) and the QEMU command line
  built from it (\<open>runner/qemu.go\<close>). \<open>runtime.GOOS\<close> and \<open>runtime.GOARCH\<close> are the arguments \<open>GOOS\<close> and
  \<open>GOARCH\<close>.
\<close>

section \<open>Definitions\<close>

record ToolPaths =
  QemuSystem :: string
  QemuImg :: string
  OVMFCode :: string
  OVMFVars :: string
  Swtpm :: string
  SwtpmSetup :: string

record TransitNetwork =
  IPv4 :: string
  IPv6 :: string

record RunnerConfig =
  ServerName :: string
  WorkDir :: string
  Mode :: string
  Tools :: ToolPaths
  MachineType :: string
  TapDevice :: string
  SecondTapDevice :: string
  MacAddress :: string
  BridgeName :: string
  DiskSize :: string
  Memory :: string
  CPUs :: int
  TPMPristinePath :: string
  ISOPath :: string
  Transit :: TransitNetwork
  OutputMode :: string
  ShutdownMode :: bool
  NoCleanup :: bool

definition DefaultToolPaths :: "string \<Rightarrow> ToolPaths" where
  "DefaultToolPaths GOARCH =
     (let qemuSystem = (if GOARCH = ''arm64'' then ''qemu-system-aarch64'' else ''qemu-system-x86_64'') in
      \<lparr>QemuSystem = qemuSystem, QemuImg = ''qemu-img'', OVMFCode = [], OVMFVars = [],
       Swtpm = ''swtpm'', SwtpmSetup = ''swtpm_setup''\<rparr>)"

text \<open>What \<open>NewRunner\<close> does to the configuration it is given.\<close>

definition defaulted :: "string \<Rightarrow> RunnerConfig \<Rightarrow> RunnerConfig" where
  "defaulted GOARCH config =
     (let config = (if BridgeName config = [] then config\<lparr>BridgeName := ''mltt-br0''\<rparr> else config);
          tp = Tools config;
          tp = (if QemuSystem tp = [] then tp\<lparr>QemuSystem := QemuSystem (DefaultToolPaths GOARCH)\<rparr> else tp);
          tp = (if QemuImg tp = [] then tp\<lparr>QemuImg := ''qemu-img''\<rparr> else tp);
          tp = (if Swtpm tp = [] then tp\<lparr>Swtpm := ''swtpm''\<rparr> else tp);
          tp = (if SwtpmSetup tp = [] then tp\<lparr>SwtpmSetup := ''swtpm_setup''\<rparr> else tp)
      in config\<lparr>Tools := tp\<rparr>)"

definition defaultMachineType :: "string \<Rightarrow> string \<Rightarrow> string" where
  "defaultMachineType GOOS GOARCH =
     (if GOOS = ''darwin'' then
        (if GOARCH = ''arm64'' then ''virt,accel=hvf'' else ''q35,accel=hvf'')
      else if GOARCH = ''arm64'' then ''virt,accel=kvm''
      else ''q35,accel=kvm,smm=on'')"

definition buildQEMUArgs ::
  "string \<Rightarrow> string \<Rightarrow> RunnerConfig \<Rightarrow> string \<Rightarrow> string \<Rightarrow> string \<Rightarrow> string \<Rightarrow> string \<Rightarrow> bool \<Rightarrow> string \<Rightarrow> string \<Rightarrow> bool \<Rightarrow> string list" where
  "buildQEMUArgs GOOS GOARCH config ovmfCode varsPath diskPath isoPath tpmSocket bootFromISO tapName secondTapName directMode =
     (let memory = Memory config;
          memory = (if memory = [] then ''6G'' else memory);
          cpus = CPUs config;
          cpus = (if cpus = 0 then 2 else cpus);
          machineType = MachineType config;
          machineType = (if machineType = [] then defaultMachineType GOOS GOARCH else machineType);
          cpuModel = (if Contains machineType ''accel=tcg'' then ''max'' else ''host'');
          args = [''-name'', ServerName config, ''-machine'', machineType, ''-cpu'', cpuModel, ''-m'', memory,
                  ''-smp'', show_int cpus, ''-device'', ''virtio-rng-pci''];
          netdevArg = ''tap,id=net0,ifname='' @ tapName @ '',script=no,downscript=no'';
          deviceArg = ''virtio-net-pci,netdev=net0'';
          deviceArg = (if MacAddress config \<noteq> [] then ''virtio-net-pci,netdev=net0,mac='' @ MacAddress config else deviceArg);
          args = args @ [''-netdev'', netdevArg, ''-device'', deviceArg];
          args = (if secondTapName \<noteq> [] then
                    args @ [''-netdev'', ''tap,id=net1,ifname='' @ secondTapName @ '',script=no,downscript=no'',
                            ''-device'', ''virtio-net-pci,netdev=net1,addr=0x6'']
                  else args);
          args = args @ [''-chardev'', ''socket,id=char0,path='' @ tpmSocket,
                         ''-tpmdev'', ''emulator,id=tpm0,chardev=char0'',
                         ''-device'', ''tpm-tis,tpmdev=tpm0''];
          args = args @ [''-global'', ''driver=cfi.pflash01,property=secure,value=on'',
                         ''-drive'', ''if=pflash,format=raw,unit=0,file='' @ ovmfCode @ '',readonly=on'',
                         ''-drive'', ''if=pflash,format=raw,unit=1,file='' @ varsPath];
          args = (if bootFromISO \<and> isoPath \<noteq> [] then
                    args @ [''-device'', ''virtio-scsi-pci,id=scsi0,addr=0x4'',
                            ''-drive'', ''file='' @ isoPath @ '',format=raw,cache=none,media=cdrom,if=none,id=cd0'',
                            ''-device'', ''scsi-cd,bus=scsi0.0,drive=cd0,bootindex=0'',
                            ''-drive'', ''file='' @ diskPath @ '',format=raw,if=none,id=disk'',
                            ''-device'', ''virtio-blk-pci,drive=disk,addr=0x5,bootindex=1'']
                  else
                    args @ [''-drive'', ''file='' @ diskPath @ '',format=raw,if=none,id=disk'',
                            ''-device'', ''virtio-blk-pci,drive=disk,addr=0x5,bootindex=0''])
      in if directMode then args @ [''-nographic'']
         else args @ [''-serial'', ''stdio'', ''-display'', ''none''])"

section \<open>Reading a command line\<close>

text \<open>How QEMU reads it: flags with one value each, and a value as comma-separated properties.\<close>

fun values_of :: "string \<Rightarrow> string list \<Rightarrow> string list" where
  "values_of f (a # v # rest) = (if a = f then v # values_of f rest else values_of f rest)"
| "values_of f _ = []"

fun lookup_prop :: "string \<Rightarrow> string list \<Rightarrow> string option" where
  "lookup_prop k [] = None"
| "lookup_prop k (p # ps) = (if HasPrefix p (k @ ''='') then Some (drop (length k + 1) p) else lookup_prop k ps)"

definition qprop :: "string \<Rightarrow> string \<Rightarrow> string option" where
  "qprop k v = lookup_prop k (Split (CHR '','') v)"

definition qprops :: "string \<Rightarrow> string list \<Rightarrow> string list" where
  "qprops k vs = List.map_filter (qprop k) vs"

lemma values_of_append:
  "even (length xs) \<Longrightarrow> values_of f (xs @ ys) = values_of f xs @ values_of f ys"
  by (induction f xs rule: values_of.induct) auto

lemma qprops_simps [simp]:
  "qprops k [] = []" "qprops k (v # vs) = (case qprop k v of None \<Rightarrow> qprops k vs | Some x \<Rightarrow> x # qprops k vs)"
  "qprops k (us @ vs) = qprops k us @ qprops k vs"
  by (simp_all add: qprops_def map_filter_simps map_filter_def split: option.splits)

definition nic_device :: "RunnerConfig \<Rightarrow> string" where
  "nic_device config = (if MacAddress config \<noteq> [] then ''virtio-net-pci,netdev=net0,mac='' @ MacAddress config else ''virtio-net-pci,netdev=net0'')"

lemma device_values:
  "values_of ''-device'' (buildQEMUArgs GOOS GOARCH config ovmfCode varsPath diskPath isoPath tpmSocket bootFromISO tapName secondTapName directMode) =
    [''virtio-rng-pci'', nic_device config] @ (if secondTapName \<noteq> [] then [''virtio-net-pci,netdev=net1,addr=0x6''] else []) @
    [''tpm-tis,tpmdev=tpm0''] @
    (if bootFromISO \<and> isoPath \<noteq> [] then [''virtio-scsi-pci,id=scsi0,addr=0x4'', ''scsi-cd,bus=scsi0.0,drive=cd0,bootindex=0'',
        ''virtio-blk-pci,drive=disk,addr=0x5,bootindex=1'']
     else [''virtio-blk-pci,drive=disk,addr=0x5,bootindex=0''])"
  unfolding buildQEMUArgs_def nic_device_def Let_def by (simp add: values_of_append)

lemma netdev_values:
  "values_of ''-netdev'' (buildQEMUArgs GOOS GOARCH config ovmfCode varsPath diskPath isoPath tpmSocket bootFromISO tapName secondTapName directMode) =
    (''tap,id=net0,ifname='' @ tapName @ '',script=no,downscript=no'') #
    (if secondTapName \<noteq> [] then [''tap,id=net1,ifname='' @ secondTapName @ '',script=no,downscript=no''] else [])"
  unfolding buildQEMUArgs_def Let_def by (simp add: values_of_append)

lemma drive_values:
  "values_of ''-drive'' (buildQEMUArgs GOOS GOARCH config ovmfCode varsPath diskPath isoPath tpmSocket bootFromISO tapName secondTapName directMode) =
    [''if=pflash,format=raw,unit=0,file='' @ ovmfCode @ '',readonly=on'', ''if=pflash,format=raw,unit=1,file='' @ varsPath] @
    (if bootFromISO \<and> isoPath \<noteq> [] then [''file='' @ isoPath @ '',format=raw,cache=none,media=cdrom,if=none,id=cd0''] else []) @
    [''file='' @ diskPath @ '',format=raw,if=none,id=disk'']"
  unfolding buildQEMUArgs_def Let_def by (simp add: values_of_append)

lemma tpm_values:
  "values_of ''-chardev'' (buildQEMUArgs GOOS GOARCH config ovmfCode varsPath diskPath isoPath tpmSocket bootFromISO tapName secondTapName directMode) =
    [''socket,id=char0,path='' @ tpmSocket]"
  "values_of ''-tpmdev'' (buildQEMUArgs GOOS GOARCH config ovmfCode varsPath diskPath isoPath tpmSocket bootFromISO tapName secondTapName directMode) =
    [''emulator,id=tpm0,chardev=char0'']"
  unfolding buildQEMUArgs_def Let_def by (simp_all add: values_of_append)

lemma qprop_nic:
  "CHR '','' \<notin> set (MacAddress config) \<Longrightarrow> qprop ''netdev'' (nic_device config) = Some ''net0''"
  "CHR '','' \<notin> set (MacAddress config) \<Longrightarrow> qprop ''id'' (nic_device config) = None"
  "CHR '','' \<notin> set (MacAddress config) \<Longrightarrow> qprop ''tpmdev'' (nic_device config) = None"
  "CHR '','' \<notin> set (MacAddress config) \<Longrightarrow> qprop ''drive'' (nic_device config) = None"
  "CHR '','' \<notin> set (MacAddress config) \<Longrightarrow> qprop ''bootindex'' (nic_device config) = None"
  "CHR '','' \<notin> set (MacAddress config) \<Longrightarrow> qprop ''bus'' (nic_device config) = None"
  "CHR '','' \<notin> set (MacAddress config) \<Longrightarrow> qprop ''addr'' (nic_device config) = None"
  by (simp_all add: nic_device_def qprop_def Split_no_sep)

definition comma_free :: "string \<Rightarrow> bool" where
  "comma_free s \<longleftrightarrow> CHR '','' \<notin> set s"

lemmas qprop_eval = qprop_def Split_append_sep Split_no_sep comma_free_def

lemma device_refs:
  assumes "args = buildQEMUArgs GOOS GOARCH config ovmfCode varsPath diskPath isoPath tpmSocket bootFromISO tapName secondTapName directMode" and "comma_free (MacAddress config)"
  shows "qprops ''netdev'' (values_of ''-device'' args) = ''net0'' # (if secondTapName \<noteq> [] then [''net1''] else [])"
    and "qprops ''tpmdev'' (values_of ''-device'' args) = [''tpm0'']"
    and "qprops ''drive'' (values_of ''-device'' args) = (if bootFromISO \<and> isoPath \<noteq> [] then [''cd0'', ''disk''] else [''disk''])"
    and "qprops ''id'' (values_of ''-device'' args) = (if bootFromISO \<and> isoPath \<noteq> [] then [''scsi0''] else [])"
  using assms(2) qprop_nic [of config] unfolding assms(1) device_values
  by (simp_all add: comma_free_def) (simp_all add: qprop_def)

lemma device_places:
  assumes "args = buildQEMUArgs GOOS GOARCH config ovmfCode varsPath diskPath isoPath tpmSocket bootFromISO tapName secondTapName directMode" and "comma_free (MacAddress config)"
  shows "qprops ''bus'' (values_of ''-device'' args) = (if bootFromISO \<and> isoPath \<noteq> [] then [''scsi0.0''] else [])"
    and "distinct (qprops ''addr'' (values_of ''-device'' args))"
    and "list_all (\<lambda>d. qprop ''id'' d = None \<or> HasPrefix d ''virtio-scsi-pci,'') (values_of ''-device'' args)"
  using assms(2) qprop_nic [of config] unfolding assms(1) device_values
  by (simp_all add: comma_free_def) (simp_all add: qprop_def)

lemma backend_ids:
  assumes "args = buildQEMUArgs GOOS GOARCH config ovmfCode varsPath diskPath isoPath tpmSocket bootFromISO tapName secondTapName directMode"
  shows "qprops ''id'' (values_of ''-netdev'' args) = ''net0'' # (if secondTapName \<noteq> [] then [''net1''] else [])"
    and "qprops ''id'' (values_of ''-chardev'' args) = [''char0'']"
    and "qprops ''id'' (values_of ''-tpmdev'' args) = [''tpm0'']"
    and "qprops ''chardev'' (values_of ''-tpmdev'' args) = [''char0'']"
  unfolding assms netdev_values tpm_values by (simp_all add: qprop_def)

lemma drive_ids:
  assumes "args = buildQEMUArgs GOOS GOARCH config ovmfCode varsPath diskPath isoPath tpmSocket bootFromISO tapName secondTapName directMode"
    and "comma_free ovmfCode" "comma_free varsPath" "comma_free diskPath" "comma_free isoPath"
  shows "qprops ''id'' (values_of ''-drive'' args) = (if bootFromISO \<and> isoPath \<noteq> [] then [''cd0'', ''disk''] else [''disk''])"
  using assms(2-5) unfolding assms(1) drive_values by (simp add: qprop_eval)

text \<open>(C12) On the command line every reference resolves and no backend is left unused: each network
  device has its own netdev, the TPM device its tpmdev and that one its chardev, each disk and
  CD-ROM device its drive, and the bus a device is put on is the first one of a SCSI controller that is there; no
  identifier and no PCI address is given twice. All this provided the MAC address and the paths put into the
  command line have no comma (QEMU would take what follows as further properties).\<close>

theorem qemu_args_references:
  assumes "list_all comma_free [MacAddress config, ovmfCode, varsPath, diskPath, isoPath]"
    and "args = buildQEMUArgs GOOS GOARCH config ovmfCode varsPath diskPath isoPath tpmSocket bootFromISO tapName secondTapName directMode"
  shows "qprops ''netdev'' (values_of ''-device'' args) = qprops ''id'' (values_of ''-netdev'' args) \<and>
    qprops ''tpmdev'' (values_of ''-device'' args) = qprops ''id'' (values_of ''-tpmdev'' args) \<and>
    qprops ''chardev'' (values_of ''-tpmdev'' args) = qprops ''id'' (values_of ''-chardev'' args) \<and>
    qprops ''drive'' (values_of ''-device'' args) = qprops ''id'' (values_of ''-drive'' args) \<and>
    qprops ''bus'' (values_of ''-device'' args) = map (\<lambda>i. i @ ''.0'') (qprops ''id'' (values_of ''-device'' args)) \<and>
    list_all (\<lambda>d. qprop ''id'' d = None \<or> HasPrefix d ''virtio-scsi-pci,'') (values_of ''-device'' args) \<and>
    distinct (concat (map (\<lambda>f. qprops ''id'' (values_of f args)) [''-netdev'', ''-chardev'', ''-tpmdev'', ''-drive'', ''-device''])) \<and>
    distinct (qprops ''addr'' (values_of ''-device'' args))"
proof -
  have c: "comma_free (MacAddress config)" "comma_free ovmfCode" "comma_free varsPath" "comma_free diskPath" "comma_free isoPath"
    using assms(1) by simp_all
  show ?thesis
    unfolding device_refs [OF assms(2) c(1)] backend_ids [OF assms(2)] drive_ids [OF assms(2) c(2-5)] list.map
    using device_places [OF assms(2) c(1)] by simp
qed

definition demo_config :: RunnerConfig where
  "demo_config = \<lparr>ServerName = ''vm1'', WorkDir = ''/work/vm1'', Mode = ''build'',
     Tools = \<lparr>QemuSystem = ''qemu'', QemuImg = ''qemu-img'', OVMFCode = ''/fw/code.fd'', OVMFVars = ''/fw/vars.fd'',
              Swtpm = ''swtpm'', SwtpmSetup = ''swtpm_setup''\<rparr>,
     MachineType = [], TapDevice = ''tap0'', SecondTapDevice = [], MacAddress = ''02:00:00:00:00:01'', BridgeName = ''br0'',
     DiskSize = [], Memory = [], CPUs = 0, TPMPristinePath = [], ISOPath = ''/iso/os.iso'',
     Transit = \<lparr>IPv4 = [], IPv6 = []\<rparr>, OutputMode = ''tagged'', ShutdownMode = False, NoCleanup = False\<rparr>"

theorem qemu_args_references_witness:
  "qprops ''drive'' (values_of ''-device'' (buildQEMUArgs ''linux'' ''amd64'' demo_config ''/c'' ''/v'' ''/d'' ''/i'' ''/s'' True ''t0'' ''t1'' False))
     = [''cd0'', ''disk'']"
proof -
  let ?args = "buildQEMUArgs ''linux'' ''amd64'' demo_config ''/c'' ''/v'' ''/d'' ''/i'' ''/s'' True ''t0'' ''t1'' False"
  have "list_all comma_free [MacAddress demo_config, ''/c'', ''/v'', ''/d'', ''/i'']" by code_simp
  from qemu_args_references [OF this refl, of "''linux''" "''amd64''" "''/s''" True "''t0''" "''t1''" False]
  have "qprops ''drive'' (values_of ''-device'' ?args) = qprops ''id'' (values_of ''-drive'' ?args)" by blast
  also have "\<dots> = [''cd0'', ''disk'']" by code_simp
  finally show ?thesis .
qed

text \<open>The file behind the boot device of a given index.\<close>

definition drive_file :: "string list \<Rightarrow> string \<Rightarrow> string option" where
  "drive_file args n =
     (case List.find (\<lambda>v. qprop ''id'' v = Some n) (values_of ''-drive'' args) of None \<Rightarrow> None | Some v \<Rightarrow> qprop ''file'' v)"

definition boot_file :: "string \<Rightarrow> string list \<Rightarrow> string option" where
  "boot_file i args =
     (case List.find (\<lambda>d. qprop ''bootindex'' d = Some i) (values_of ''-device'' args) of
        None \<Rightarrow> None
      | Some d \<Rightarrow> (case qprop ''drive'' d of None \<Rightarrow> None | Some n \<Rightarrow> drive_file args n))"

lemma drive_files:
  assumes "args = buildQEMUArgs GOOS GOARCH config ovmfCode varsPath diskPath isoPath tpmSocket bootFromISO tapName secondTapName directMode"
    and "comma_free ovmfCode" "comma_free varsPath" "comma_free diskPath" "comma_free isoPath"
  shows "bootFromISO \<and> isoPath \<noteq> [] \<Longrightarrow> drive_file args ''cd0'' = Some isoPath" "drive_file args ''disk'' = Some diskPath"
  using assms(2-5) unfolding drive_file_def assms(1) drive_values by (simp_all add: qprop_eval)

lemma boot_indices:
  "qprop ''bootindex'' ''virtio-rng-pci'' = None" "qprop ''bootindex'' ''virtio-net-pci,netdev=net1,addr=0x6'' = None"
  "qprop ''bootindex'' ''tpm-tis,tpmdev=tpm0'' = None" "qprop ''bootindex'' ''virtio-scsi-pci,id=scsi0,addr=0x4'' = None"
  "qprop ''bootindex'' ''scsi-cd,bus=scsi0.0,drive=cd0,bootindex=0'' = Some ''0''"
  "qprop ''bootindex'' ''virtio-blk-pci,drive=disk,addr=0x5,bootindex=1'' = Some ''1''"
  "qprop ''bootindex'' ''virtio-blk-pci,drive=disk,addr=0x5,bootindex=0'' = Some ''0''"
  by (simp_all add: qprop_def)

lemma boot_device:
  assumes "comma_free (MacAddress config)"
  shows "List.find (\<lambda>d. qprop ''bootindex'' d = Some i) (values_of ''-device''
     (buildQEMUArgs GOOS GOARCH config ovmfCode varsPath diskPath isoPath tpmSocket bootFromISO tapName secondTapName directMode)) =
    (if bootFromISO \<and> isoPath \<noteq> [] then
       (if i = ''0'' then Some ''scsi-cd,bus=scsi0.0,drive=cd0,bootindex=0''
        else if i = ''1'' then Some ''virtio-blk-pci,drive=disk,addr=0x5,bootindex=1'' else None)
     else if i = ''0'' then Some ''virtio-blk-pci,drive=disk,addr=0x5,bootindex=0'' else None)"
proof -
  have n: "qprop ''bootindex'' (nic_device config) = None" using assms qprop_nic(5) by (simp add: comma_free_def)
  show ?thesis unfolding device_values
    by (cases bootFromISO; cases "isoPath = []"; cases "secondTapName = []") (simp_all add: n boot_indices)
qed

text \<open>(C13) The VM boots from the CD-ROM exactly when it is told to and there is an ISO, with the disk
  second; otherwise it boots from the disk, and no other device is bootable.\<close>

theorem qemu_args_boot_order:
  assumes "list_all comma_free [MacAddress config, ovmfCode, varsPath, diskPath, isoPath]"
    and "args = buildQEMUArgs GOOS GOARCH config ovmfCode varsPath diskPath isoPath tpmSocket bootFromISO tapName secondTapName directMode"
  shows "boot_file i args =
    (if bootFromISO \<and> isoPath \<noteq> []
     then (if i = ''0'' then Some isoPath else if i = ''1'' then Some diskPath else None)
     else (if i = ''0'' then Some diskPath else None))"
proof -
  have c: "comma_free (MacAddress config)" "comma_free ovmfCode" "comma_free varsPath" "comma_free diskPath" "comma_free isoPath"
    using assms(1) by simp_all
  note f = drive_files [OF assms(2) c(2-5)]
  have q: "qprop ''drive'' ''scsi-cd,bus=scsi0.0,drive=cd0,bootindex=0'' = Some ''cd0''"
    "qprop ''drive'' ''virtio-blk-pci,drive=disk,addr=0x5,bootindex=1'' = Some ''disk''"
    "qprop ''drive'' ''virtio-blk-pci,drive=disk,addr=0x5,bootindex=0'' = Some ''disk''" by (simp_all add: qprop_def)
  show ?thesis
    using boot_device [OF c(1), of i GOOS GOARCH ovmfCode varsPath diskPath isoPath tpmSocket bootFromISO tapName secondTapName directMode,
        folded assms(2)] f q
    by (cases bootFromISO; cases "isoPath = []") (simp_all add: boot_file_def)
qed

theorem qemu_args_boot_order_witness:
  "boot_file ''0'' (buildQEMUArgs ''linux'' ''amd64'' demo_config ''/c'' ''/v'' ''/d'' ''/i'' ''/s'' True ''t0'' [] False) = Some ''/i''"
proof -
  have "list_all comma_free [MacAddress demo_config, ''/c'', ''/v'', ''/d'', ''/i'']" by code_simp
  from qemu_args_boot_order [OF this refl, of "''0''" "''linux''" "''amd64''" "''/s''" True "''t0''" "[]" False] show ?thesis by simp
qed

section \<open>Defaults of a runner\<close>

definition or_else :: "string \<Rightarrow> string \<Rightarrow> string" where
  "or_else x d = (if x = [] then d else x)"

lemma defaulted_closed:
  "defaulted a c = c\<lparr>BridgeName := or_else (BridgeName c) ''mltt-br0'',
     Tools := (Tools c)\<lparr>QemuSystem := or_else (QemuSystem (Tools c)) (QemuSystem (DefaultToolPaths a)),
       QemuImg := or_else (QemuImg (Tools c)) ''qemu-img'', Swtpm := or_else (Swtpm (Tools c)) ''swtpm'',
       SwtpmSetup := or_else (SwtpmSetup (Tools c)) ''swtpm_setup''\<rparr>\<rparr>"
  unfolding defaulted_def Let_def or_else_def
  by (cases "BridgeName c = []"; cases "QemuSystem (Tools c) = []"; cases "QemuImg (Tools c) = []";
      cases "Swtpm (Tools c) = []"; cases "SwtpmSetup (Tools c) = []") simp_all

text \<open>(C37) \<open>NewRunner\<close> fills in what is missing and nothing else: afterwards the bridge and the four tools
  have names, those that were configured keep them, everything else is as configured, and doing it
  again changes nothing.\<close>

theorem NewRunner_defaults:
  "BridgeName (defaulted a c) \<noteq> [] \<and> QemuSystem (Tools (defaulted a c)) \<noteq> [] \<and> QemuImg (Tools (defaulted a c)) \<noteq> [] \<and>
   Swtpm (Tools (defaulted a c)) \<noteq> [] \<and> SwtpmSetup (Tools (defaulted a c)) \<noteq> [] \<and>
   list_all (\<lambda>f. f c = [] \<or> f (defaulted a c) = f c)
     [BridgeName, QemuSystem \<circ> Tools, QemuImg \<circ> Tools, Swtpm \<circ> Tools, SwtpmSetup \<circ> Tools] \<and>
   (defaulted a c)\<lparr>BridgeName := [], Tools := (Tools (defaulted a c))\<lparr>QemuSystem := [], QemuImg := [], Swtpm := [], SwtpmSetup := []\<rparr>\<rparr> =
   c\<lparr>BridgeName := [], Tools := (Tools c)\<lparr>QemuSystem := [], QemuImg := [], Swtpm := [], SwtpmSetup := []\<rparr>\<rparr> \<and>
   defaulted a (defaulted a c) = defaulted a c"
proof -
  have b: "BridgeName (defaulted a c) = or_else (BridgeName c) ''mltt-br0''"
    "QemuSystem (Tools (defaulted a c)) = or_else (QemuSystem (Tools c)) (QemuSystem (DefaultToolPaths a))"
    "QemuImg (Tools (defaulted a c)) = or_else (QemuImg (Tools c)) ''qemu-img''"
    "Swtpm (Tools (defaulted a c)) = or_else (Swtpm (Tools c)) ''swtpm''"
    "SwtpmSetup (Tools (defaulted a c)) = or_else (SwtpmSetup (Tools c)) ''swtpm_setup''"
    by (simp_all add: defaulted_closed)
  have n: "QemuSystem (DefaultToolPaths a) \<noteq> []" by (simp add: DefaultToolPaths_def)
  have i: "or_else (or_else x d) d = or_else x d" "or_else x (y # ys) \<noteq> []" "x = [] \<or> or_else x d = x"
    "d \<noteq> [] \<Longrightarrow> or_else x d \<noteq> []" for x d y ys by (simp_all add: or_else_def)
  have "defaulted a (defaulted a c) = defaulted a c"
    by (simp add: defaulted_closed i)
  moreover have "(defaulted a c)\<lparr>BridgeName := [], Tools := (Tools (defaulted a c))\<lparr>QemuSystem := [], QemuImg := [], Swtpm := [], SwtpmSetup := []\<rparr>\<rparr> =
   c\<lparr>BridgeName := [], Tools := (Tools c)\<lparr>QemuSystem := [], QemuImg := [], Swtpm := [], SwtpmSetup := []\<rparr>\<rparr>"
    by (simp add: defaulted_closed)
  ultimately show ?thesis by (simp only: b i(2-3) i(4) [OF n] list.pred_inject comp_apply HOL.simp_thms)
qed

end
