(* ===== verification/RunnerHost.thy ===== *)
theory RunnerHost
  imports Streamer QemuArgs
begin

text \<open>
  What the runner asks of the host before it starts QEMU: the checks of the network set-up
  (\<open>runner/network.go\<close>), the helpers on files (\<open>runner/utils.go\<close>) and the TPM emulator
  (\<open>runner/tpm.go\<close>). A method of \<open>Runner\<close> is a state program over \<open>rstate\<close>; a result of type \<open>error\<close>
  is \<open>go_error + unit\<close>.
\<close>

section \<open>Definitions\<close>

subsection \<open>network.go\<close>

text \<open>The check of the host tap device, entered when a second tap device is configured.\<close>

definition checkHostTap :: "'h sys \<Rightarrow> RunnerConfig \<Rightarrow> ('h rstate, go_error + unit) state" where
  "checkHostTap S cfg = (let hostTap = SecondTapDevice cfg in do {
     (addrStr, err) \<leftarrow> exec_Run S ''ip'' [''addr'', ''show'', hostTap];
     (if err \<noteq> None then
        ret (Inl (Errorf ''host tap device %s not found - ensure bridge setup has been run'' [AStr hostTap]))
      else if IPv4 (Transit cfg) \<noteq> [] \<and> \<not> Contains addrStr (IPv4 (Transit cfg)) then
        ret (Inl (Errorf ''host tap %s missing IPv4 transit address (%s)'' [AStr hostTap, AStr (IPv4 (Transit cfg))]))
      else if IPv6 (Transit cfg) \<noteq> [] \<and> \<not> Contains addrStr (IPv6 (Transit cfg)) then
        ret (Inl (Errorf ''host tap %s missing IPv6 transit address (%s)'' [AStr hostTap, AStr (IPv6 (Transit cfg))]))
      else ret (Inr ()))
   })"

definition checkBridgeSetup :: "'h sys \<Rightarrow> RunnerConfig \<Rightarrow> ('h rstate, go_error + unit) state" where
  "checkBridgeSetup S cfg = (let bridgeName = BridgeName cfg in do {
     (outputStr, err) \<leftarrow> exec_Run S ''ip'' [''link'', ''show'', bridgeName];
     (if err \<noteq> None then ret (Inl (Errorf ''bridge %s not found'' [AStr bridgeName]))
      else if \<not> Contains outputStr ''<'' \<or> \<not> Contains outputStr ''UP'' then
        ret (Inl (Errorf ''bridge %s exists but is not administratively UP'' [AStr bridgeName]))
      else do {
        r \<leftarrow> (if SecondTapDevice cfg \<noteq> [] then checkHostTap S cfg else ret (Inr ()));
        on_err r (\<lambda>e. e) (\<lambda>_. do {
          Printf ''Bridge %s is configured and ready\<newline>'' [AStr bridgeName];
          ret (Inr ())
        })
      })
   })"

definition useTapDevice :: "'h sys \<Rightarrow> RunnerConfig \<Rightarrow> ('h rstate, go_error + string) state" where
  "useTapDevice S cfg = (let tapName = TapDevice cfg in
     if tapName = [] then ret (Inl (Errorf ''no tap device specified in configuration'' []))
     else do {
       (outp, err) \<leftarrow> exec_Run S ''ip'' [''link'', ''show'', tapName];
       (case err of
          Some e \<Rightarrow> ret (Inl (Errorf ''tap device '%s' not found - ensure bridge setup has been run\<newline>Command output: %s\<newline>Error: %v''
                      [AStr tapName, AStr outp, AErr (ErrExec e)]))
        | None \<Rightarrow> do {
            Printf ''Using tap device %s on bridge %s\<newline>'' [AStr tapName, AStr (BridgeName cfg)];
            (outp2, err2) \<leftarrow> (if SecondTapDevice cfg \<noteq> [] then exec_Run S ''ip'' [''link'', ''show'', SecondTapDevice cfg] else ret ([], None));
            (case err2 of
               Some e \<Rightarrow> ret (Inl (Errorf ''second tap device '%s' not found - ensure bridge setup has been run\<newline>Command output: %s\<newline>Error: %v''
                           [AStr (SecondTapDevice cfg), AStr outp2, AErr (ErrExec e)]))
             | None \<Rightarrow> do {
                 (if SecondTapDevice cfg \<noteq> [] then
                    Printf ''Using second tap device %s for host connectivity\<newline>'' [AStr (SecondTapDevice cfg)]
                  else ret ());
                 Printf ''VM will obtain IP from IPAM on transit network\<newline>'' [];
                 ret (Inr tapName)
               })
          })
     })"

subsection \<open>utils.go\<close>

definition fileExists :: "'h sys \<Rightarrow> string \<Rightarrow> ('h rstate, bool) state" where
  "fileExists S path = gets (\<lambda>s. vm_FileExists S path (files s) (ext s))"

definition isNewer :: "string \<Rightarrow> string \<Rightarrow> ('h rstate, bool) state" where
  "isNewer src dst = do {
     srcInfo \<leftarrow> os_Stat src;
     (case srcInfo of
        None \<Rightarrow> ret False
      | Some srcTime \<Rightarrow> do {
          dstInfo \<leftarrow> os_Stat dst;
          (case dstInfo of
             None \<Rightarrow> ret True
           | Some dstTime \<Rightarrow> ret (srcTime > dstTime))
        })
   }"

definition copyFile :: "'h sys \<Rightarrow> string \<Rightarrow> string \<Rightarrow> ('h rstate, go_error option) state" where
  "copyFile S src dst = prog (vm_CopyFile S src dst)"

definition copyDir :: "'h sys \<Rightarrow> string \<Rightarrow> string \<Rightarrow> ('h rstate, go_error option) state" where
  "copyDir S src dst = prog (vm_CopyDir S src dst)"

subsection \<open>tpm.go\<close>

definition initializeTPMState :: "'h sys \<Rightarrow> RunnerConfig \<Rightarrow> string \<Rightarrow> ('h rstate, go_error option) state" where
  "initializeTPMState S cfg tpmDir = prog (vm_InitializeTPMState S (SwtpmSetup (Tools cfg)) tpmDir [''sha256''])"

text \<open>The trace records that swtpm runs, under the pid file it wrote.\<close>

definition startTPMWithDir :: "'h sys \<Rightarrow> RunnerConfig \<Rightarrow> string \<Rightarrow> ('h rstate, go_error + string \<times> string) state" where
  "startTPMWithDir S cfg tpmDir = do {
     r \<leftarrow> prog (vm_StartSwtpm S (Swtpm (Tools cfg)) tpmDir);
     on_err r (\<lambda>e. e) (\<lambda>(socketPath, pid). do {
       hemit (HSwtpm pid);
       Printf ''TPM emulator started\<newline>'' [];
       Printf ''  Socket: %s\<newline>'' [AStr socketPath];
       ret (Inr (socketPath, pid))
     })
   }"

end
