(* ===== verification/Runner.thy ===== *)
theory Runner
  imports RunnerHost
begin

text \<open>
  The runner itself, \<open>runner/runner.go\<close>: \<open>Run\<close> validates the configuration, then builds a VM image
  (\<open>runBuildMode\<close>) or runs one (\<open>runRunMode\<close>), with the process manager's clean-up deferred.
  \<open>config\<close> does not change once the runner exists and is an argument; what changes is the state.
  \<open>GOOS\<close> and \<open>GOARCH\<close> are the platform.
\<close>

section \<open>Definitions\<close>

text \<open>\<open>NewRunner\<close>: the configuration with its defaults, and a fresh manager and streamer.\<close>

definition NewRunner :: "string \<Rightarrow> RunnerConfig \<Rightarrow> 'h host \<Rightarrow> RunnerConfig \<times> 'h rstate" where
  "NewRunner GOARCH config h =
     (defaulted GOARCH config,
      host.extend h \<lparr>pm = NewProcessManager, streamer = NewOutputStreamer, workDir = []\<rparr>)"

definition tpmDir :: "'h rstate \<Rightarrow> string" where
  "tpmDir s = path_join [workDir s, ''tpm'']"

definition diskPath :: "'h rstate \<Rightarrow> string" where
  "diskPath s = path_join [workDir s, ''disk.img'']"

definition varsPath :: "'h rstate \<Rightarrow> string" where
  "varsPath s = path_join [workDir s, ''vars.fd'']"

subsection \<open>Artifacts\<close>

definition ensurePristineTPM :: "'h sys \<Rightarrow> RunnerConfig \<Rightarrow> ('h rstate, go_error option) state" where
  "ensurePristineTPM S cfg = do {
     ok \<leftarrow> fileExists S (path_join [TPMPristinePath cfg, ''tpm2-00.permall'']);
     (if ok then ret None
      else do {
        Printf ''Creating pristine TPM state at %s\<newline>'' [AStr (TPMPristinePath cfg)];
        initializeTPMState S cfg (TPMPristinePath cfg)
      })
   }"

definition setupTPMState :: "'h sys \<Rightarrow> RunnerConfig \<Rightarrow> ('h rstate, go_error + unit) state" where
  "setupTPMState S cfg = do {
     dir \<leftarrow> gets tpmDir;
     (if TPMPristinePath cfg \<noteq> [] then do {
        r \<leftarrow> ensurePristineTPM S cfg;
        on_some_err r (\<lambda>e. Errorf ''failed to create pristine TPM state: %w'' [AErr e]) (do {
          Printf ''Copying pristine TPM state to work directory\<newline>'' [];
          r \<leftarrow> os_MkdirAll S dir 448;
          on_some_err r (\<lambda>e. Errorf ''failed to create work TPM directory: %w'' [AErr e]) (do {
            r \<leftarrow> copyDir S (TPMPristinePath cfg) dir;
            on_some_err r (\<lambda>e. e) (ret (Inr ()))
          })
        })
      } else do {
        Printf ''Creating fresh TPM state in work directory...\<newline>'' [];
        r \<leftarrow> initializeTPMState S cfg dir;
        on_some_err r (\<lambda>e. e) (ret (Inr ()))
      })
   }"

definition qemu_img_create :: "'h sys \<Rightarrow> RunnerConfig \<Rightarrow> string \<Rightarrow> ('h rstate, go_error + unit) state" where
  "qemu_img_create S cfg path = (let size = (if DiskSize cfg = [] then ''50G'' else DiskSize cfg) in do {
     (_, err) \<leftarrow> exec_Run S (QemuImg (Tools cfg)) [''create'', ''-f'', ''raw'', path, size];
     (case err of
        Some e \<Rightarrow> ret (Inl (Errorf ''qemu-img create failed: %w'' [AErr (ErrExec e)]))
      | None \<Rightarrow> do {
          Printf ''Created disk image: %s (%s)\<newline>'' [AStr path, AStr size];
          ret (Inr ())
        })
   })"

text \<open>\<open>runBuildMode\<close> up to the start of the TPM emulator.\<close>

definition buildArtifacts :: "'h sys \<Rightarrow> RunnerConfig \<Rightarrow> ('h rstate, go_error + unit) state" where
  "buildArtifacts S cfg = do {
     vars \<leftarrow> gets (\<lambda>s. path_join [workDir s, ''vars.fd'']);
     r \<leftarrow> os_MkdirAll S (Dir vars) 493;
     on_some_err r (\<lambda>e. Errorf ''failed to create vars directory: %w'' [AErr e]) (do {
       r \<leftarrow> copyFile S (OVMFVars (Tools cfg)) vars;
       on_some_err r (\<lambda>e. Errorf ''failed to copy OVMF VARS template: %w'' [AErr e]) (do {
         Printf ''Copied OVMF VARS template to %s\<newline>'' [AStr vars];
         isoThere \<leftarrow> fileExists S (ISOPath cfg);
         (if ISOPath cfg \<noteq> [] \<and> \<not> isoThere then ret (Inl (Errorf ''ISO not found at %s'' [AStr (ISOPath cfg)]))
          else do {
            disk \<leftarrow> gets diskPath;
            r \<leftarrow> os_MkdirAll S (Dir disk) 493;
            on_some_err r (\<lambda>e. Errorf ''failed to create parent directory: %w'' [AErr e]) (do {
              r \<leftarrow> qemu_img_create S cfg disk;
              on_err r (\<lambda>e. e) (\<lambda>_. do {
                r \<leftarrow> setupTPMState S cfg;
                on_err r (\<lambda>e. Errorf ''failed to setup TPM state: %w'' [AErr e]) (\<lambda>_. ret (Inr ()))
              })
            })
          })
       })
     })
   }"

text \<open>\<open>setupRunArtifacts\<close>, in its two parts: the disk, and the check that a build has been there.\<close>

definition setupRunDisk :: "'h sys \<Rightarrow> RunnerConfig \<Rightarrow> string \<Rightarrow> string \<Rightarrow> ('h rstate, go_error + unit) state" where
  "setupRunDisk S cfg disk dst = do {
     diskThere \<leftarrow> fileExists S disk;
     dstThere \<leftarrow> fileExists S dst;
     (if \<not> diskThere then
        (if \<not> dstThere then qemu_img_create S cfg dst else ret (Inr ()))
      else do {
        newer \<leftarrow> isNewer disk dst;
        (if \<not> dstThere \<or> newer then do {
           r \<leftarrow> copyFile S disk dst;
           on_some_err r (\<lambda>e. Errorf ''failed to copy disk: %w'' [AErr e]) (ret (Inr ()))
         } else ret (Inr ()))
      })
   }"

definition checkBuilt :: "'h sys \<Rightarrow> ('h rstate, go_error + unit) state" where
  "checkBuilt S = do {
     varsFile \<leftarrow> gets varsPath;
     varsThere \<leftarrow> fileExists S varsFile;
     (if \<not> varsThere then ret (Inl (Errorf ''OVMF VARS not found at %s - run build first'' [AStr varsFile]))
      else do {
        Printf ''Using existing OVMF VARS from: %s\<newline>'' [AStr varsFile];
        dir \<leftarrow> gets tpmDir;
        tpmThere \<leftarrow> fileExists S (path_join [dir, ''tpm2-00.permall'']);
        (if \<not> tpmThere then ret (Inl (Errorf ''TPM state not found at %s - run build first'' [AStr (path_join [dir, ''tpm2-00.permall''])]))
         else do {
           Printf ''Using existing TPM state from: %s\<newline>'' [AStr dir];
           ret (Inr ())
         })
      })
   }"

definition setupRunArtifacts :: "'h sys \<Rightarrow> RunnerConfig \<Rightarrow> string \<Rightarrow> ('h rstate, go_error + unit) state" where
  "setupRunArtifacts S cfg disk = do {
     wd \<leftarrow> gets workDir;
     r \<leftarrow> os_MkdirAll S wd 493;
     on_some_err r (\<lambda>e. Errorf ''failed to create work directory: %w'' [AErr e]) (do {
       dst \<leftarrow> gets diskPath;
       r \<leftarrow> setupRunDisk S cfg disk dst;
       on_err r (\<lambda>e. e) (\<lambda>_. checkBuilt S)
     })
   }"

subsection \<open>Build mode\<close>

text \<open>The \<open>select\<close> of \<open>runBuildMode\<close>: the result of \<open>cmd.Wait\<close> (called in a goroutine), 20 minutes, or the
  end of the context. \<open>ProcessState\<close> is set where the goroutine has come first; otherwise it goes on waiting,
  and nobody reads its result. That \<open>os/exec\<close> kills the process when the context ends is part of \<open>Cancel\<close>.
  QEMU is not registered with the process manager.\<close>

definition reaped :: "nat \<Rightarrow> bool \<Rightarrow> ('h rstate, unit) state" where
  "reaped a ended = (if ended then cmd_update a (\<lambda>c. c\<lparr>cmd_ProcessState := True\<rparr>) else ret ())"

definition awaitBuild :: "'h sys \<Rightarrow> nat \<Rightarrow> ('h rstate, go_error + unit) state" where
  "awaitBuild S a = do {
     c \<leftarrow> gets (\<lambda>s. cmds s ! a);
     ev \<leftarrow> (case cmd_Process c of Some pid \<Rightarrow> prog (sys_Select S pid) | None \<Rightarrow> ret (QemuExited (Some (ExecOther ''exec: not started''))));
     (case ev of
        QemuExited err \<Rightarrow> do {
          cmd_update a (\<lambda>c. c\<lparr>cmd_ProcessState := True\<rparr>);
          (case err of
             None \<Rightarrow> ret (Inr ())
           | Some (ExitError code) \<Rightarrow>
               if code \<noteq> 0 then ret (Inl (Errorf ''QEMU exited with error: %w'' [AErr (ErrExec (ExitError code))])) else ret (Inr ())
           | Some (ExecOther m) \<Rightarrow> ret (Inl (Errorf ''QEMU failed: %w'' [AErr (ErrExec (ExecOther m))])))
        }
      | TimeAfter ended \<Rightarrow> do {
          reaped a ended;
          cmd_Signal a SIGTERM;
          ret (Inl (Errorf ''provisioning timeout after 20 minutes'' []))
        }
      | CtxDone ended \<Rightarrow> do {
          reaped a ended;
          cmd_Signal a SIGTERM;
          ret (Inl ErrCanceled)
        })
   }"

definition runBuildMode :: "string \<Rightarrow> string \<Rightarrow> 'h sys \<Rightarrow> RunnerConfig \<Rightarrow> ('h rstate, go_error + unit) state" where
  "runBuildMode GOOS GOARCH S cfg = do {
     Printf ''Running in build mode for %s\<newline>'' [AStr (ServerName cfg)];
     r \<leftarrow> useTapDevice S cfg;
     on_err r (\<lambda>e. Errorf ''failed to use tap device: %w'' [AErr e]) (\<lambda>tapName. do {
       r \<leftarrow> buildArtifacts S cfg;
       on_err r (\<lambda>e. e) (\<lambda>_. do {
         dir \<leftarrow> gets tpmDir;
         r \<leftarrow> startTPMWithDir S cfg dir;
         on_err r (\<lambda>e. Errorf ''failed to start TPM: %w'' [AErr e]) (\<lambda>(tpmSocket, pidFile). do {
           AddPIDFile pidFile;
           time_Sleep (500 * millisecond);
           vars \<leftarrow> gets (\<lambda>s. path_join [workDir s, ''vars.fd'']);
           disk \<leftarrow> gets diskPath;
           a \<leftarrow> exec_CommandContext (QemuSystem (Tools cfg))
                 (buildQEMUArgs GOOS GOARCH cfg (OVMFCode (Tools cfg)) vars disk (ISOPath cfg) tpmSocket
                    (ISOPath cfg \<noteq> []) tapName (SecondTapDevice cfg) False);
           r \<leftarrow> prog (sys_Pipe S 1);
           on_some_err r (\<lambda>e. Errorf ''failed to create stdout pipe: %w'' [AErr e]) (do {
             r \<leftarrow> prog (sys_Pipe S 2);
             on_some_err r (\<lambda>e. Errorf ''failed to create stderr pipe: %w'' [AErr e]) (do {
               r \<leftarrow> cmd_Start S a;
               on_some_err r (\<lambda>e. Errorf ''failed to start QEMU: %w'' [AErr e]) (do {
                 AttachTagged a 1 ''[qemu-stdout]'' Detached;
                 AttachTagged a 2 ''[qemu-stderr]'' Detached;
                 r \<leftarrow> awaitBuild S a;
                 on_err r (\<lambda>e. e) (\<lambda>_. do {
                   cleanupPIDFile pidFile;
                   Printf ''Build completed for %s\<newline>'' [AStr (ServerName cfg)];
                   Printf ''Artifacts written to:\<newline>'' [];
                   Printf ''  Disk: %s\<newline>'' [AStr disk];
                   Printf ''  Work TPM state: %s\<newline>'' [AStr dir];
                   ret (Inr ())
                 })
               })
             })
           })
         })
       })
     })
   }"

subsection \<open>Run mode\<close>

text \<open>The two ways to run QEMU: with tagged output, its exit status ignored, or attached to the terminal.\<close>

definition runTagged :: "'h sys \<Rightarrow> RunnerConfig \<Rightarrow> nat \<Rightarrow> ('h rstate, go_error + unit) state" where
  "runTagged S cfg a = do {
     r \<leftarrow> prog (sys_Pipe S 1);
     on_some_err r (\<lambda>e. Errorf ''failed to create stdout pipe: %w'' [AErr e]) (do {
       r \<leftarrow> prog (sys_Pipe S 2);
       on_some_err r (\<lambda>e. Errorf ''failed to create stderr pipe: %w'' [AErr e]) (do {
         r \<leftarrow> cmd_Start S a;
         on_some_err r (\<lambda>e. Errorf ''failed to start QEMU: %w'' [AErr e]) (do {
           AddProcess a;
           AttachTagged a 1 (''['' @ ServerName cfg @ '']'') Monitored;
           AttachTagged a 2 (''['' @ ServerName cfg @ '':err]'') Monitored;
           Printf ''VM started for %s (tagged output mode)\<newline>'' [AStr (ServerName cfg)];
           WaitMonitored S;
           _ \<leftarrow> cmd_Wait S a;
           ret (Inr ())
         })
       })
     })
   }"

definition runDirect :: "'h sys \<Rightarrow> RunnerConfig \<Rightarrow> string \<Rightarrow> nat \<Rightarrow> ('h rstate, go_error + unit) state" where
  "runDirect S cfg pidFile a = do {
     AddPIDFile pidFile;
     r \<leftarrow> cmd_Start S a;
     (case r of
        Some e \<Rightarrow> do {
          cleanupPIDFile pidFile;
          ret (Inl (Errorf ''failed to start QEMU: %w'' [AErr e]))
        }
      | None \<Rightarrow> do {
          AddProcess a;
          Printf ''VM started for %s (direct output mode)\<newline>'' [AStr (ServerName cfg)];
          Printf ''Press Ctrl-A X to exit QEMU\<newline>'' [];
          r \<leftarrow> cmd_Wait S a;
          (case r of
             Some e \<Rightarrow> ret (Inl (Errorf ''QEMU exited: %w'' [AErr (ErrExec e)]))
           | None \<Rightarrow> ret (Inr ()))
        })
   }"

definition runRunMode :: "string \<Rightarrow> string \<Rightarrow> 'h sys \<Rightarrow> RunnerConfig \<Rightarrow> ('h rstate, go_error + unit) state" where
  "runRunMode GOOS GOARCH S cfg = do {
     Printf ''Running in run mode for %s\<newline>'' [AStr (ServerName cfg)];
     r \<leftarrow> useTapDevice S cfg;
     on_err r (\<lambda>e. Errorf ''failed to use tap device: %w'' [AErr e]) (\<lambda>tapName. do {
       vars \<leftarrow> gets (\<lambda>s. path_join [workDir s, ''vars.fd'']);
       varsThere \<leftarrow> fileExists S vars;
       (if \<not> varsThere then ret (Inl (Errorf ''OVMF VARS not found at %s (run build mode first)'' [AStr vars]))
        else do {
          disk \<leftarrow> gets diskPath;
          r \<leftarrow> setupRunArtifacts S cfg disk;
          on_err r (\<lambda>e. Errorf ''failed to setup run artifacts: %w'' [AErr e]) (\<lambda>_. do {
            workTPM \<leftarrow> gets tpmDir;
            r \<leftarrow> startTPMWithDir S cfg workTPM;
            on_err r (\<lambda>e. Errorf ''failed to start TPM: %w'' [AErr e]) (\<lambda>(tpmSocket, pidFile). do {
              (if OutputMode cfg = ''tagged'' then AddPIDFile pidFile else ret ());
              workDisk \<leftarrow> gets diskPath;
              a \<leftarrow> exec_CommandContext (QemuSystem (Tools cfg))
                    (buildQEMUArgs GOOS GOARCH cfg (OVMFCode (Tools cfg)) vars workDisk (ISOPath cfg) tpmSocket
                       (ISOPath cfg \<noteq> []) tapName (SecondTapDevice cfg) (OutputMode cfg \<noteq> ''tagged''));
              (if OutputMode cfg = ''tagged'' then runTagged S cfg a else runDirect S cfg pidFile a)
            })
          })
        })
     })
   }"

subsection \<open>Run\<close>

definition validateOVMF :: "'h sys \<Rightarrow> RunnerConfig \<Rightarrow> ('h rstate, go_error + unit) state" where
  "validateOVMF S cfg = (let tp = Tools cfg in do {
     codeThere \<leftarrow> fileExists S (OVMFCode tp);
     varsThere \<leftarrow> fileExists S (OVMFVars tp);
     (if OVMFCode tp = [] then ret (Inl (Errorf ''OVMF CODE path not configured'' []))
      else if \<not> codeThere then ret (Inl (Errorf ''OVMF CODE not found at %s'' [AStr (OVMFCode tp)]))
      else if Mode cfg = ''build'' then
        (if OVMFVars tp = [] then ret (Inl (Errorf ''OVMF VARS path not configured'' []))
         else if \<not> varsThere then ret (Inl (Errorf ''OVMF VARS template not found at %s'' [AStr (OVMFVars tp)]))
         else ret (Inr ()))
      else ret (Inr ()))
   })"

definition resolveWorkDir :: "'h sys \<Rightarrow> RunnerConfig \<Rightarrow> ('h rstate, go_error + unit) state" where
  "resolveWorkDir S cfg = do {
     modify (\<lambda>s. s\<lparr>workDir := WorkDir cfg\<rparr>);
     r \<leftarrow> (if \<not> IsAbs (WorkDir cfg) then filepath_Abs S (WorkDir cfg) else ret (Inr (WorkDir cfg)));
     on_err r (\<lambda>e. Errorf ''failed to resolve work directory: %w'' [AErr e]) (\<lambda>dir. do {
       modify (\<lambda>s. s\<lparr>workDir := dir\<rparr>);
       r \<leftarrow> os_MkdirAll S dir 493;
       on_some_err r (\<lambda>e. Errorf ''failed to create work directory: %w'' [AErr e]) (ret (Inr ()))
     })
   }"

text \<open>\<open>defer\<close>: the clean-up runs after the body, whatever it returns.\<close>

definition deferred :: "('s, 'a) state \<Rightarrow> ('s, unit) state \<Rightarrow> ('s, 'a) state" where
  "deferred body cleanup = do { r \<leftarrow> body; cleanup; ret r }"

definition Run :: "string \<Rightarrow> string \<Rightarrow> 'h sys \<Rightarrow> RunnerConfig \<Rightarrow> ('h rstate, go_error + unit) state" where
  "Run GOOS GOARCH S cfg = do {
     r \<leftarrow> checkBridgeSetup S cfg;
     on_err r (\<lambda>e. Errorf ''bridge check failed: %w'' [AErr e]) (\<lambda>_. do {
       r \<leftarrow> validateOVMF S cfg;
       on_err r (\<lambda>e. e) (\<lambda>_. do {
         r \<leftarrow> resolveWorkDir S cfg;
         on_err r (\<lambda>e. e) (\<lambda>_.
           let body = (if Mode cfg = ''build'' then runBuildMode GOOS GOARCH S cfg else runRunMode GOOS GOARCH S cfg)
           in if \<not> NoCleanup cfg then deferred body (CleanupAll S) else body)
       })
     })
   }"

text \<open>\<open>Cancel\<close> cancels the runner's context while \<open>Run\<close> goes on. What \<open>Run\<close> sees of it, it sees through the
  host (\<open>select\<close>, \<open>Start\<close>, \<open>Wait\<close>); besides, \<open>os/exec\<close> kills the processes that were started and still run,
  each from a goroutine of its own. So \<open>Cancel\<close> acts on the part of the trace of \<open>Run\<close> that is still to come:
  \<open>pids\<close> are the processes started so far, and \<open>kills\<close> says which of them are still there to be killed, each
  with the number of events that come before.\<close>

fun Cancel :: "int list \<Rightarrow> (nat \<times> int) list \<Rightarrow> hevent list \<Rightarrow> hevent list" where
  "Cancel pids [] es = es"
| "Cancel pids ((d, pid) # kills) es =
     (let es' = Cancel pids kills es
      in if pid \<in> set pids then take d es' @ HSignal pid SIGKILL # drop d es' else es')"

end
