(* ===== verification/RunnerSafety.thy ===== *)
theory RunnerSafety
  imports Runner
begin

text \<open>
  Safety of the runner: no run leaves the TPM emulator behind. A run is followed through its
  phases (\<open>idle\<close>, \<open>started\<close>, \<open>guarded\<close>) with the invariant rules of the prelude; the deferred clean-up
  is the locale \<open>deferred_cleanup\<close>, interpreted on \<open>CleanupAll\<close>.
\<close>

section \<open>The contract of the TPM emulator\<close>

text \<open>
  What the runner relies on, for the pid file \<open>pf\<close> and the process \<open>n\<close> of swtpm: a successful
  \<open>vm.StartSwtpm\<close> has written the pid of the emulator to the pid file it returns; QEMU leaves that
  file alone, and is another process.
\<close>

definition swtpm_contract :: "'h sys \<Rightarrow> string \<Rightarrow> int \<Rightarrow> bool" where
  "swtpm_contract S pf n \<longleftrightarrow>
     (\<forall>bin dir fs h sock p fs' h'. vm_StartSwtpm S bin dir fs h = (Inr (sock, p), fs', h') \<longrightarrow>
        p = pf \<and> (\<exists>d t. fs' pf = Some (d, t) \<and> Atoi (TrimSpace d) = Inr n)) \<and>
     (\<forall>fd. keeps (sys_Pipe S fd) pf) \<and> (\<forall>path args. keeps (sys_Start S path args) pf) \<and>
     (\<forall>pid. keeps (sys_Wait S pid) pf \<and> keeps (sys_Select S pid) pf) \<and>
     (\<forall>path args fs h pid fs' h'. sys_Start S path args fs h = (Inr pid, fs', h') \<longrightarrow> pid \<noteq> n)"

lemma swtpm_contractD:
  assumes "swtpm_contract S pf n"
  shows "keeps (sys_Pipe S fd) pf" "keeps (sys_Start S path args) pf" "keeps (sys_Wait S pid) pf \<and> keeps (sys_Select S pid) pf"
    "sys_Start S path args fs h = (Inr pid, fs', h') \<Longrightarrow> pid \<noteq> n"
    "vm_StartSwtpm S bin dir fs h = (Inr (sock, p), fs', h') \<Longrightarrow> p = pf \<and> (\<exists>d t. fs' pf = Some (d, t) \<and> Atoi (TrimSpace d) = Inr n)"
  using assms unfolding swtpm_contract_def by metis+

text \<open>The three phases of a run: nothing to clean up yet; swtpm runs; it is registered, or has been
  stopped and stays registered.\<close>

definition accessible :: "string \<Rightarrow> 'h rstate \<Rightarrow> bool" where
  "accessible pf s \<longleftrightarrow> \<not> unreadable s pf \<and> \<not> unremovable s pf"

definition no_cmd :: "int \<Rightarrow> 'h rstate \<Rightarrow> bool" where
  "no_cmd n s \<longleftrightarrow> (\<forall>c \<in> set (cmds s). cmd_Process c \<noteq> Some n) \<and> (\<forall>a \<in> set (processes (pm s)). a < length (cmds s))"

definition no_swtpm :: "hevent list \<Rightarrow> bool" where
  "no_swtpm es \<longleftrightarrow> (\<forall>p. HSwtpm p \<notin> set es)"

definition idle :: "string \<Rightarrow> int \<Rightarrow> 'h rstate \<Rightarrow> bool" where
  "idle pf n s \<longleftrightarrow> accessible pf s \<and> cmds s = [] \<and> processes (pm s) = [] \<and> pidFiles (pm s) = [] \<and>
     no_swtpm (hevents s) \<and> signals_to n (hevents s) = []"

definition started :: "string \<Rightarrow> int \<Rightarrow> 'h rstate \<Rightarrow> bool" where
  "started pf n s \<longleftrightarrow> accessible pf s \<and> no_cmd n s \<and> pidFiles (pm s) = [] \<and>
     pid_in s pf = Some n \<and> signals_to n (hevents s) = []"

definition guarded :: "string \<Rightarrow> int \<Rightarrow> 'h rstate \<Rightarrow> bool" where
  "guarded pf n s \<longleftrightarrow> accessible pf s \<and> no_cmd n s \<and> pidFiles (pm s) = [pf] \<and>
     (pid_in s pf = Some n \<and> signals_to n (hevents s) = [] \<or>
      files s pf = None \<and> signals_to n (hevents s) = [SIGTERM, SIGKILL])"

definition swtpm_guarded :: "'h sys \<Rightarrow> string \<Rightarrow> int \<Rightarrow> 'h rstate \<Rightarrow> bool" where
  "swtpm_guarded S pf n s \<longleftrightarrow> swtpm_contract S pf n \<and> (idle pf n s \<or> guarded pf n s)"

definition swtpm_stopped :: "string \<Rightarrow> int \<Rightarrow> 'h rstate \<Rightarrow> bool" where
  "swtpm_stopped pf n s \<longleftrightarrow>
     (\<exists>p. HSwtpm p \<in> set (hevents s)) \<longrightarrow> files s pf = None \<and> signals_to n (hevents s) = [SIGTERM, SIGKILL]"

lemmas phase_defs = accessible_def no_cmd_def no_swtpm_def pid_in_def

lemma triple_preserves: "preserves I m \<Longrightarrow> triple I m (\<lambda>_. I)"
  by (auto simp: preserves_def triple_def split: prod.splits)

lemma triple_seq: "preserves I m \<Longrightarrow> (\<And>a. triple I (f a) Q) \<Longrightarrow> triple I (State_Monad.bind m f) Q"
  by (rule triple_bind [OF triple_preserves])

lemma triple_pre: "triple P m Q \<Longrightarrow> (\<And>s. P' s \<Longrightarrow> P s) \<Longrightarrow> triple P' m Q"
  by (auto simp: triple_def)

lemma triple_post: "triple P m Q \<Longrightarrow> (\<And>a s. Q a s \<Longrightarrow> Q' a s) \<Longrightarrow> triple P m Q'"
  by (fastforce simp: triple_def)

subsection \<open>Before the emulator starts\<close>

text \<open>Everything that only looks at the host, prints, runs tools or writes files leaves the runner idle.\<close>

locale host_frame =
  fixes I :: "'h rstate \<Rightarrow> bool"
  assumes frame_ext: "I s \<Longrightarrow> I (s\<lparr>files := fs, ext := h\<rparr>)"
    and frame_workDir: "I s \<Longrightarrow> I (s\<lparr>workDir := w\<rparr>)"
    and frame_event: "I s \<Longrightarrow> e = HPrint f as \<or> e = HRun path args \<Longrightarrow> I (s\<lparr>hevents := hevents s @ [e]\<rparr>)"
begin

lemma frame_prims: "preserves I (prog p)" "preserves I (Printf f as)" "preserves I (hemit (HRun x y))"
  "preserves I (modify (\<lambda>s. s\<lparr>workDir := w\<rparr>))"
  using frame_ext frame_workDir frame_event by (auto simp: preserves_def run_prog split: prod.splits)

lemma frame_checks:
  "preserves I (checkBridgeSetup S cfg)" "preserves I (useTapDevice S cfg)"
  "preserves I (validateOVMF S cfg)" "preserves I (resolveWorkDir S cfg)"
  unfolding checkBridgeSetup_def checkHostTap_def useTapDevice_def validateOVMF_def resolveWorkDir_def Let_def
    exec_Run_def os_MkdirAll_def filepath_Abs_def fileExists_def
  by (intro preserves_rules frame_prims)+

lemma frame_artifacts: "preserves I (buildArtifacts S cfg)" "preserves I (setupRunArtifacts S cfg disk)"
  unfolding buildArtifacts_def setupRunArtifacts_def setupRunDisk_def checkBuilt_def setupTPMState_def ensurePristineTPM_def qemu_img_create_def Let_def
    exec_Run_def os_MkdirAll_def copyFile_def copyDir_def initializeTPMState_def fileExists_def isNewer_def os_Stat_def
  by (intro preserves_rules frame_prims)+

end

interpretation idle: host_frame "idle pf n" for pf n
  by unfold_locales (auto simp: idle_def phase_defs)

declare idle.frame_prims [preserves_rules] idle.frame_checks [preserves_rules] idle.frame_artifacts [preserves_rules]

subsection \<open>While the emulator runs\<close>

lemma startTPM_triple:
  assumes "swtpm_contract S pf n"
  shows "triple (idle pf n) (startTPMWithDir S cfg dir)
    (\<lambda>r s. case r of Inl e \<Rightarrow> idle pf n s | Inr (sock, p) \<Rightarrow> p = pf \<and> started pf n s)"
proof (rule tripleI)
  fix s r s'
  assume i: "idle pf n s" and run: "run_state (startTPMWithDir S cfg dir) s = (r, s')"
  obtain x fs h where p: "vm_StartSwtpm S (Swtpm (Tools cfg)) dir (files s) (ext s) = (x, fs, h)" by (metis prod_cases3)
  show "case r of Inl e \<Rightarrow> idle pf n s' | Inr (sock, p) \<Rightarrow> p = pf \<and> started pf n s'"
  proof (cases x)
    case (Inl e)
    then have "r = Inl e" "s' = s\<lparr>files := fs, ext := h\<rparr>" using run p by (auto simp: startTPMWithDir_def run_prog)
    then show ?thesis using i by (simp add: idle_def phase_defs)
  next
    case (Inr y)
    obtain sock q where "y = (sock, q)" by fastforce
    with Inr p obtain d t where "q = pf" "fs pf = Some (d, t)" "Atoi (TrimSpace d) = Inr n"
      using swtpm_contractD(5) [OF assms] by blast
    then show ?thesis using i run p Inr \<open>y = (sock, q)\<close>
      by (auto simp: startTPMWithDir_def run_prog started_def idle_def phase_defs)
  qed
qed

text \<open>What neither touches the pid file nor signals swtpm keeps the phase.\<close>

lemma guarded_frame:
  assumes "guarded pf n s" "files s' pf = files s pf" "unreadable s' = unreadable s" "unremovable s' = unremovable s"
    "pidFiles (pm s') = pidFiles (pm s)" "no_cmd n s' \<or> cmds s' = cmds s \<and> processes (pm s') = processes (pm s)"
    "signals_to n (hevents s') = signals_to n (hevents s)"
  shows "guarded pf n s'"
proof -
  have "pid_in s' pf = pid_in s pf" using assms(2,3) by (simp add: pid_in_def)
  then show ?thesis using assms unfolding guarded_def accessible_def no_cmd_def by metis
qed

definition tracked :: "string \<Rightarrow> int \<Rightarrow> nat \<Rightarrow> 'h rstate \<Rightarrow> bool" where
  "tracked pf n a s \<longleftrightarrow> guarded pf n s \<and> a < length (cmds s)"

lemma tracked_prog: "keeps p pf \<Longrightarrow> preserves (tracked pf n a) (prog p)"
  by (rule preserves_prog) (auto simp: tracked_def dest: keepsD elim!: guarded_frame)

lemma tracked_prims [preserves_rules]:
  "preserves (tracked pf n a) (Printf f as)" "preserves (tracked pf n a) (time_Sleep d)" "preserves (tracked pf n a) (hemit (HStream t ls))"
  "preserves (tracked pf n a) (hemit (HStreamErr t ls))"
  "preserves (tracked pf n a) (modify (\<lambda>s. s\<lparr>streamer := g s\<rparr>))"
  by (auto simp: preserves_def tracked_def elim!: guarded_frame)

lemma tracked_streams [preserves_rules]:
  "preserves (tracked pf n a) (AttachTagged b fd tag st)" "preserves (tracked pf n a) (WaitMonitored S)"
  unfolding AttachTagged_def attach_def WaitMonitored_def finish_stream_def
  by (cases st) (simp_all add: tracked_prims, intro preserves_rules)

lemma guarded_no_cmd: "guarded pf n s \<Longrightarrow> no_cmd n s"
  by (simp add: guarded_def)

lemma tracked_AddProcess [preserves_rules]: "preserves (tracked pf n a) (AddProcess a)"
proof (rule preservesI)
  fix s r s'
  assume t: "tracked pf n a s" and r: "run_state (AddProcess a) s = (r, s')"
  then have "no_cmd n s'" using guarded_no_cmd [of pf n s] by (auto simp: tracked_def no_cmd_def AddProcess_def)
  with t r show "tracked pf n a s'" by (auto simp: tracked_def AddProcess_def elim!: guarded_frame)
qed

lemma guarded_cmds: "guarded pf n s \<Longrightarrow> c \<in> set (cmds s) \<Longrightarrow> cmd_Process c \<noteq> Some n"
  by (simp add: guarded_def no_cmd_def)

lemma tracked_Signal [preserves_rules]: "preserves (tracked pf n a) (cmd_Signal a sig)"
proof (rule preservesI)
  fix s r s'
  assume t: "tracked pf n a s" and r: "run_state (cmd_Signal a sig) s = (r, s')"
  then have "cmd_Process (cmds s ! a) \<noteq> Some n" using guarded_cmds [of pf n s "cmds s ! a"] by (simp add: tracked_def)
  with t r show "tracked pf n a s'"
    by (auto simp: tracked_def cmd_Signal_def elim!: guarded_frame split: option.splits if_splits)
qed

lemma tracked_exited [preserves_rules]: "preserves (tracked pf n a) (cmd_update a (\<lambda>c. c\<lparr>cmd_ProcessState := True\<rparr>))"
proof (rule preservesI)
  fix s r s'
  assume t: "tracked pf n a s" and r: "run_state (cmd_update a (\<lambda>c. c\<lparr>cmd_ProcessState := True\<rparr>)) s = (r, s')"
  then have "no_cmd n s'"
    by (auto simp: tracked_def guarded_def no_cmd_def cmd_update_def dest!: set_update_subset_insert [THEN subsetD])
  with t r show "tracked pf n a s'" by (auto simp: tracked_def cmd_update_def elim!: guarded_frame)
qed

lemma tracked_Start:
  assumes "swtpm_contract S pf n"
  shows "preserves (tracked pf n a) (cmd_Start S a)"
proof (rule preservesI)
  fix s r s'
  assume u: "tracked pf n a s" and run: "run_state (cmd_Start S a) s = (r, s')"
  let ?c = "cmds s ! a"
  obtain x fs h where p: "sys_Start S (cmd_path ?c) (cmd_args ?c) (files s) (ext s) = (x, fs, h)" by (metis prod_cases3)
  have k: "fs pf = files s pf" using keepsD [OF swtpm_contractD(2) [OF assms] p] .
  show "tracked pf n a s'"
  proof (cases x)
    case (Inr pid)
    with p have "pid \<noteq> n" using swtpm_contractD(4) [OF assms] by blast
    then have "no_cmd n s'" using u run p Inr
      by (auto simp: cmd_Start_def cmd_update_def run_prog tracked_def guarded_def no_cmd_def
          dest!: set_update_subset_insert [THEN subsetD])
    then show ?thesis using u run p k Inr
      by (auto simp: cmd_Start_def cmd_update_def run_prog tracked_def elim!: guarded_frame)
  qed (use u run p k in \<open>auto simp: cmd_Start_def run_prog tracked_def elim!: guarded_frame\<close>)
qed

lemma tracked_Wait:
  assumes "swtpm_contract S pf n"
  shows "preserves (tracked pf n a) (cmd_Wait S a)"
  unfolding cmd_Wait_def by (intro preserves_rules tracked_prog) (simp add: swtpm_contractD(3) [OF assms])

lemma preserves_wait_event:
  "(\<And>e. x = QemuExited e \<Longrightarrow> preserves I (f e)) \<Longrightarrow> (\<And>b. x = TimeAfter b \<Longrightarrow> preserves I (t b)) \<Longrightarrow> (\<And>b. x = CtxDone b \<Longrightarrow> preserves I (d b)) \<Longrightarrow>
   preserves I (case x of QemuExited e \<Rightarrow> f e | TimeAfter b \<Rightarrow> t b | CtxDone b \<Rightarrow> d b)"
  by (cases x) simp_all

lemma preserves_exec_error:
  "(\<And>e. x = ExitError e \<Longrightarrow> preserves I (f e)) \<Longrightarrow> (\<And>m. x = ExecOther m \<Longrightarrow> preserves I (g m)) \<Longrightarrow>
   preserves I (case x of ExitError e \<Rightarrow> f e | ExecOther m \<Rightarrow> g m)"
  by (cases x) simp_all

lemma tracked_awaitBuild:
  assumes "swtpm_contract S pf n"
  shows "preserves (tracked pf n a) (awaitBuild S a)"
  unfolding awaitBuild_def reaped_def
  by (intro preserves_rules tracked_prog preserves_wait_event preserves_exec_error) (simp add: swtpm_contractD(3) [OF assms])

text \<open>Registering the pid file, stopping the emulator, creating the command.\<close>

lemma AddPIDFile_started:
  "triple (started pf n) (AddPIDFile pf) (\<lambda>_. guarded pf n)"
  "triple (\<lambda>s. started pf n s \<and> a < length (cmds s)) (AddPIDFile pf) (\<lambda>_. tracked pf n a)"
  by (auto simp: triple_def AddPIDFile_def tracked_def started_def guarded_def phase_defs)

lemma CommandContext_cmd:
  "triple (guarded pf n) (exec_CommandContext path args) (\<lambda>a. tracked pf n a)"
  "triple (started pf n) (exec_CommandContext path args) (\<lambda>a s. started pf n s \<and> a < length (cmds s))"
  by (auto simp: triple_def exec_CommandContext_def tracked_def started_def guarded_def phase_defs less_Suc_eq)

lemma pid_in_None: "files s p = None \<Longrightarrow> pid_in s p = None"
  by (simp add: pid_in_def)

lemma cleanupPIDFile_guarded:
  assumes g: "guarded pf n s" and "run_state (cleanupPIDFile pf) s = (u, s')"
  shows "guarded pf n s' \<and> files s' pf = None \<and> signals_to n (hevents s') = [SIGTERM, SIGKILL] \<and> cmds s' = cmds s \<and> pm s' = pm s"
proof -
  have s': "s' = s\<lparr>files := removed s {pf}, hevents := hevents s @ pid_trace s pf\<rparr>"
    using assms(2) by (simp add: run_cleanupPIDFile)
  have f: "files s' pf = None" using g by (simp add: s' removed_def guarded_def accessible_def)
  have "signals_to n (hevents s') = [SIGTERM, SIGKILL]"
    using g pid_in_None [of s pf] by (auto simp: s' guarded_def pid_trace_def escalation_def)
  then show ?thesis using f g by (simp add: s' guarded_def accessible_def no_cmd_def)
qed

lemma tracked_cleanupPIDFile [preserves_rules]: "preserves (tracked pf n a) (cleanupPIDFile pf)"
  by (rule preservesI) (auto simp: tracked_def dest: cleanupPIDFile_guarded)

subsection \<open>The two modes\<close>

lemma runTagged_tracked:
  assumes "swtpm_contract S pf n"
  shows "preserves (tracked pf n a) (runTagged S cfg a)"
  unfolding runTagged_def
  by (intro preserves_rules tracked_Start tracked_Wait tracked_prog assms) (simp_all add: swtpm_contractD(1) [OF assms])

lemma runDirect_guarded:
  assumes "swtpm_contract S pf n"
  shows "triple (\<lambda>s. started pf n s \<and> a < length (cmds s)) (runDirect S cfg pf a) (\<lambda>_. tracked pf n a)"
  unfolding runDirect_def
  by (rule triple_bind [OF AddPIDFile_started(2)], rule triple_preserves)
     (intro preserves_rules tracked_Start tracked_Wait assms)

abbreviation settled :: "string \<Rightarrow> int \<Rightarrow> 'a \<Rightarrow> 'h rstate \<Rightarrow> bool" where
  "settled pf n r s \<equiv> idle pf n s \<or> guarded pf n s"

lemma triple_idle_err:
  assumes "\<And>x. r = Inr x \<Longrightarrow> triple (idle pf n) (k x) (settled pf n)"
  shows "triple (idle pf n) (on_err r wrap k) (settled pf n)"
  using assms by (cases r) (auto intro: triple_return)

lemma triple_tracked: "preserves (tracked pf n a) m \<Longrightarrow> triple (tracked pf n a) m (settled pf n)"
  by (rule triple_post [OF triple_preserves]) (simp_all add: tracked_def)

lemma after_startTPM:
  assumes "swtpm_contract S pf n" and "\<And>sock. triple (started pf n) (k (sock, pf)) (settled pf n)"
  shows "triple (idle pf n) (do { r \<leftarrow> startTPMWithDir S cfg dir; on_err r wrap k }) (settled pf n)"
proof (rule triple_bind [OF startTPM_triple [OF assms(1)]])
  fix r :: "go_error + string \<times> string"
  show "triple (\<lambda>s. case r of Inl e \<Rightarrow> idle pf n s | Inr (sock, p) \<Rightarrow> p = pf \<and> started pf n s) (on_err r wrap k) (settled pf n)"
  proof (cases r)
    case (Inr x)
    then show ?thesis using assms(2) by (cases x) (auto simp: triple_def)
  qed (auto intro: triple_return)
qed

lemma guarded_sleep: "preserves (guarded pf n) (time_Sleep d)"
  by (auto simp: preserves_def elim!: guarded_frame)

lemma runBuildMode_settles:
  assumes "swtpm_contract S pf n"
  shows "triple (idle pf n) (runBuildMode GOOS GOARCH S cfg) (settled pf n)"
proof -
  have q: "triple (tracked pf n a) (do {
       r \<leftarrow> prog (sys_Pipe S 1);
       on_some_err r (\<lambda>e. Errorf f1 [AErr e]) (do {
         r \<leftarrow> prog (sys_Pipe S 2);
         on_some_err r (\<lambda>e. Errorf f2 [AErr e]) (do {
           r \<leftarrow> cmd_Start S a;
           on_some_err r (\<lambda>e. Errorf f3 [AErr e]) (do {
             AttachTagged a 1 t1 Detached;
             AttachTagged a 2 t2 Detached;
             r \<leftarrow> awaitBuild S a;
             on_err r (\<lambda>e. e) (\<lambda>_. do {
               cleanupPIDFile pf;
               Printf g1 as1; Printf g2 as2; Printf g3 as3; Printf g4 as4;
               ret (Inr ())
             })
           })
         })
       })
     }) (settled pf n)" for a f1 f2 f3 t1 t2 g1 as1 g2 as2 g3 as3 g4 as4
    by (intro triple_tracked preserves_rules tracked_Start tracked_awaitBuild tracked_prog assms)
       (simp_all add: swtpm_contractD(1) [OF assms])
  show ?thesis unfolding runBuildMode_def
    by (intro after_startTPM [OF assms] triple_seq triple_idle_err preserves_rules; simp only: prod.case;
        intro triple_bind [OF AddPIDFile_started(1)] triple_bind [OF CommandContext_cmd(1)] triple_seq guarded_sleep preserves_gets q)
qed

lemma runRunMode_settles:
  assumes "swtpm_contract S pf n"
  shows "triple (idle pf n) (runRunMode GOOS GOARCH S cfg) (settled pf n)"
proof -
  have tagged: "triple (started pf n) (do { AddPIDFile pf; disk \<leftarrow> gets diskPath; a \<leftarrow> exec_CommandContext path (args disk); runTagged S cfg a }) (settled pf n)" for path args
    by (intro triple_bind [OF AddPIDFile_started(1)] triple_seq preserves_gets triple_bind [OF CommandContext_cmd(1)]
        triple_tracked runTagged_tracked assms)
  have direct: "triple (started pf n) (do { disk \<leftarrow> gets diskPath; a \<leftarrow> exec_CommandContext path (args disk); runDirect S cfg pf a }) (settled pf n)" for path args
    by (intro triple_seq preserves_gets triple_bind [OF CommandContext_cmd(2)] triple_post [OF runDirect_guarded [OF assms]])
       (simp add: tracked_def)
  have q: "triple (started pf n) (do {
      (if t then AddPIDFile pf else ret ());
      disk \<leftarrow> gets diskPath; a \<leftarrow> exec_CommandContext path (args disk);
      (if t then runTagged S cfg a else runDirect S cfg pf a)
    }) (settled pf n)" for t path args
    using tagged direct by (cases t) simp_all
  have i: "triple (idle pf n) (if b then ret x else m) (settled pf n)"
    if "triple (idle pf n) m (settled pf n)" for b m and x :: "go_error + unit"
    using that by (auto intro: triple_return)
  show ?thesis unfolding runRunMode_def
    by (intro after_startTPM [OF assms] triple_seq triple_idle_err i idle.frame_prims idle.frame_checks idle.frame_artifacts preserves_gets;
        (unfold fileExists_def, intro preserves_gets)?; (simp only: prod.case, rule q)?)
qed

section \<open>The deferred clean-up\<close>

text \<open>\<open>defer\<close> as an interface: a clean-up that turns a guarded state into a stopped one does so after any
  body that leaves a guarded state, whatever the body returns.\<close>

locale deferred_cleanup =
  fixes ready :: "'s \<Rightarrow> bool" and stopped :: "'s \<Rightarrow> bool" and cleanup :: "('s, unit) state"
  assumes cleanup_stops: "triple ready cleanup (\<lambda>_. stopped)"
begin

lemma deferred_stops:
  assumes "triple P body (\<lambda>_. ready)"
  shows "triple P (deferred body cleanup) (\<lambda>_. stopped)"
  unfolding deferred_def
  by (intro triple_bind [OF assms] triple_bind [OF cleanup_stops]) (rule triple_return)

lemma deferred_keeps_stopped:
  assumes "preserves stopped cleanup" and "triple P body (\<lambda>_. stopped)"
  shows "triple P (deferred body cleanup) (\<lambda>_. stopped)"
  unfolding deferred_def
  by (intro triple_bind [OF assms(2)] triple_bind [OF triple_preserves [OF assms(1)]]) (rule triple_return)

end

lemma cleanup_cmd_tracked: "swtpm_contract S pf n \<Longrightarrow> preserves (tracked pf n a) (cleanup_cmd S a)"
  unfolding cleanup_cmd_def by (intro preserves_rules tracked_Wait)

lemma cleanup_cmds_guarded:
  assumes "swtpm_contract S pf n" and "run_state (for_each ps (cleanup_cmd S)) s = (u, s')" and "guarded pf n s"
    and "\<forall>a \<in> set ps. a < length (cmds s)"
  shows "guarded pf n s'"
  using assms(2-4)
proof (induction ps arbitrary: s)
  case (Cons p ps)
  obtain t where t: "run_state (cleanup_cmd S p) s = ((), t)" by (metis old.unit.exhaust surj_pair)
  have "tracked pf n p t"
    using preservesD [OF cleanup_cmd_tracked [OF assms(1)] t] Cons.prems by (simp add: tracked_def)
  moreover have "length (cmds t) = length (cmds s)" using cleanup_cmd_effect(2) [OF t] Cons.prems by simp
  ultimately show ?case using Cons.IH [of t] Cons.prems t by (simp add: tracked_def)
qed simp

lemma CleanupAll_stops:
  assumes "swtpm_contract S pf n" and "guarded pf n s" and "run_state (CleanupAll S) s = (u, s')"
  shows "files s' pf = None \<and> signals_to n (hevents s') = [SIGTERM, SIGKILL]"
proof -
  let ?s1 = "s\<lparr>pm := (pm s)\<lparr>pm_canceled := True\<rparr>\<rparr>"
  obtain s2 where s2: "run_state (cleanupPIDFile pf) ?s1 = ((), s2)" by (metis old.unit.exhaust surj_pair)
  have "guarded pf n ?s1" by (rule guarded_frame [OF assms(2)]) simp_all
  from cleanupPIDFile_guarded [OF this s2] have g: "guarded pf n s2" "files s2 pf = None" "cmds s2 = cmds s" "pm s2 = pm ?s1" by simp_all
  have run: "run_state (for_each (processes (pm s)) (cleanup_cmd S)) s2 = (u, s')"
    using assms(2,3) s2 g(4) by (simp add: run_CleanupAll guarded_def Let_def)
  have "\<forall>a \<in> set (processes (pm s)). a < length (cmds s2)"
    using assms(2) g(3) by (simp add: guarded_def no_cmd_def)
  from cleanup_cmds_guarded [OF assms(1) run g(1) this] have "guarded pf n s'" .
  moreover have "files s' pf = None"
    using cleanup_cmds_keep [OF _ run] g(2) swtpm_contractD(3) [OF assms(1)] by (simp add: wait_keeps_def)
  ultimately show ?thesis using pid_in_None [of s' pf] by (simp add: guarded_def)
qed

lemma CleanupAll_idle:
  "idle pf n s \<Longrightarrow> run_state (CleanupAll S) s = (u, s') \<Longrightarrow> hevents s' = hevents s"
  by (auto simp: run_CleanupAll idle_def Let_def)

interpretation swtpm: deferred_cleanup "swtpm_guarded S pf n" "swtpm_stopped pf n" "CleanupAll S" for S pf n
proof
  show "triple (swtpm_guarded S pf n) (CleanupAll S) (\<lambda>_. swtpm_stopped pf n)"
  proof (rule tripleI)
    fix s s' and u :: unit
    assume g: "swtpm_guarded S pf n s" and run: "run_state (CleanupAll S) s = (u, s')"
    from g consider "idle pf n s" | "swtpm_contract S pf n" "guarded pf n s" unfolding swtpm_guarded_def by blast
    then show "swtpm_stopped pf n s'"
    proof cases
      case 1
      then show ?thesis using CleanupAll_idle [OF 1 run] unfolding swtpm_stopped_def idle_def no_swtpm_def by metis
    qed (use CleanupAll_stops run in \<open>unfold swtpm_stopped_def, blast\<close>)
  qed
qed

lemma idle_stopped: "idle pf n s \<Longrightarrow> swtpm_stopped pf n s"
  by (auto simp: idle_def swtpm_stopped_def no_swtpm_def)

lemma Run_stops:
  fixes S :: "'h sys"
  assumes "swtpm_contract S pf n" and "\<not> NoCleanup cfg"
  shows "triple (idle pf n) (Run GOOS GOARCH S cfg) (\<lambda>_. swtpm_stopped pf n)"
proof -
  have body: "triple (idle pf n) (deferred body (CleanupAll S)) (\<lambda>_. swtpm_stopped pf n)"
    if "triple (idle pf n) body (settled pf n)" for body :: "('h rstate, go_error + unit) state"
    using that by (intro swtpm.deferred_stops [of _ _ S]) (rule triple_post, assumption, simp add: swtpm_guarded_def assms(1))
  have err: "triple (idle pf n) (on_err r wrap k) (\<lambda>_. swtpm_stopped pf n)"
    if "\<And>x. triple (idle pf n) (k x) (\<lambda>_. swtpm_stopped pf n)"
    for r :: "go_error + unit" and wrap and k :: "unit \<Rightarrow> ('h rstate, go_error + unit) state"
    using that by (cases r) (auto intro: triple_return idle_stopped)
  show ?thesis unfolding Run_def Let_def using assms(2)
    by (intro triple_seq err idle.frame_checks)
       (simp add: body runBuildMode_settles [OF assms(1)] runRunMode_settles [OF assms(1)])
qed

text \<open>(C1) No emulator is left behind: whatever happens on the way (a check that fails, a tool that
  fails, a QEMU that does not start, exits badly, times out or is cancelled), in build mode and in
  both run modes, when \<open>Run\<close> returns a swtpm that was started has been sent SIGTERM and then SIGKILL,
  once each, and its pid file is gone, unless \<open>NoCleanup\<close> is set.\<close>

theorem Run_stops_swtpm:
  assumes "swtpm_contract S pf n" and "\<not> NoCleanup cfg" and "\<not> unreadable s pf" and "\<not> unremovable s pf"
    and "pm s = NewProcessManager" and "cmds s = []" and "hevents s = []"
    and "run_state (Run GOOS GOARCH S cfg) s = (r, s')" and "HSwtpm p \<in> set (hevents s')"
  shows "signals_to n (hevents s') = [SIGTERM, SIGKILL] \<and> files s' pf = None"
proof -
  have "idle pf n s" using assms(3-7) by (simp add: idle_def accessible_def no_swtpm_def NewProcessManager_def)
  from tripleD [OF Run_stops [OF assms(1,2)] this assms(8)] show ?thesis
    using assms(9) by (auto simp: swtpm_stopped_def)
qed

subsection \<open>A concrete run\<close>

text \<open>The trace only grows.\<close>

definition happened :: "hevent \<Rightarrow> 'h rstate \<Rightarrow> bool" where
  "happened e s \<longleftrightarrow> e \<in> set (hevents s)"

lemma happened_prims [preserves_rules]:
  "preserves (happened e) (prog p)" "preserves (happened e) (hemit x)" "preserves (happened e) (Printf f as)"
  "preserves (happened e) (time_Sleep d)" "preserves (happened e) (AddPIDFile q)" "preserves (happened e) (AddProcess a)"
  "preserves (happened e) (AttachTagged a fd tag st)"
  "preserves (happened e) (cmd_update a g)" "preserves (happened e) (cleanupPIDFile q)"
  "preserves (happened e) (modify (\<lambda>s. s\<lparr>pm := m s\<rparr>))" "preserves (happened e) (exec_CommandContext path args)"
  by (auto simp: preserves_def happened_def run_prog AddPIDFile_def AddProcess_def AttachTagged_def attach_def
      cmd_update_def run_cleanupPIDFile exec_CommandContext_def split: prod.splits StreamType.splits)

lemma happened_cmds [preserves_rules]:
  "preserves (happened e) (cmd_Signal a sig)" "preserves (happened e) (cmd_Start S a)" "preserves (happened e) (cmd_Wait S a)"
  unfolding cmd_Signal_def cmd_Start_def cmd_Wait_def by (intro preserves_rules)+

lemma happened_await [preserves_rules]:
  "preserves (happened e) (awaitBuild S a)" "preserves (happened e) (CleanupAll S)"
  unfolding awaitBuild_def reaped_def CleanupAll_def cleanup_cmd_def
  by (intro preserves_rules preserves_wait_event preserves_exec_error)+

lemma run_bind_fst: "fst (run_state m s) = a \<Longrightarrow> run_state (State_Monad.bind m f) s = run_state (f a) (snd (run_state m s))"
  by (cases "run_state m s") simp

definition demo_start_state :: "unit rstate" where
  "demo_start_state = demo_rstate [(''/fw/code.fd'', (''code'', 0)), (''/fw/vars.fd'', (''vars'', 0)), (''/iso/os.iso'', (''iso'', 0))]"

abbreviation demo_timeout :: "unit sys" where
  "demo_timeout \<equiv> demo_with (TimeAfter False)"

lemma demo_contract: "swtpm_contract demo_timeout ''/run/swtpm.pid'' 4242"
proof -
  have "Atoi (TrimSpace ''4242\<newline>'') = Inr 4242" by code_simp
  then show ?thesis unfolding swtpm_contract_def demo_with_def demo_sys_def demo_swtpm_def keeps_def by simp
qed

definition demo_checked :: "unit rstate" where
  "demo_checked = snd (run_state (resolveWorkDir demo_timeout demo_config)
     (snd (run_state (validateOVMF demo_timeout demo_config) (snd (run_state (checkBridgeSetup demo_timeout demo_config) demo_start_state)))))"

lemma demo_checks:
  "run_state (Run ''linux'' ''amd64'' demo_timeout demo_config) demo_start_state =
   run_state (deferred (runBuildMode ''linux'' ''amd64'' demo_timeout demo_config) (CleanupAll demo_timeout)) demo_checked"
proof -
  let ?s1 = "snd (run_state (checkBridgeSetup demo_timeout demo_config) demo_start_state)"
  let ?s2 = "snd (run_state (validateOVMF demo_timeout demo_config) ?s1)"
  have "fst (run_state (checkBridgeSetup demo_timeout demo_config) demo_start_state) = Inr ()"
    "fst (run_state (validateOVMF demo_timeout demo_config) ?s1) = Inr ()"
    "fst (run_state (resolveWorkDir demo_timeout demo_config) ?s2) = Inr ()" "Mode demo_config = ''build''" "NoCleanup demo_config = False"
    by code_simp+
  then show ?thesis unfolding Run_def demo_checked_def Let_def
    by (simp only: run_bind_fst on_err_simps if_True simp_thms not_False_eq_True)
qed

lemma preserves_snd: "preserves I m \<Longrightarrow> I s \<Longrightarrow> I (snd (run_state m s))"
  by (simp add: preserves_def)

lemma startTPM_happened:
  "fst (run_state (startTPMWithDir S cfg dir) s) = Inr (sock, p) \<Longrightarrow> happened (HSwtpm p) (snd (run_state (startTPMWithDir S cfg dir) s))"
  by (auto simp: startTPMWithDir_def run_prog happened_def on_err_def split: prod.splits sum.splits)

lemma demo_run_steps:
  fixes dir :: string and s :: "unit rstate"
  defines "s1 \<equiv> snd (run_state (Printf ''Running in build mode for %s\<newline>'' [AStr (ServerName demo_config)]) demo_checked)"
  shows "fst (run_state (useTapDevice demo_timeout demo_config) s1) = Inr ''tap0''"
    "fst (run_state (buildArtifacts demo_timeout demo_config) (snd (run_state (useTapDevice demo_timeout demo_config) s1))) = Inr ()"
    "fst (run_state (startTPMWithDir demo_timeout demo_config dir) s) = Inr (path_join [dir, ''swtpm-sock''], ''/run/swtpm.pid'')"
proof -
  show "fst (run_state (useTapDevice demo_timeout demo_config) s1) = Inr ''tap0''" unfolding s1_def by code_simp
  show "fst (run_state (buildArtifacts demo_timeout demo_config) (snd (run_state (useTapDevice demo_timeout demo_config) s1))) = Inr ()"
    unfolding s1_def by code_simp
  show "fst (run_state (startTPMWithDir demo_timeout demo_config dir) s) = Inr (path_join [dir, ''swtpm-sock''], ''/run/swtpm.pid'')"
    by (simp add: startTPMWithDir_def run_prog demo_with_def demo_sys_def demo_swtpm_def del: path_join.simps)
qed

text \<open>Steps that succeed on every state of the demonstration host.\<close>

lemma demo_steps:
  fixes s :: "unit rstate"
  shows "fst (run_state (AddPIDFile q) s) = ()" "fst (run_state (time_Sleep d) s) = ()" "fst (run_state (Printf f as) s) = ()"
    "fst (run_state (exec_CommandContext path args) s) = length (cmds s)"
    "fst (run_state (prog (sys_Pipe (demo_with ev) fd)) s) = None" "fst (run_state (cmd_Start (demo_with ev) a) s) = None"
    "fst (run_state (gets g) s) = g s"
  by (simp_all add: AddPIDFile_def exec_CommandContext_def run_prog cmd_Start_def cmd_update_def demo_with_def demo_sys_def)

lemma cleanup_keeps_happened:
  "happened e (snd (run_state (runBuildMode ''linux'' ''amd64'' demo_timeout demo_config) demo_checked)) \<Longrightarrow>
   happened e (snd (run_state (Run ''linux'' ''amd64'' demo_timeout demo_config) demo_start_state))"
  unfolding demo_checks deferred_def
  by (simp only: run_bind_fst [OF refl] run_state_return snd_conv)
     (rule preserves_snd [where I = "happened e"], intro preserves_rules)

lemma demo_starts_swtpm:
  "happened (HSwtpm ''/run/swtpm.pid'') (snd (run_state (Run ''linux'' ''amd64'' demo_timeout demo_config) demo_start_state))"
  unfolding runBuildMode_def
  by (rule cleanup_keeps_happened, unfold runBuildMode_def,
      simp only: run_bind_fst [OF demo_steps(3)] run_bind_fst [OF demo_run_steps(1)] run_bind_fst [OF demo_run_steps(2)]
        run_bind_fst [OF demo_steps(7)] run_bind_fst [OF demo_run_steps(3)] on_err_simps prod.case)
     (rule preserves_snd [where I = "happened (HSwtpm ''/run/swtpm.pid'')", OF _ startTPM_happened [OF demo_run_steps(3)]],
      intro preserves_rules)

theorem Run_stops_swtpm_witness:
  "let s' = snd (run_state (Run ''linux'' ''amd64'' demo_timeout demo_config) demo_start_state)
   in HSwtpm ''/run/swtpm.pid'' \<in> set (hevents s') \<and> signals_to 4242 (hevents s') = [SIGTERM, SIGKILL]"
proof -
  have d: "\<not> NoCleanup demo_config" "\<not> unreadable demo_start_state ''/run/swtpm.pid''" "\<not> unremovable demo_start_state ''/run/swtpm.pid''"
    "pm demo_start_state = NewProcessManager" "cmds demo_start_state = []" "hevents demo_start_state = []"
    by (simp_all add: demo_config_def demo_start_state_def demo_rstate_def)
  note h = demo_starts_swtpm [unfolded happened_def]
  from Run_stops_swtpm [OF demo_contract d surjective_pairing h] show ?thesis using h by (simp only: Let_def simp_thms)
qed

end
