(* ===== verification/RunnerProps.thy ===== *)
theory RunnerProps
  imports RunnerSafety
begin

text \<open>
  Further properties of the runner: what the checks accept, that nothing is started before they have
  passed, what happens to the disk in run mode, how the end of QEMU shows in the result, and that a
  run finds what a build has left.
\<close>

section \<open>Checks before anything is started\<close>

lemma run_exec_Run:
  "run_state (exec_Run S path args) s =
     (case sys_Run S path args (files s) (ext s) of (a, fs, h) \<Rightarrow> (a, s\<lparr>hevents := hevents s @ [HRun path args], files := fs, ext := h\<rparr>))"
  by (simp add: exec_Run_def run_prog split: prod.splits)

text \<open>What the check of the bridge looks at: the answers of the two \<open>ip\<close> commands.\<close>

definition bridge_ok :: "RunnerConfig \<Rightarrow> string \<times> exec_error option \<Rightarrow> string \<times> exec_error option \<Rightarrow> bool" where
  "bridge_ok cfg link addr \<longleftrightarrow>
     snd link = None \<and> sublist ''<'' (fst link) \<and> sublist ''UP'' (fst link) \<and>
     (SecondTapDevice cfg \<noteq> [] \<longrightarrow>
        snd addr = None \<and> sublist (IPv4 (Transit cfg)) (fst addr) \<and> sublist (IPv6 (Transit cfg)) (fst addr))"

text \<open>The network check passes exactly when \<open>ip\<close> knows the bridge and its output has a \<open><\<close> and the
  letters \<open>UP\<close> in it and, when a second tap device is configured, \<open>ip\<close> knows that device and lists
  every configured transit address for it.\<close>

theorem checkBridgeSetup_iff:
  "fst (run_state (checkBridgeSetup S cfg) s) = Inr () \<longleftrightarrow>
     (let (link, fs, h) = sys_Run S ''ip'' [''link'', ''show'', BridgeName cfg] (files s) (ext s);
          (addr, _, _) = sys_Run S ''ip'' [''addr'', ''show'', SecondTapDevice cfg] fs h
      in bridge_ok cfg link addr)"
  unfolding checkBridgeSetup_def checkHostTap_def Let_def bridge_ok_def
  by (auto simp: run_exec_Run Contains_iff split: prod.splits if_splits)

text \<open>The letters may come from anywhere: a bridge that is administratively down passes the check
  when, say, its name contains them.\<close>

theorem checkBridgeSetup_accepts_down:
  "let S = demo_sys\<lparr>sys_Run := (\<lambda>path args fs h. ((''5: UPLINK: <BROADCAST,MULTICAST> mtu 1500 qdisc noop state DOWN'', None), fs, h))\<rparr>
   in fst (run_state (checkBridgeSetup S (demo_config\<lparr>BridgeName := ''UPLINK''\<rparr>)) (demo_rstate [])) = Inr ()"
  by code_simp

section \<open>The disk in run mode\<close>

lemma setupRunDisk_copy:
  "run_state (setupRunDisk (S\<lparr>vm_CopyFile := c\<rparr>) cfg p p) s = run_state (setupRunDisk S cfg p p) s"
proof -
  have n: "run_state (isNewer p p) s = (False, s)" by (auto simp: isNewer_def split: option.splits)
  have q: "qemu_img_create (S\<lparr>vm_CopyFile := c\<rparr>) cfg p = qemu_img_create S cfg p"
    by (simp add: qemu_img_create_def exec_Run_def)
  show ?thesis
    by (cases "vm_FileExists S p (files s) (ext s)") (simp_all add: setupRunDisk_def fileExists_def n q)
qed

text \<open>(C35) In run mode the disk of a build is never overwritten: the branch of \<open>setupRunArtifacts\<close> that
  copies a newer disk image is dead, since source and destination are the same file. What
  \<open>vm.CopyFile\<close> would do does not matter.\<close>

theorem setupRunArtifacts_never_copies:
  "run_state (setupRunArtifacts (S\<lparr>vm_CopyFile := c\<rparr>) cfg (diskPath s)) s = run_state (setupRunArtifacts S cfg (diskPath s)) s"
proof -
  obtain x fs h where m: "sys_MkdirAll S (workDir s) 493 (files s) (ext s) = (x, fs, h)" by (metis prod_cases3)
  have d: "diskPath (s\<lparr>files := fs, ext := h\<rparr>) = diskPath s" by (simp add: diskPath_def)
  have f: "fileExists (S\<lparr>vm_CopyFile := c\<rparr>) = fileExists S" by (simp add: fileExists_def fun_eq_iff)
  have b: "checkBuilt (S\<lparr>vm_CopyFile := c\<rparr>) = checkBuilt S" unfolding checkBuilt_def f ..
  show ?thesis
    by (cases x) (simp_all add: setupRunArtifacts_def os_MkdirAll_def run_prog m d b setupRunDisk_copy)
qed

section \<open>Nothing starts unchecked\<close>

definition no_start :: "'h rstate \<Rightarrow> bool" where
  "no_start s \<longleftrightarrow> (\<forall>pid path args. HStart pid path args \<notin> set (hevents s))"

interpretation quiet: host_frame no_start
  by unfold_locales (auto simp: no_start_def)

lemma no_start_prims [preserves_rules]:
  "preserves no_start (time_Sleep d)" "preserves no_start (cleanupPIDFile q)" "preserves no_start (cmd_update a g)"
  "preserves no_start (modify (\<lambda>s. s\<lparr>pm := m s\<rparr>))" "preserves no_start (hemit (HSignal pid sig))"
  by (auto simp: preserves_def no_start_def run_cleanupPIDFile pid_trace_def escalation_def cmd_update_def split: option.splits)

lemma no_start_CleanupAll: "preserves no_start (CleanupAll S)"
  unfolding CleanupAll_def cleanup_cmd_def cmd_Signal_def cmd_Wait_def
  by (intro preserves_rules quiet.frame_prims)

lemma validateOVMF_ok:
  "fst (run_state (validateOVMF S cfg) s) = Inr () \<longleftrightarrow>
     (let exists = (\<lambda>p. vm_FileExists S p (files s) (ext s)); tp = Tools cfg
      in OVMFCode tp \<noteq> [] \<and> exists (OVMFCode tp) \<and> (Mode cfg = ''build'' \<longrightarrow> OVMFVars tp \<noteq> [] \<and> exists (OVMFVars tp)))"
  by (simp add: validateOVMF_def fileExists_def Let_def)

text \<open>The check of the tap devices: \<open>ip\<close> knows the configured device and the second one, if there is one.\<close>

definition tap_ok :: "'h sys \<Rightarrow> RunnerConfig \<Rightarrow> files \<Rightarrow> 'h \<Rightarrow> bool" where
  "tap_ok S cfg fs h \<longleftrightarrow>
     TapDevice cfg \<noteq> [] \<and>
     (let (link, fs1, h1) = sys_Run S ''ip'' [''link'', ''show'', TapDevice cfg] fs h;
          (link2, _, _) = sys_Run S ''ip'' [''link'', ''show'', SecondTapDevice cfg] fs1 h1
      in snd link = None \<and> (SecondTapDevice cfg \<noteq> [] \<longrightarrow> snd link2 = None))"

lemma useTapDevice_ok: "isl (fst (run_state (useTapDevice S cfg) s)) \<longleftrightarrow> \<not> tap_ok S cfg (files s) (ext s)"
proof -
  obtain o1 e1 fs1 h1 where 1: "sys_Run S ''ip'' [''link'', ''show'', TapDevice cfg] (files s) (ext s) = ((o1, e1), fs1, h1)" by (metis prod.collapse)
  obtain o2 e2 fs2 h2 where 2: "sys_Run S ''ip'' [''link'', ''show'', SecondTapDevice cfg] fs1 h1 = ((o2, e2), fs2, h2)" by (metis prod.collapse)
  show ?thesis unfolding useTapDevice_def tap_ok_def Let_def
    by (cases "TapDevice cfg = []"; cases e1; cases "SecondTapDevice cfg = []"; cases e2) (simp_all add: run_exec_Run 1 2)
qed

lemma no_tap_no_start:
  assumes "no_start s" and "\<not> tap_ok S cfg (files s) (ext s)"
  shows "no_start (snd (run_state (runBuildMode GOOS GOARCH S cfg) s))" "no_start (snd (run_state (runRunMode GOOS GOARCH S cfg) s))"
proof -
  have "no_start (snd (run_state (do { Printf f as; r \<leftarrow> useTapDevice S cfg; on_err r wrap k }) s))" for f as wrap
    and k :: "string \<Rightarrow> ('a rstate, go_error + unit) state"
  proof -
    let ?t = "s\<lparr>hevents := hevents s @ [HPrint f as]\<rparr>"
    have "isl (fst (run_state (useTapDevice S cfg) ?t))" using assms(2) by (simp add: useTapDevice_ok)
    then obtain e u where e: "run_state (useTapDevice S cfg) ?t = (Inl e, u)"
      by (cases "run_state (useTapDevice S cfg) ?t") (auto simp: isl_def)
    have "no_start ?t" using assms(1) by (simp add: no_start_def)
    from preservesD [OF quiet.frame_checks(2) e this] show ?thesis by (simp add: e)
  qed
  then show "no_start (snd (run_state (runBuildMode GOOS GOARCH S cfg) s))" "no_start (snd (run_state (runRunMode GOOS GOARCH S cfg) s))"
    unfolding runBuildMode_def runRunMode_def by blast+
qed

text \<open>The host after the bridge, firmware and work directory checks.\<close>

definition checked :: "'h sys \<Rightarrow> RunnerConfig \<Rightarrow> 'h rstate \<Rightarrow> 'h rstate" where
  "checked S cfg s = snd (run_state (resolveWorkDir S cfg) (snd (run_state (validateOVMF S cfg) (snd (run_state (checkBridgeSetup S cfg) s)))))"

lemma Run_no_start:
  assumes "no_start s" and "fst (run_state (checkBridgeSetup S cfg) s) \<noteq> Inr () \<or>
     fst (run_state (validateOVMF S cfg) (snd (run_state (checkBridgeSetup S cfg) s))) \<noteq> Inr () \<or>
     \<not> tap_ok S cfg (files (checked S cfg s)) (ext (checked S cfg s))"
  shows "no_start (snd (run_state (Run GOOS GOARCH S cfg) s))"
proof -
  let ?c = "run_state (checkBridgeSetup S cfg) s" and ?v = "run_state (validateOVMF S cfg) (snd (run_state (checkBridgeSetup S cfg) s))"
  let ?w = "run_state (resolveWorkDir S cfg) (snd ?v)"
  have c: "no_start (snd ?c)" by (rule preserves_snd [OF quiet.frame_checks(1) assms(1)])
  have v: "no_start (snd ?v)" by (rule preserves_snd [OF quiet.frame_checks(3) c])
  have w: "no_start (snd ?w)" by (rule preserves_snd [OF quiet.frame_checks(4) v])
  consider (bridge) e where "fst ?c = Inl e" | (ovmf) e where "fst ?c = Inr ()" "fst ?v = Inl e"
    | (dir) e where "fst ?c = Inr ()" "fst ?v = Inr ()" "fst ?w = Inl e"
    | (tap) "fst ?c = Inr ()" "fst ?v = Inr ()" "fst ?w = Inr ()" "\<not> tap_ok S cfg (files (snd ?w)) (ext (snd ?w))"
    using assms(2) unfolding checked_def by (cases "fst ?c"; cases "fst ?v"; cases "fst ?w") auto
  then show ?thesis
  proof cases
    case tap
    note n = no_tap_no_start [OF w tap(4)]
    have d: "no_start (snd (run_state (deferred m (CleanupAll S)) (snd ?w)))" if "no_start (snd (run_state m (snd ?w)))"
      for m :: "('a rstate, go_error + unit) state"
      using preserves_snd [OF no_start_CleanupAll that] unfolding deferred_def
      by (simp only: run_bind_fst [OF refl] run_state_return snd_conv)
    show ?thesis unfolding Run_def Let_def
      by (simp only: run_bind_fst [OF tap(1)] run_bind_fst [OF tap(2)] run_bind_fst [OF tap(3)] on_err_simps split: if_split) (simp add: n d)
  next
    case bridge
    with c show ?thesis unfolding Run_def by (simp only: run_bind_fst [OF bridge] on_err_simps run_state_return snd_conv)
  next
    case ovmf
    with v show ?thesis unfolding Run_def
      by (simp only: run_bind_fst [OF ovmf(1)] run_bind_fst [OF ovmf(2)] on_err_simps run_state_return snd_conv)
  next
    case dir
    with w show ?thesis unfolding Run_def
      by (simp only: run_bind_fst [OF dir(1)] run_bind_fst [OF dir(2)] run_bind_fst [OF dir(3)] on_err_simps run_state_return snd_conv)
  qed
qed

text \<open>(C16) QEMU is started only after the checks: when a process has been started, the bridge check had
  passed, the firmware was configured and there (in build mode the variables template too), and a
  tap device was configured and \<open>ip link show\<close>, run after these checks, had found it, and the second one where one
  is configured.\<close>

theorem Run_starts_checked:
  assumes "run_state (Run GOOS GOARCH S cfg) s = (r, s')" and "hevents s = []" and "HStart pid path args \<in> set (hevents s')"
  shows "fst (run_state (checkBridgeSetup S cfg) s) = Inr () \<and>
    OVMFCode (Tools cfg) \<noteq> [] \<and> (Mode cfg = ''build'' \<longrightarrow> OVMFVars (Tools cfg) \<noteq> []) \<and>
    (let t = snd (run_state (checkBridgeSetup S cfg) s)
     in vm_FileExists S (OVMFCode (Tools cfg)) (files t) (ext t) \<and>
        (Mode cfg = ''build'' \<longrightarrow> vm_FileExists S (OVMFVars (Tools cfg)) (files t) (ext t))) \<and>
    tap_ok S cfg (files (checked S cfg s)) (ext (checked S cfg s))"
proof -
  have "no_start s" using assms(2) by (simp add: no_start_def)
  moreover have "\<not> no_start (snd (run_state (Run GOOS GOARCH S cfg) s))" using assms(1,3) by (auto simp: no_start_def)
  ultimately have "fst (run_state (checkBridgeSetup S cfg) s) = Inr ()"
    "fst (run_state (validateOVMF S cfg) (snd (run_state (checkBridgeSetup S cfg) s))) = Inr ()"
    "tap_ok S cfg (files (checked S cfg s)) (ext (checked S cfg s))"
    using Run_no_start [of s S cfg GOOS GOARCH] by blast+
  then show ?thesis unfolding validateOVMF_ok Let_def by blast
qed

text \<open>The demonstration run starts QEMU.\<close>

lemma cmd_Start_happened:
  assumes "fst (run_state (cmd_Start S a) s) = None"
  obtains pid where "happened (HStart pid (cmd_path (cmds s ! a)) (cmd_args (cmds s ! a))) (snd (run_state (cmd_Start S a) s))"
  using assms by (auto simp: cmd_Start_def run_prog cmd_update_def happened_def split: prod.splits sum.splits)

lemma demo_starts_qemu:
  "\<exists>pid path args. happened (HStart pid path args) (snd (run_state (Run ''linux'' ''amd64'' demo_timeout demo_config) demo_start_state))"
proof -
  have key: "\<exists>pid path args. happened (HStart pid path args) (snd (run_state (State_Monad.bind (cmd_Start demo_timeout a) k) s))"
    if "\<And>e r. preserves (happened e) (k r)" for a s and k :: "go_error option \<Rightarrow> (unit rstate, go_error + unit) state"
    using cmd_Start_happened [OF demo_steps(6)] preserves_snd [OF that] unfolding run_bind_fst [OF demo_steps(6)] by metis
  have "\<exists>pid path args. happened (HStart pid path args) (snd (run_state (runBuildMode ''linux'' ''amd64'' demo_timeout demo_config) demo_checked))"
    unfolding runBuildMode_def
    by (simp only: run_bind_fst [OF demo_steps(3)] run_bind_fst [OF demo_run_steps(1)] run_bind_fst [OF demo_run_steps(2)]
       run_bind_fst [OF demo_steps(7)] run_bind_fst [OF demo_run_steps(3)] run_bind_fst [OF demo_steps(1)] run_bind_fst [OF demo_steps(2)]
       run_bind_fst [OF demo_steps(4)] run_bind_fst [OF demo_steps(5)] on_err_simps on_some_err_simps prod.case)
      (rule key, intro preserves_rules)
  then show ?thesis using cleanup_keeps_happened by blast
qed

theorem Run_starts_checked_witness:
  "fst (run_state (checkBridgeSetup demo_timeout demo_config) demo_start_state) = Inr () \<and>
   tap_ok demo_timeout demo_config (files (checked demo_timeout demo_config demo_start_state)) ()"
proof -
  from demo_starts_qemu obtain pid path args where
    "HStart pid path args \<in> set (hevents (snd (run_state (Run ''linux'' ''amd64'' demo_timeout demo_config) demo_start_state)))"
    unfolding happened_def by blast
  moreover have "hevents demo_start_state = []" by (simp add: demo_start_state_def demo_rstate_def)
  ultimately show ?thesis using Run_starts_checked [OF surjective_pairing] by (metis old.unit.exhaust)
qed

section \<open>The exit status with tagged output\<close>

lemma fst_bind_cong:
  "(\<And>a t. fst (run_state (f a) t) = fst (run_state (g a) t)) \<Longrightarrow> fst (run_state (State_Monad.bind m f) s) = fst (run_state (State_Monad.bind m g) s)"
  by (simp add: run_bind_fst [OF refl] split: prod.split)

lemma fst_on_some_err_cong:
  "fst (run_state k t) = fst (run_state k' t) \<Longrightarrow> fst (run_state (on_some_err r wrap k) t) = fst (run_state (on_some_err r wrap k') t)"
  by (cases r) simp_all

text \<open>With tagged output QEMU's exit status is not looked at: the result of the run is the same
  whatever \<open>Wait\<close> reports.\<close>

theorem runTagged_ignores_status:
  "fst (run_state (runTagged (S\<lparr>sys_Wait := w\<rparr>) cfg a) s) = fst (run_state (runTagged S cfg a) s)"
proof -
  have f: "sys_Reads (S\<lparr>sys_Wait := w\<rparr>) = sys_Reads S" "sys_Start (S\<lparr>sys_Wait := w\<rparr>) = sys_Start S"
    "sys_Pipe (S\<lparr>sys_Wait := w\<rparr>) = sys_Pipe S" "vm_ProcessEscapeSequences (S\<lparr>sys_Wait := w\<rparr>) = vm_ProcessEscapeSequences S" by simp_all
  have e: "cmd_Start (S\<lparr>sys_Wait := w\<rparr>) b = cmd_Start S b" "WaitMonitored (S\<lparr>sys_Wait := w\<rparr>) = WaitMonitored S" for b
    unfolding cmd_Start_def WaitMonitored_def finish_stream_def f by (rule refl)+
  have "fst (run_state (State_Monad.bind m (\<lambda>_. ret x)) t) = fst (run_state (State_Monad.bind m' (\<lambda>_. ret x)) t)"
    for m m' :: "('a rstate, exec_error option) state" and x :: "go_error + unit" and t
    by (simp split: prod.split)
  note last = this
  show ?thesis unfolding runTagged_def e f
    by (intro fst_bind_cong fst_on_some_err_cong last)
qed

section \<open>From build to run\<close>

definition permall :: "string \<Rightarrow> string" where
  "permall dir = path_join [dir, ''tpm2-00.permall'']"

text \<open>The files a run expects in the work directory.\<close>

definition artifacts :: "string \<Rightarrow> string list" where
  "artifacts w = [path_join [w, ''vars.fd''], path_join [w, ''disk.img''], permall (path_join [w, ''tpm''])]"

text \<open>External code that does not delete these files.\<close>

definition spares :: "string list \<Rightarrow> ('h, 'a) prog \<Rightarrow> bool" where
  "spares ps p \<longleftrightarrow> (\<forall>fs h. \<forall>q \<in> set ps. fs q \<noteq> None \<longrightarrow> fst (snd (p fs h)) q \<noteq> None)"

lemma sparesD: "spares ps p \<Longrightarrow> p fs h = (a, fs', h') \<Longrightarrow> q \<in> set ps \<Longrightarrow> fs q \<noteq> None \<Longrightarrow> fs' q \<noteq> None"
  unfolding spares_def by (metis fst_conv snd_conv)

text \<open>
  What the external tools promise: \<open>vm.FileExists\<close> looks at the files; copying, \<open>qemu-img create\<close> and
  setting up the TPM state leave the file they are asked for when they report success; nobody
  deletes an artifact, and the pid file of swtpm is none.
\<close>

definition tools_contract :: "'h sys \<Rightarrow> string \<Rightarrow> bool" where
  "tools_contract S w \<longleftrightarrow>
     (\<forall>p fs h. vm_FileExists S p fs h \<longleftrightarrow> fs p \<noteq> None) \<and>
     (\<forall>src dst fs h fs' h'. vm_CopyFile S src dst fs h = (None, fs', h') \<longrightarrow> fs' dst \<noteq> None) \<and>
     (\<forall>img f raw path sz fs h out fs' h'. sys_Run S img [''create'', f, raw, path, sz] fs h = ((out, None), fs', h') \<longrightarrow> fs' path \<noteq> None) \<and>
     (\<forall>x dir banks fs h fs' h'. vm_InitializeTPMState S x dir banks fs h = (None, fs', h') \<longrightarrow> fs' (permall dir) \<noteq> None) \<and>
     (\<forall>src dst fs h fs' h'. vm_CopyDir S src dst fs h = (None, fs', h') \<longrightarrow> fs (permall src) \<noteq> None \<longrightarrow> fs' (permall dst) \<noteq> None) \<and>
     (\<forall>d m fs h e fs' h'. sys_MkdirAll S d m fs h = (e, fs', h') \<longrightarrow> fs' = fs) \<and>
     (\<forall>path args. spares (artifacts w) (sys_Run S path args)) \<and>
     (\<forall>path args. spares (artifacts w) (sys_Start S path args)) \<and>
     (\<forall>x y. spares (artifacts w) (vm_CopyFile S x y)) \<and>
     (\<forall>x y. spares (artifacts w) (vm_CopyDir S x y)) \<and>
     (\<forall>x y. spares (artifacts w) (vm_StartSwtpm S x y)) \<and>
     (\<forall>x y z. spares (artifacts w) (vm_InitializeTPMState S x y z)) \<and>
     (\<forall>i. spares (artifacts w) (sys_Pipe S i)) \<and>
     (\<forall>i. spares (artifacts w) (sys_Wait S i)) \<and>
     (\<forall>i. spares (artifacts w) (sys_Select S i)) \<and>
     (\<forall>x y fs h sock p fs' h'. vm_StartSwtpm S x y fs h = (Inr (sock, p), fs', h') \<longrightarrow> p \<notin> set (artifacts w))"

lemma tools_contractD:
  assumes "tools_contract S w"
  shows "\<forall>p fs h. vm_FileExists S p fs h \<longleftrightarrow> fs p \<noteq> None"
    "\<forall>src dst fs h fs' h'. vm_CopyFile S src dst fs h = (None, fs', h') \<longrightarrow> fs' dst \<noteq> None"
    "\<forall>img f raw path sz fs h out fs' h'. sys_Run S img [''create'', f, raw, path, sz] fs h = ((out, None), fs', h') \<longrightarrow> fs' path \<noteq> None"
    "\<forall>x dir banks fs h fs' h'. vm_InitializeTPMState S x dir banks fs h = (None, fs', h') \<longrightarrow> fs' (permall dir) \<noteq> None"
    "\<forall>src dst fs h fs' h'. vm_CopyDir S src dst fs h = (None, fs', h') \<longrightarrow> fs (permall src) \<noteq> None \<longrightarrow> fs' (permall dst) \<noteq> None"
    "\<forall>d m fs h e fs' h'. sys_MkdirAll S d m fs h = (e, fs', h') \<longrightarrow> fs' = fs"
    "\<forall>path args. spares (artifacts w) (sys_Run S path args)"
    "\<forall>path args. spares (artifacts w) (sys_Start S path args)"
    "\<forall>x y. spares (artifacts w) (vm_CopyFile S x y)"
    "\<forall>x y. spares (artifacts w) (vm_CopyDir S x y)"
    "\<forall>x y. spares (artifacts w) (vm_StartSwtpm S x y)"
    "\<forall>x y z. spares (artifacts w) (vm_InitializeTPMState S x y z)"
    "\<forall>i. spares (artifacts w) (sys_Pipe S i)"
    "\<forall>i. spares (artifacts w) (sys_Wait S i)"
    "\<forall>i. spares (artifacts w) (sys_Select S i)"
    "\<forall>x y fs h sock p fs' h'. vm_StartSwtpm S x y fs h = (Inr (sock, p), fs', h') \<longrightarrow> p \<notin> set (artifacts w)"
  using assms unfolding tools_contract_def by - (elim conjE, assumption)+

text \<open>Some of the artifacts are there.\<close>

definition has :: "string \<Rightarrow> string list \<Rightarrow> 'h rstate \<Rightarrow> bool" where
  "has w ps s \<longleftrightarrow> workDir s = w \<and> set ps \<subseteq> set (artifacts w) \<and> (\<forall>p \<in> set ps. files s p \<noteq> None)"

lemma has_prog: "spares (artifacts w) p \<Longrightarrow> preserves (has w ps) (prog p)"
  by (rule preserves_prog) (auto simp: has_def dest!: sparesD)

lemma has_prims [preserves_rules]:
  "preserves (has w ps) (hemit e)" "preserves (has w ps) (Printf f as)" "preserves (has w ps) (time_Sleep d)"
  "preserves (has w ps) (AddPIDFile q)" "preserves (has w ps) (AttachTagged a fd tag st)"
  "preserves (has w ps) (cmd_update a g)" "preserves (has w ps) (exec_CommandContext path args)"
  by (auto simp: preserves_def has_def AddPIDFile_def AttachTagged_def attach_def cmd_update_def exec_CommandContext_def
      split: StreamType.splits)

lemma has_cmds:
  assumes "tools_contract S w"
  shows "preserves (has w ps) (cmd_Signal a sig)" "preserves (has w ps) (cmd_Start S a)" "preserves (has w ps) (awaitBuild S a)"
  unfolding cmd_Signal_def cmd_Start_def awaitBuild_def reaped_def
  by (intro preserves_rules has_prog preserves_wait_event preserves_exec_error tools_contractD [OF assms, rule_format])+

lemma has_cleanup: "q \<notin> set (artifacts w) \<Longrightarrow> preserves (has w ps) (cleanupPIDFile q)"
  by (rule preservesI) (auto simp: has_def run_cleanupPIDFile removed_def)

text \<open>A step that leaves an artifact when it succeeds, and the error check after it.\<close>

definition on_ok :: "('h rstate \<Rightarrow> bool) \<Rightarrow> go_error + unit \<Rightarrow> 'h rstate \<Rightarrow> bool" where
  "on_ok P r s \<longleftrightarrow> (r = Inr () \<longrightarrow> P s)"

lemma then_some_err:
  assumes "triple P m (\<lambda>r s. r = None \<longrightarrow> P' s)" and "triple P' k (on_ok Q)"
  shows "triple P (State_Monad.bind m (\<lambda>r. on_some_err r wrap k)) (on_ok Q)"
proof (rule triple_bind [OF assms(1)])
  fix r show "triple (\<lambda>s. r = None \<longrightarrow> P' s) (on_some_err r wrap k) (on_ok Q)"
    using assms(2) by (cases r) (auto intro: triple_return simp: on_ok_def)
qed

lemma then_err:
  assumes "triple P m (\<lambda>r s. \<forall>x. r = Inr x \<longrightarrow> P' x s)" and "\<And>x. triple (P' x) (k x) (on_ok Q)"
  shows "triple P (State_Monad.bind m (\<lambda>r. on_err r wrap k)) (on_ok Q)"
proof (rule triple_bind [OF assms(1)])
  fix r show "triple (\<lambda>s. \<forall>x. r = Inr x \<longrightarrow> P' x s) (on_err r wrap k) (on_ok Q)"
    using assms(2) by (cases r) (auto intro: triple_return simp: on_ok_def)
qed

lemma then_ok:
  assumes "triple P m (on_ok P')" and "triple P' k (on_ok Q)"
  shows "triple P (State_Monad.bind m (\<lambda>r. on_err r wrap (\<lambda>_. k))) (on_ok Q)"
  by (rule then_err [where P' = "\<lambda>_. P'"]) (use assms in \<open>auto simp: triple_def on_ok_def split: prod.splits\<close>)

lemma ret_ok: "triple P (ret (Inr ())) (on_ok P)" "triple P (ret (Inl e)) (on_ok Q)"
  by (auto simp: triple_def on_ok_def)

lemma creates:
  assumes "spares (artifacts w) p" and "\<And>fs h a fs' h'. p fs h = (a, fs', h') \<Longrightarrow> ok a \<Longrightarrow> fs' q \<noteq> None" and "q \<in> set (artifacts w)"
  shows "triple (has w ps) (prog p) (\<lambda>a s. ok a \<longrightarrow> has w (q # ps) s)"
proof (rule tripleI)
  fix s a s'
  assume h: "has w ps s" and r: "run_state (prog p) s = (a, s')"
  then have "has w ps s'" using preservesD [OF has_prog [OF assms(1)] r] by simp
  then show "ok a \<longrightarrow> has w (q # ps) s'"
    using assms(2,3) r by (auto simp: has_def run_prog split: prod.splits)
qed

lemma keeps_some_err: "preserves (has w ps) m \<Longrightarrow> triple (has w ps) m (\<lambda>r s. r = None \<longrightarrow> has w ps s)"
  by (rule triple_post [OF triple_preserves]) simp_all

lemma triple_if: "(b \<Longrightarrow> triple P m Q) \<Longrightarrow> (\<not> b \<Longrightarrow> triple P n Q) \<Longrightarrow> triple P (if b then m else n) Q"
  by simp

lemma triple_rest:
  assumes "\<And>sock pf. pf \<notin> A \<Longrightarrow> preserves I (f sock pf)"
  shows "triple (\<lambda>s. I s \<and> snd x \<notin> A) (case x of (sock, pf) \<Rightarrow> f sock pf) (on_ok I)"
proof (cases x)
  case (Pair sock pf)
  show ?thesis
  proof (cases "pf \<in> A")
    case False
    then show ?thesis using assms [OF False, of sock] Pair by (auto simp: triple_def preserves_def on_ok_def split: prod.splits)
  qed (use Pair in \<open>simp add: triple_def\<close>)
qed

lemma triple_gets_has:
  assumes "\<And>s. has w ps s \<Longrightarrow> g s = v" and "triple (has w ps) (f v) Q"
  shows "triple (has w ps) (State_Monad.bind (gets g) f) Q"
  using assms by (auto simp: triple_def)

lemma has_MkdirAll: "tools_contract S w \<Longrightarrow> preserves (has w ps) (os_MkdirAll S d m)"
  unfolding os_MkdirAll_def by (rule preserves_prog) (auto simp: has_def dest: tools_contractD(6) [rule_format])

lemma has_fileExists: "preserves (has w ps) (fileExists S p)"
  unfolding fileExists_def by (rule preserves_gets)

text \<open>With pristine TPM state: it is there after the first step, and survives the creation of the directory.\<close>

lemma pristine_triple:
  assumes "tools_contract S w"
  shows "triple (\<lambda>s. has w ps s \<and> files s (permall src) \<noteq> None)
    (do { r \<leftarrow> os_MkdirAll S (path_join [w, ''tpm'']) 448; on_some_err r f (do {
       r \<leftarrow> copyDir S src (path_join [w, ''tpm'']); on_some_err r (\<lambda>e. e) (ret (Inr ())) }) })
    (on_ok (has w (permall (path_join [w, ''tpm'']) # ps)))"
proof (rule tripleI, unfold on_ok_def, rule impI)
  fix s r s'
  let ?d = "path_join [w, ''tpm'']"
  assume h: "has w ps s \<and> files s (permall src) \<noteq> None" and "r = Inr ()" and
    run: "run_state (do { r \<leftarrow> os_MkdirAll S ?d 448; on_some_err r f (do {
       r \<leftarrow> copyDir S src ?d; on_some_err r (\<lambda>e. e) (ret (Inr ())) }) }) s = (r, s')"
  obtain e fs h1 where m: "sys_MkdirAll S ?d 448 (files s) (ext s) = (e, fs, h1)" by (metis prod_cases3)
  obtain e2 fs2 h2 where c: "vm_CopyDir S src ?d fs h1 = (e2, fs2, h2)" by (metis prod_cases3)
  have "e = None" "e2 = None" "s' = s\<lparr>files := fs2, ext := h2\<rparr>"
    using run \<open>r = Inr ()\<close> m c by (cases e; cases e2; auto simp: os_MkdirAll_def copyDir_def run_prog)+
  moreover have "fs = files s" using tools_contractD(6) [OF assms] m by blast
  moreover have "permall ?d \<in> set (artifacts w)" by (simp add: artifacts_def)
  moreover have "fs2 (permall ?d) \<noteq> None" using tools_contractD(5) [OF assms] c h \<open>e2 = None\<close> \<open>fs = files s\<close> by blast
  moreover have "fs2 q \<noteq> None" if "q \<in> set ps" for q
    using sparesD [OF tools_contractD(10) [OF assms, rule_format] c] h that \<open>fs = files s\<close> unfolding has_def by blast
  ultimately show "has w (permall ?d # ps) s'" using h unfolding has_def by simp
qed

lemma setupTPM_triple:
  assumes "tools_contract S w"
  shows "triple (has w ps) (setupTPMState S cfg) (on_ok (has w (permall (path_join [w, ''tpm'']) # ps)))"
proof -
  let ?d = "path_join [w, ''tpm'']" and ?src = "TPMPristinePath cfg"
  have dir: "tpmDir s = ?d" if "has w ps s" for s :: "'a rstate" using that unfolding tpmDir_def has_def by blast
  have art: "permall ?d \<in> set (artifacts w)" by (simp add: artifacts_def)
  have init: "triple (has w ps) (initializeTPMState S cfg x) (\<lambda>r s. r = None \<longrightarrow> has w ps s \<and> files s (permall x) \<noteq> None)" for x
    using tools_contractD(4) [OF assms, rule_format] has_prog [OF tools_contractD(12) [OF assms, rule_format], of ps]
    unfolding initializeTPMState_def triple_def preserves_def by (fastforce simp: run_prog split: prod.splits)
  have fresh: "triple (has w ps) (initializeTPMState S cfg ?d) (\<lambda>r s. r = None \<longrightarrow> has w (permall ?d # ps) s)"
    by (rule triple_post [OF init]) (use art in \<open>simp add: has_def\<close>)
  have there: "triple (has w ps) (ensurePristineTPM S cfg) (\<lambda>r s. r = None \<longrightarrow> has w ps s \<and> files s (permall ?src) \<noteq> None)"
    unfolding ensurePristineTPM_def permall_def [symmetric]
  proof (rule triple_bind)
    show "triple (has w ps) (fileExists S (permall ?src)) (\<lambda>ok s. has w ps s \<and> (ok \<longrightarrow> files s (permall ?src) \<noteq> None))"
      using tools_contractD(1) [OF assms] by (simp add: fileExists_def triple_def)
    show "triple (\<lambda>s. has w ps s \<and> (ok \<longrightarrow> files s (permall ?src) \<noteq> None))
      (if ok then ret None else do { Printf f as; initializeTPMState S cfg ?src }) (\<lambda>r s. r = None \<longrightarrow> has w ps s \<and> files s (permall ?src) \<noteq> None)"
      for ok f as using triple_seq [OF has_prims(2) init] by (cases ok) (auto simp: triple_def)
  qed
  have print: "preserves (\<lambda>s. has w ps s \<and> files s q \<noteq> None) (Printf f as)" for f as q
    by (auto simp: preserves_def has_def)
  show ?thesis unfolding setupTPMState_def
    by (rule triple_gets_has [OF dir], assumption, rule triple_if)
       (intro then_some_err [OF there] triple_seq [OF print] pristine_triple [OF assms]
          triple_seq [OF has_prims(2)] then_some_err [OF fresh] ret_ok)+
qed

abbreviation vars_of :: "string \<Rightarrow> string" where "vars_of w \<equiv> path_join [w, ''vars.fd'']"
abbreviation disk_of :: "string \<Rightarrow> string" where "disk_of w \<equiv> path_join [w, ''disk.img'']"

lemma artifacts_mem: "vars_of w \<in> set (artifacts w)" "disk_of w \<in> set (artifacts w)" "permall (path_join [w, ''tpm'']) \<in> set (artifacts w)"
  by (simp_all add: artifacts_def del: path_join.simps)

lemma has_exec_Run: "tools_contract S w \<Longrightarrow> preserves (has w ps) (exec_Run S path args)"
  unfolding exec_Run_def by (intro preserves_rules has_prog tools_contractD(7) [rule_format])

lemma qemu_img_triple:
  assumes "tools_contract S w"
  shows "triple (has w ps) (qemu_img_create S cfg (disk_of w)) (on_ok (has w (disk_of w # ps)))"
proof -
  have r: "triple (has w ps) (exec_Run S img [''create'', f, raw, disk_of w, sz])
    (\<lambda>x s. snd x = None \<longrightarrow> has w (disk_of w # ps) s)" for img f raw sz
    unfolding exec_Run_def
  proof (rule triple_seq [OF has_prims(1)], rule creates [OF _ _ artifacts_mem(2)])
    fix fs h a fs' h'
    assume "sys_Run S img [''create'', f, raw, disk_of w, sz] fs h = (a, fs', h')" "snd a = None"
    then show "fs' (disk_of w) \<noteq> None" using tools_contractD(3) [OF assms] by (metis prod.collapse)
  qed (rule tools_contractD(7) [OF assms, rule_format])
  have k: "triple (\<lambda>s. snd x = None \<longrightarrow> has w (disk_of w # ps) s) (case x of (_, err) \<Rightarrow> (case err of
        Some e \<Rightarrow> ret (Inl (Errorf f [AErr (ErrExec e)])) | None \<Rightarrow> do { Printf g as; ret (Inr ()) })) (on_ok (has w (disk_of w # ps)))"
    for x :: "string \<times> exec_error option" and f g as
  proof (cases x)
    case (Pair u v)
    have "triple (has w (disk_of w # ps)) (do { Printf g as; ret (Inr ()) }) (on_ok (has w (disk_of w # ps)))"
      by (intro triple_seq [OF has_prims(2)] ret_ok)
    then show ?thesis using Pair by (cases v) (auto simp: ret_ok)
  qed
  show ?thesis unfolding qemu_img_create_def Let_def by (rule triple_bind [OF r k])
qed

lemma buildArtifacts_triple:
  assumes "tools_contract S w"
  shows "triple (has w []) (buildArtifacts S cfg) (on_ok (has w (rev (artifacts w))))"
proof -
  have v: "path_join [workDir s, ''vars.fd''] = vars_of w" "diskPath s = disk_of w" if "has w ps s" for ps and s :: "'a rstate"
    using that unfolding has_def diskPath_def by blast+
  have copy: "triple (has w []) (copyFile S src (vars_of w)) (\<lambda>r s. r = None \<longrightarrow> has w [vars_of w] s)" for src
    unfolding copyFile_def
    by (rule creates [OF tools_contractD(9) [OF assms, rule_format] _ artifacts_mem(1)]) (use tools_contractD(2) [OF assms] in blast)
  note mk = keeps_some_err [OF has_MkdirAll [OF assms]]
  have rev: "rev (artifacts w) = [permall (path_join [w, ''tpm'']), disk_of w, vars_of w]" by (simp add: artifacts_def del: path_join.simps)
  show ?thesis unfolding buildArtifacts_def rev
    by (intro triple_gets_has [OF v(1)] triple_gets_has [OF v(2)] then_some_err [OF mk] then_some_err [OF copy] triple_seq [OF has_prims(2)]
          triple_seq [OF has_fileExists] triple_if ret_ok then_ok [OF qemu_img_triple [OF assms]] then_ok [OF setupTPM_triple [OF assms]])
qed

lemma startTPM_has:
  assumes "tools_contract S w"
  shows "triple (has w ps) (startTPMWithDir S cfg dir) (\<lambda>r s. \<forall>x. r = Inr x \<longrightarrow> has w ps s \<and> snd x \<notin> set (artifacts w))"
proof (rule tripleI)
  fix s r s'
  assume h: "has w ps s" and run: "run_state (startTPMWithDir S cfg dir) s = (r, s')"
  have "preserves (has w ps) (startTPMWithDir S cfg dir)" unfolding startTPMWithDir_def
    by (intro preserves_rules has_prog tools_contractD(11) [OF assms, rule_format])
  from preservesD [OF this run h] have "has w ps s'" .
  moreover have "snd x \<notin> set (artifacts w)" if "r = Inr x" for x
    using run that
    by (auto simp: startTPMWithDir_def run_prog on_err_def dest: tools_contractD(16) [OF assms, rule_format] split: prod.splits sum.splits)
  ultimately show "\<forall>x. r = Inr x \<longrightarrow> has w ps s' \<and> snd x \<notin> set (artifacts w)" by blast
qed

lemma runBuildMode_triple:
  assumes "tools_contract S w"
  shows "triple (has w []) (runBuildMode GOOS GOARCH S cfg) (on_ok (has w (rev (artifacts w))))"
proof -
  have tap: "triple (has w []) (useTapDevice S cfg) (\<lambda>r s. \<forall>x. r = Inr x \<longrightarrow> has w [] s)"
  proof (rule triple_post [OF triple_preserves])
    show "preserves (has w []) (useTapDevice S cfg)"
      unfolding useTapDevice_def Let_def by (intro preserves_rules has_exec_Run [OF assms])
  qed simp
  show ?thesis unfolding runBuildMode_def
    by (intro triple_seq [OF has_prims(2)] triple_seq [OF preserves_gets] then_err [OF tap] then_ok [OF buildArtifacts_triple [OF assms]]
          then_err [OF startTPM_has [OF assms]] triple_rest;
        intro preserves_rules has_prog has_cmds [OF assms] has_cleanup tools_contractD(13) [OF assms, rule_format])
qed

lemma checkBuilt_ok:
  assumes "tools_contract S w" and "has w (rev (artifacts w)) s"
  shows "fst (run_state (checkBuilt S) s) = Inr ()"
proof -
  have "vm_FileExists S (varsPath s) fs h \<longleftrightarrow> fs (vars_of w) \<noteq> None" for fs h
    using tools_contractD(1) [OF assms(1)] assms(2) unfolding varsPath_def has_def by blast
  moreover have "vm_FileExists S (permall (tpmDir s)) fs h \<longleftrightarrow> fs (permall (path_join [w, ''tpm''])) \<noteq> None" for fs h
    using tools_contractD(1) [OF assms(1)] assms(2) unfolding tpmDir_def has_def by blast
  moreover have "files s (vars_of w) \<noteq> None" "files s (permall (path_join [w, ''tpm''])) \<noteq> None"
    using assms(2) artifacts_mem unfolding has_def set_rev by blast+
  moreover have "tpmDir (s\<lparr>hevents := es\<rparr>) = tpmDir s" for es by (simp add: tpmDir_def)
  ultimately show ?thesis unfolding checkBuilt_def fileExists_def permall_def [symmetric] by simp
qed

text \<open>(C4) What a build leaves behind is what a run asks for: after a build that succeeded, preparing a
  run in the same work directory succeeds (its checks for the disk, the firmware variables and the
  TPM state all pass), as long as the tools keep their promises and nobody deletes the files.\<close>

theorem build_then_run:
  assumes "tools_contract S w" and "workDir s = w" and "run_state (runBuildMode GOOS GOARCH S cfg) s = (Inr (), s')"
    and "fst (sys_MkdirAll S w 493 (files s') (ext t)) = None" and "workDir t = w" and "files t = files s'"
  shows "fst (run_state (setupRunArtifacts S cfg' (diskPath t)) t) = Inr ()"
proof -
  have "has w [] s" using assms(2) by (simp add: has_def)
  from tripleD [OF runBuildMode_triple [OF assms(1)] this assms(3)] have s': "has w (rev (artifacts w)) s'" by (simp add: on_ok_def)
  obtain h where m: "sys_MkdirAll S w 493 (files t) (ext t) = (None, files t, h)"
    using assms(4,6) tools_contractD(6) [OF assms(1), rule_format] by (metis prod.collapse)
  let ?t = "t\<lparr>files := files t, ext := h\<rparr>"
  have t: "has w (rev (artifacts w)) ?t" using s' assms(5,6) by (simp add: has_def)
  have d: "diskPath t = disk_of w" "diskPath ?t = disk_of w" using assms(5) unfolding diskPath_def by simp_all
  have "files ?t (disk_of w) \<noteq> None" using t artifacts_mem(2) unfolding has_def set_rev by blast
  then have "run_state (setupRunDisk S cfg' (disk_of w) (disk_of w)) ?t = (Inr (), ?t)"
    by (auto simp: setupRunDisk_def fileExists_def isNewer_def tools_contractD(1) [OF assms(1)] simp del: path_join.simps split: option.splits)
  then have "run_state (setupRunArtifacts S cfg' (diskPath t)) t = run_state (checkBuilt S) ?t"
    using m assms(5) d by (simp add: setupRunArtifacts_def os_MkdirAll_def run_prog del: path_join.simps)
  then show ?thesis using checkBuilt_ok [OF assms(1) t] by simp
qed

subsection \<open>A concrete build\<close>

abbreviation demo_build :: "unit sys" where
  "demo_build \<equiv> demo_with (QemuExited None)"

lemma demo_tools: "tools_contract demo_build ''/work/vm1''"
proof -
  have a: "''/run/swtpm.pid'' \<notin> set (artifacts ''/work/vm1'')" by code_simp
  show ?thesis
    unfolding tools_contract_def
    by (intro conjI allI impI)
       (auto simp: demo_with_def demo_sys_def demo_run_def demo_copy_def demo_swtpm_def spares_def permall_def a
        simp del: path_join.simps split: list.splits if_splits)
qed

definition demo_ready :: "unit rstate" where
  "demo_ready = demo_start_state\<lparr>workDir := ''/work/vm1''\<rparr>"

lemma demo_qemu_ends:
  assumes "a < length (cmds s)"
  shows "fst (run_state (do {
     r \<leftarrow> cmd_Start demo_build a;
     on_some_err r w1 (do {
       AttachTagged a 1 t1 Detached;
       AttachTagged a 2 t2 Detached;
       r \<leftarrow> awaitBuild demo_build a;
       on_err r w2 (\<lambda>_. do { cleanupPIDFile q; Printf f1 as1; Printf f2 as2; Printf f3 as3; Printf f4 as4; ret (Inr ()) })
     }) }) s) = (Inr () :: go_error + unit)"
  using assms by (simp add: cmd_Start_def run_prog demo_with_def demo_sys_def cmd_update_def AttachTagged_def attach_def awaitBuild_def run_cleanupPIDFile)

lemma demo_build_steps:
  defines "s1 \<equiv> snd (run_state (Printf ''Running in build mode for %s\<newline>'' [AStr (ServerName demo_config)]) demo_ready)"
  shows "fst (run_state (useTapDevice demo_build demo_config) s1) = Inr ''tap0''"
    "fst (run_state (buildArtifacts demo_build demo_config) (snd (run_state (useTapDevice demo_build demo_config) s1))) = Inr ()"
    "fst (run_state (startTPMWithDir demo_build demo_config dir) s) = Inr (path_join [dir, ''swtpm-sock''], ''/run/swtpm.pid'')"
proof -
  show "fst (run_state (useTapDevice demo_build demo_config) s1) = Inr ''tap0''" unfolding s1_def by code_simp
  show "fst (run_state (buildArtifacts demo_build demo_config) (snd (run_state (useTapDevice demo_build demo_config) s1))) = Inr ()"
    unfolding s1_def by code_simp
  show "fst (run_state (startTPMWithDir demo_build demo_config dir) s) = Inr (path_join [dir, ''swtpm-sock''], ''/run/swtpm.pid'')"
    by (simp add: startTPMWithDir_def run_prog demo_with_def demo_sys_def demo_swtpm_def del: path_join.simps)
qed

lemma demo_builds: "fst (run_state (runBuildMode ''linux'' ''amd64'' demo_build demo_config) demo_ready) = Inr ()"
  unfolding runBuildMode_def
  by (simp only: run_bind_fst [OF demo_steps(3)] run_bind_fst [OF demo_build_steps(1)] run_bind_fst [OF demo_build_steps(2)]
       run_bind_fst [OF demo_steps(7)] run_bind_fst [OF demo_build_steps(3)] run_bind_fst [OF demo_steps(1)] run_bind_fst [OF demo_steps(2)]
       run_bind_fst [OF demo_steps(4)] run_bind_fst [OF demo_steps(5)] on_err_simps on_some_err_simps prod.case)
     (rule demo_qemu_ends, simp add: exec_CommandContext_def run_prog demo_with_def demo_sys_def)

theorem build_then_run_witness:
  "let s' = snd (run_state (runBuildMode ''linux'' ''amd64'' demo_build demo_config) demo_ready)
   in fst (run_state (setupRunArtifacts demo_build demo_config (diskPath (s'\<lparr>workDir := ''/work/vm1''\<rparr>))) (s'\<lparr>workDir := ''/work/vm1''\<rparr>)) = Inr ()"
proof -
  let ?x = "run_state (runBuildMode ''linux'' ''amd64'' demo_build demo_config) demo_ready"
  have r: "?x = (Inr (), snd ?x)" using demo_builds by (metis prod.collapse)
  have w: "workDir demo_ready = ''/work/vm1''" by (simp add: demo_ready_def)
  have m: "fst (sys_MkdirAll demo_build ''/work/vm1'' 493 (files (snd ?x)) (ext ((snd ?x)\<lparr>workDir := ''/work/vm1''\<rparr>))) = None"
    by (simp add: demo_with_def demo_sys_def)
  from build_then_run [OF demo_tools w r m] show ?thesis by (simp add: Let_def)
qed

end
