(* ===== verification/VmtestCmd.thy ===== *)
theory VmtestCmd
  imports RunnerProps
begin

text \<open>
  The command behind the \<open>qemu_vm\<close> rules, \<open>vmtest/cmd/main.go\<close>: it checks the build-time variables,
  resolves runfiles, fills in a \<open>RunnerConfig\<close> and runs the runner. \<open>runfiles\<close> stands for
  \<open>runfiles.New()\<close>, \<open>Getenv\<close> for the environment, \<open>fl\<close> for the parsed flags. \<open>Run\<close> goes on in a goroutine while
  \<open>main\<close> waits for it or for a signal: a signal is placed at a point of the trace of \<open>Run\<close>, and \<open>main\<close> then
  waits for the rest of that trace. The environment \<open>S\<close> knows what the runner sees of the cancelled context.
\<close>

section \<open>Definitions\<close>

text \<open>The variables set through x\_defs.\<close>

record xdefs =
  vmServer :: string
  vmTap :: string
  vmSecondTap :: string
  vmMac :: string
  vmMemory :: string
  vmCPUs :: string
  vmDiskSize :: string
  vmMode :: string
  vmTPMPristinePath :: string
  vmISORunfile :: string
  vmOVMFCode :: string
  vmOVMFVars :: string
  vmSwtpm :: string
  vmSwtpmSetup :: string
  vmBridgeName :: string
  vmTransitIPv4 :: string
  vmTransitIPv6 :: string

record cmd_flags =
  fl_output :: string
  fl_shutdown_mode :: bool
  fl_no_cleanup :: bool

text \<open>The tests for empty variables, in order: the message of the first that fails.\<close>

fun first_missing :: "(string \<times> string) list \<Rightarrow> message option" where
  "first_missing [] = None"
| "first_missing ((value, msg) # vs) = (if value = [] then Some (msg, []) else first_missing vs)"

definition required :: "xdefs \<Rightarrow> (string \<times> string) list" where
  "required x =
     [(vmServer x, ''Error: vmServer not set via x_defs\<newline>''),
      (vmTap x, ''Error: vmTap not set via x_defs\<newline>''),
      (vmMac x, ''Error: vmMac not set via x_defs\<newline>''),
      (vmMemory x, ''Error: vmMemory not set via x_defs\<newline>''),
      (vmCPUs x, ''Error: vmCPUs not set via x_defs\<newline>''),
      (vmDiskSize x, ''Error: vmDiskSize not set via x_defs\<newline>'')]"

text \<open>\<open>if v != "" { p, err := r.Rlocation(v); ...; set(p) }\<close>\<close>

definition resolveInto ::
  "(string \<Rightarrow> go_error + string) \<Rightarrow> string \<Rightarrow> string \<Rightarrow> (string \<Rightarrow> 'c \<Rightarrow> 'c) \<Rightarrow> 'c \<Rightarrow> message + 'c" where
  "resolveInto Rlocation v msg setPath c =
     (if v \<noteq> [] then
        (case Rlocation v of
           Inl err \<Rightarrow> Inl (msg, [AStr v, AErr err])
         | Inr path \<Rightarrow> Inr (setPath path c))
      else Inr c)"

definition resolveTools :: "string \<Rightarrow> (string \<Rightarrow> go_error + string) \<Rightarrow> xdefs \<Rightarrow> message + ToolPaths" where
  "resolveTools GOARCH Rlocation x =
     (case resolveInto Rlocation (vmOVMFCode x) ''Error: failed to resolve OVMF CODE from runfiles %q: %v\<newline>''
             (\<lambda>p t. t\<lparr>OVMFCode := p\<rparr>) (DefaultToolPaths GOARCH) of
        Inl m \<Rightarrow> Inl m
      | Inr t \<Rightarrow>
          (case resolveInto Rlocation (vmOVMFVars x) ''Error: failed to resolve OVMF VARS from runfiles %q: %v\<newline>''
                  (\<lambda>p t. t\<lparr>OVMFVars := p\<rparr>) t of
             Inl m \<Rightarrow> Inl m
           | Inr t \<Rightarrow>
               (case resolveInto Rlocation (vmSwtpm x) ''Error: failed to resolve swtpm from runfiles %q: %v\<newline>''
                       (\<lambda>p t. t\<lparr>Swtpm := p\<rparr>) t of
                  Inl m \<Rightarrow> Inl m
                | Inr t \<Rightarrow>
                    resolveInto Rlocation (vmSwtpmSetup x) ''Error: failed to resolve swtpm_setup from runfiles %q: %v\<newline>''
                      (\<lambda>p t. t\<lparr>SwtpmSetup := p\<rparr>) t)))"

definition buildConfig ::
  "(string \<Rightarrow> go_error + string) \<Rightarrow> xdefs \<Rightarrow> cmd_flags \<Rightarrow> int \<Rightarrow> string \<Rightarrow> ToolPaths \<Rightarrow> message + RunnerConfig" where
  "buildConfig Rlocation x fl cpus workspace toolPaths =
     (let config =
        \<lparr>ServerName = vmServer x, WorkDir = path_join [workspace, ''.vms'', vmServer x], Mode = vmMode x,
         Tools = toolPaths, MachineType = [],
         TapDevice = vmTap x, SecondTapDevice = vmSecondTap x, MacAddress = vmMac x, BridgeName = vmBridgeName x,
         DiskSize = vmDiskSize x, Memory = vmMemory x, CPUs = cpus,
         TPMPristinePath = (if vmTPMPristinePath x \<noteq> [] then path_join [workspace, vmTPMPristinePath x] else []),
         ISOPath = [], Transit = \<lparr>IPv4 = vmTransitIPv4 x, IPv6 = vmTransitIPv6 x\<rparr>,
         OutputMode = fl_output fl, ShutdownMode = fl_shutdown_mode fl, NoCleanup = fl_no_cleanup fl\<rparr>
      in if vmMode x = ''build''
         then resolveInto Rlocation (vmISORunfile x) ''Error: failed to resolve ISO from runfiles %q: %v\<newline>'' (\<lambda>p c. c\<lparr>ISOPath := p\<rparr>) config
         else Inr config)"

text \<open>Everything before the runner is made: the message of the check that fails, or the configuration.\<close>

definition prepare ::
  "string \<Rightarrow> xdefs \<Rightarrow> cmd_flags \<Rightarrow> go_error + (string \<Rightarrow> go_error + string) \<Rightarrow> (string \<Rightarrow> string) \<Rightarrow> message + RunnerConfig" where
  "prepare GOARCH x fl runfiles Getenv =
     (if vmMode x = [] then Inl (''Error: vmMode not set via x_defs\<newline>'', [])
      else case runfiles of
        Inl err \<Rightarrow> Inl (''Error: failed to initialize runfiles: %v\<newline>'', [AErr err])
      | Inr Rlocation \<Rightarrow>
          (case first_missing (required x) of
             Some m \<Rightarrow> Inl m
           | None \<Rightarrow>
               (case Atoi (vmCPUs x) of
                  Inl err \<Rightarrow> Inl (''Error: invalid vmCPUs value %q: %v\<newline>'', [AStr (vmCPUs x), AErr err])
                | Inr cpus \<Rightarrow>
                    let workspace = Getenv ''BUILD_WORKSPACE_DIRECTORY'' in
                    if workspace = [] then Inl (''Error: BUILD_WORKSPACE_DIRECTORY not set\<newline>'', [])
                    else (case resolveTools GOARCH Rlocation x of
                            Inl m \<Rightarrow> Inl m
                          | Inr toolPaths \<Rightarrow> buildConfig Rlocation x fl cpus workspace toolPaths))))"

text \<open>Whether a signal comes before \<open>Run\<close> is done, and if so which, after how many events of \<open>Run\<close>, and which
  processes are then killed by \<open>os/exec\<close> (see \<open>Cancel\<close>).\<close>

datatype main_event = RunDone | GotSignal string nat "(nat \<times> int) list"

text \<open>How the command ends: it exits, with a status and the host as it leaves it, or a signal it does not
  handle kills it, with the trace up to then.\<close>

datatype 'h outcome = Exited int "'h host" | Killed "hevent list"

fun trace_of :: "'h outcome \<Rightarrow> hevent list" where
  "trace_of (Exited code h) = hevents h"
| "trace_of (Killed es) = es"

definition report :: "go_error + unit \<Rightarrow> ('h rstate, int) state" where
  "report r = (case r of Inl err \<Rightarrow> do { Eprintf ''Error: %v\<newline>'' [AErr err]; ret 1 } | Inr _ \<Rightarrow> ret 0)"

text \<open>The \<open>select\<close> on the runner's result and the signals. On a signal the message is printed and the context
  cancelled while \<open>Run\<close> goes on; \<open><-done\<close> waits for the rest of \<open>Run\<close>, whose result is dropped.\<close>

definition supervise :: "main_event \<Rightarrow> ('h rstate, go_error + unit) state \<Rightarrow> ('h rstate, int) state" where
  "supervise ev run =
     (case ev of
        RunDone \<Rightarrow> do { r \<leftarrow> run; report r }
      | GotSignal sig k kills \<Rightarrow> State (\<lambda>s.
          let (_, s') = run_state run s;
              n = length (hevents s) + k;
              before = take n (hevents s');
              rest = drop n (hevents s')
          in (0, s'\<lparr>hevents := before @ HPrint ''\<newline>Received signal %v, shutting down...\<newline>'' [AStr sig] #
                     Cancel (started_pids before) kills rest\<rparr>)))"

definition exit_with :: "('h rstate, int) state \<Rightarrow> 'h rstate \<Rightarrow> 'h outcome" where
  "exit_with m s = (let (code, s') = run_state m s in Exited code (host.truncate s'))"

text \<open>In run mode with direct output no handler is installed: a signal kills the command where it is.\<close>

definition vmtest_main ::
  "string \<Rightarrow> string \<Rightarrow> xdefs \<Rightarrow> cmd_flags \<Rightarrow> go_error + (string \<Rightarrow> go_error + string) \<Rightarrow> (string \<Rightarrow> string) \<Rightarrow> 'h sys \<Rightarrow> main_event \<Rightarrow>
   'h host \<Rightarrow> 'h outcome" where
  "vmtest_main GOOS GOARCH x fl runfiles Getenv S ev h =
     (case prepare GOARCH x fl runfiles Getenv of
        Inl (f, as) \<Rightarrow> Exited 1 (snd (run_state (Eprintf f as) h))
      | Inr config \<Rightarrow>
          let (cfg, s) = NewRunner GOARCH config h;
              run = Run GOOS GOARCH S cfg
          in if Mode cfg = ''run'' \<and> OutputMode cfg = ''direct'' then
               (case ev of
                  RunDone \<Rightarrow> exit_with (do { r \<leftarrow> run; report r }) s
                | GotSignal sig k kills \<Rightarrow> Killed (take (length (hevents s) + k) (hevents (snd (run_state run s)))))
             else exit_with (supervise ev run) s)"

section \<open>The configuration\<close>

lemma prepare_flags: "prepare GOARCH x fl runfiles Getenv = Inr config \<Longrightarrow> NoCleanup config = fl_no_cleanup fl \<and> Mode config = vmMode x \<and> OutputMode config = fl_output fl"
  by (auto simp: prepare_def buildConfig_def resolveInto_def Let_def split: if_splits sum.splits option.splits)

lemma resolveTools_qemu: "resolveTools a R x = Inr t \<Longrightarrow> QemuSystem t = QemuSystem (DefaultToolPaths a)"
  by (cases "R (vmOVMFCode x)"; cases "R (vmOVMFVars x)"; cases "R (vmSwtpm x)"; cases "R (vmSwtpmSetup x)")
     (auto simp: resolveTools_def resolveInto_def split: if_splits)

lemma buildConfig_fields:
  "buildConfig R x fl cpus w t = Inr c \<Longrightarrow> MacAddress c = vmMac x \<and> Tools c = t \<and> (vmMode x \<noteq> ''build'' \<longrightarrow> ISOPath c = [])"
  by (auto simp: buildConfig_def resolveInto_def Let_def split: if_splits sum.splits)

lemma prepare_config:
  assumes "prepare GOARCH x fl runfiles Getenv = Inr config"
  shows "MacAddress config = vmMac x \<and> QemuSystem (Tools config) = QemuSystem (DefaultToolPaths GOARCH) \<and> (vmMode x \<noteq> ''build'' \<longrightarrow> ISOPath config = [])"
proof -
  obtain R cpus t where "resolveTools GOARCH R x = Inr t" "buildConfig R x fl cpus (Getenv ''BUILD_WORKSPACE_DIRECTORY'') t = Inr config"
    using assms unfolding prepare_def Let_def by (auto split: if_splits sum.splits option.splits)
  then show ?thesis using buildConfig_fields resolveTools_qemu by metis
qed

lemma NewRunner_state:
  "hevents (snd (NewRunner a c h)) = hevents h" "files (snd (NewRunner a c h)) = files h" "cmds (snd (NewRunner a c h)) = cmds h"
  "unreadable (snd (NewRunner a c h)) = unreadable h" "unremovable (snd (NewRunner a c h)) = unremovable h"
  "pm (snd (NewRunner a c h)) = NewProcessManager" "fst (NewRunner a c h) = defaulted a c"
  by (simp_all add: NewRunner_def host.defs)

lemma truncate_fields: "hevents (host.truncate s) = hevents s" "files (host.truncate s) = files s"
  by (simp_all add: host.defs)

text \<open>What is left once the configuration is made: \<open>Run\<close>, on its own or supervised.\<close>

lemma vmtest_main_ready:
  fixes S :: "'h sys" and GOOS GOARCH :: string and config :: RunnerConfig and h :: "'h host"
  assumes "prepare GOARCH x fl runfiles Getenv = Inr config"
  defines "run \<equiv> Run GOOS GOARCH S (defaulted GOARCH config)" and "s \<equiv> snd (NewRunner GOARCH config h)"
  shows "vmtest_main GOOS GOARCH x fl runfiles Getenv S ev h =
    (if vmMode x = ''run'' \<and> fl_output fl = ''direct'' \<and> ev \<noteq> RunDone
     then (case ev of GotSignal sig k kills \<Rightarrow> Killed (take (length (hevents s) + k) (hevents (snd (run_state run s)))))
     else exit_with (supervise ev run) s)"
proof -
  have m: "Mode (defaulted GOARCH config) = vmMode x" "OutputMode (defaulted GOARCH config) = fl_output fl"
    using prepare_flags [OF assms(1)] by (simp_all add: defaulted_closed)
  obtain cfg s0 where n: "NewRunner GOARCH config h = (cfg, s0)" by fastforce
  then have "cfg = defaulted GOARCH config" "s0 = s" using NewRunner_state(7) [of GOARCH config h] by (simp_all add: s_def)
  then show ?thesis
    unfolding vmtest_main_def assms(1) sum.case n run_def prod.case Let_def
    by (cases ev) (auto simp: m supervise_def [of RunDone])
qed

section \<open>Checks\<close>

lemma first_missing_None: "first_missing vs = None \<longleftrightarrow> list_all (\<lambda>(v, _). v \<noteq> []) vs"
  by (induction vs rule: first_missing.induct) auto

lemma resolveInto_isl: "isl (resolveInto R v msg f c) \<longleftrightarrow> v \<noteq> [] \<and> isl (R v)"
  by (cases "R v") (auto simp: resolveInto_def)

lemma resolveTools_isl: "isl (resolveTools a R x) \<longleftrightarrow> list_ex (\<lambda>v. v \<noteq> [] \<and> isl (R v)) [vmOVMFCode x, vmOVMFVars x, vmSwtpm x, vmSwtpmSetup x]"
  by (cases "R (vmOVMFCode x)"; cases "R (vmOVMFVars x)"; cases "R (vmSwtpm x)"; cases "R (vmSwtpmSetup x)")
     (auto simp: resolveTools_def resolveInto_def)

definition refused :: "xdefs \<Rightarrow> go_error + (string \<Rightarrow> go_error + string) \<Rightarrow> (string \<Rightarrow> string) \<Rightarrow> bool" where
  "refused x runfiles Getenv \<longleftrightarrow>
     list_ex (\<lambda>v. v = []) [vmMode x, vmServer x, vmTap x, vmMac x, vmMemory x, vmCPUs x, vmDiskSize x, Getenv ''BUILD_WORKSPACE_DIRECTORY''] \<or>
     isl runfiles \<or> isl (Atoi (vmCPUs x)) \<or>
     list_ex (\<lambda>v. v \<noteq> [] \<and> isl (projr runfiles v))
       ([vmOVMFCode x, vmOVMFVars x, vmSwtpm x, vmSwtpmSetup x] @ (if vmMode x = ''build'' then [vmISORunfile x] else []))"

lemma prepare_isl: "isl (prepare GOARCH x fl runfiles Getenv) \<longleftrightarrow> refused x runfiles Getenv"
proof (cases runfiles)
  case (Inr R)
  have m: "first_missing (required x) = None \<longleftrightarrow> \<not> list_ex (\<lambda>v. v = []) [vmServer x, vmTap x, vmMac x, vmMemory x, vmCPUs x, vmDiskSize x]"
    by (auto simp: first_missing_None required_def)
  have b: "isl (buildConfig R x fl cpus w t) \<longleftrightarrow> vmMode x = ''build'' \<and> vmISORunfile x \<noteq> [] \<and> isl (R (vmISORunfile x))" for cpus w t
    by (simp add: buildConfig_def resolveInto_isl Let_def)
  show ?thesis
    using m resolveTools_isl [of GOARCH R x]
    by (cases "first_missing (required x)"; cases "Atoi (vmCPUs x)"; cases "resolveTools GOARCH R x")
       (auto simp: prepare_def refused_def b Inr Let_def)
qed (simp add: prepare_def refused_def)

text \<open>(C29) The command refuses to run exactly when a required variable is missing, the runfiles or the
  workspace are not known, the number of CPUs is no number, or a configured tool or firmware (and,
  in build mode, the ISO) cannot be resolved; then it exits with status 1 after one message, and
  nothing else has happened on the host.\<close>

theorem vmtest_main_refuses:
  "case prepare GOARCH x fl runfiles Getenv of
     Inl (f, as) \<Rightarrow> refused x runfiles Getenv \<and>
       vmtest_main GOOS GOARCH x fl runfiles Getenv S ev h = Exited 1 (h\<lparr>hevents := hevents h @ [HErr f as]\<rparr>)
   | Inr config \<Rightarrow> \<not> refused x runfiles Getenv"
proof (cases "prepare GOARCH x fl runfiles Getenv")
  case (Inl m)
  then show ?thesis using prepare_isl [of GOARCH x fl runfiles Getenv] by (cases m) (simp add: vmtest_main_def)
next
  case (Inr config)
  then show ?thesis using prepare_isl [of GOARCH x fl runfiles Getenv] by simp
qed

section \<open>What is started\<close>

text \<open>Every started process and every command object satisfies \<open>P\<close>, the processes have the pids the host gave
  them, and there are at least \<open>N\<close> objects.\<close>

definition started_as :: "'h sys \<Rightarrow> (string \<Rightarrow> string list \<Rightarrow> bool) \<Rightarrow> hevent list \<Rightarrow> bool" where
  "started_as S P es \<longleftrightarrow> (\<forall>pid path args. HStart pid path args \<in> set es \<longrightarrow>
     P path args \<and> (\<exists>fs h fs' h'. sys_Start S path args fs h = (Inr pid, fs', h')))"

definition commands_are :: "'h sys \<Rightarrow> (string \<Rightarrow> string list \<Rightarrow> bool) \<Rightarrow> nat \<Rightarrow> 'h rstate \<Rightarrow> bool" where
  "commands_are S P N s \<longleftrightarrow> started_as S P (hevents s) \<and>
     (\<forall>c \<in> set (cmds s). P (cmd_path c) (cmd_args c)) \<and> N \<le> length (cmds s)"

interpretation commands: host_frame "commands_are S P N" for S P N
  by unfold_locales (auto simp: commands_are_def started_as_def)

lemma commands_update:
  assumes "\<And>c. cmd_path (f c) = cmd_path c \<and> cmd_args (f c) = cmd_args c"
  shows "preserves (commands_are S P N) (cmd_update a f)"
  unfolding preserves_def
proof (intro allI impI)
  fix s assume s: "commands_are S P N s"
  show "commands_are S P N (snd (run_state (cmd_update a f) s))"
  proof (cases "a < length (cmds s)")
    case True
    then show ?thesis using s assms by (fastforce simp: commands_are_def cmd_update_def dest: set_update_subset_insert [THEN subsetD])
  qed (use s in \<open>simp add: cmd_update_def commands_are_def list_update_beyond\<close>)
qed

lemma commands_prims:
  "preserves (commands_are S P N) (time_Sleep d)" "preserves (commands_are S P N) (cleanupPIDFile q)"
  "preserves (commands_are S P N) (modify (\<lambda>s. s\<lparr>pm := m s\<rparr>))" "preserves (commands_are S P N) (modify (\<lambda>s. s\<lparr>streamer := g s\<rparr>))"
  "preserves (commands_are S P N) (hemit (HSignal pid sig))" "preserves (commands_are S P N) (hemit (HSwtpm p))"
  "preserves (commands_are S P N) (hemit (HStream t ls))" "preserves (commands_are S P N) (hemit (HStreamErr t ls))"
  "preserves (commands_are S P N) (AddProcess a)" "preserves (commands_are S P N) (AddPIDFile p)"
  "preserves (commands_are S P N) (AttachTagged a fd tag st)" "preserves (commands_are S P N) (Eprintf f as)"
  by (auto simp: preserves_def commands_are_def started_as_def run_cleanupPIDFile pid_trace_def escalation_def AddProcess_def AddPIDFile_def
      AttachTagged_def attach_def split: option.splits StreamType.splits)

lemmas commands_rules = preserves_rules commands.frame_prims commands_prims commands_update

lemma commands_cmds:
  "preserves (commands_are S P N) (cmd_Signal a sig)" "preserves (commands_are S P N) (cmd_Wait S' a)"
  "preserves (commands_are S P N) (WaitMonitored S')"
  unfolding cmd_Signal_def cmd_Wait_def WaitMonitored_def finish_stream_def
  by (intro commands_rules; simp)+

lemma commands_CleanupAll: "preserves (commands_are S P N) (CleanupAll S)"
  unfolding CleanupAll_def cleanup_cmd_def by (intro commands_rules commands_cmds)

lemma commands_Start: "preserves (commands_are S P (Suc a)) (cmd_Start S a)"
proof (rule preservesI)
  fix s s' r
  assume s: "commands_are S P (Suc a) s" and run: "run_state (cmd_Start S a) s = (r, s')"
  let ?c = "cmds s ! a"
  obtain x fs h where x: "sys_Start S (cmd_path ?c) (cmd_args ?c) (files s) (ext s) = (x, fs, h)" by (metis prod_cases3)
  have c: "P (cmd_path ?c) (cmd_args ?c)" using s by (auto simp: commands_are_def)
  have t: "commands_are S P (Suc a) (s\<lparr>files := fs, ext := h\<rparr>)" using s by (simp add: commands_are_def)
  show "commands_are S P (Suc a) s'"
  proof (cases x)
    case (Inl e)
    then show ?thesis using run t by (auto simp: cmd_Start_def run_prog x)
  next
    case (Inr pid)
    let ?u = "s\<lparr>files := fs, ext := h, hevents := hevents s @ [HStart pid (cmd_path ?c) (cmd_args ?c)]\<rparr>"
    have "commands_are S P (Suc a) ?u" using t c x Inr by (auto simp: commands_are_def started_as_def)
    from preserves_snd [OF commands_update this, of "\<lambda>c. c\<lparr>cmd_Process := Some pid\<rparr>" a]
    show ?thesis using run by (auto simp: cmd_Start_def run_prog x Inr split: prod.splits)
  qed
qed

lemma commands_new:
  "P path args \<Longrightarrow> triple (commands_are S P N) (exec_CommandContext path args) (\<lambda>a. commands_are S P (Suc a))"
  by (auto simp: triple_def exec_CommandContext_def commands_are_def)

text \<open>A program that keeps the property; how many objects there are does not matter afterwards.\<close>

lemma commands_fewer: "commands_are S P N s \<Longrightarrow> commands_are S P 0 s"
  by (simp add: commands_are_def)

lemma commands_after_new:
  assumes "P path args" and "\<And>a. preserves (commands_are S P (Suc a)) (k a)"
  shows "preserves (commands_are S P 0) (do { a \<leftarrow> exec_CommandContext path args; k a })"
proof -
  have "triple (commands_are S P 0) (do { a \<leftarrow> exec_CommandContext path args; k a }) (\<lambda>_. commands_are S P 0)"
    by (rule triple_bind [OF commands_new [of P path args, OF assms(1)]])
       (rule triple_post [OF triple_preserves [OF assms(2)]], rule commands_fewer)
  from tripleD [OF this] show ?thesis by (intro preservesI)
qed

lemma commands_await: "preserves (commands_are S P N) (awaitBuild S a)"
  unfolding awaitBuild_def reaped_def
  by (intro commands_rules commands_cmds preserves_wait_event preserves_exec_error; simp)

lemma commands_runs:
  "preserves (commands_are S P (Suc a)) (runTagged S cfg a)" "preserves (commands_are S P (Suc a)) (runDirect S cfg pf a)"
  unfolding runTagged_def runDirect_def by (intro commands_rules commands_cmds commands_Start)+

definition qemu_command :: "string \<Rightarrow> string \<Rightarrow> RunnerConfig \<Rightarrow> string \<Rightarrow> string list \<Rightarrow> bool" where
  "qemu_command GOOS GOARCH cfg path args \<longleftrightarrow> path = QemuSystem (Tools cfg) \<and>
     (\<exists>vars disk tpmSocket tapName directMode. args =
        buildQEMUArgs GOOS GOARCH cfg (OVMFCode (Tools cfg)) vars disk (ISOPath cfg) tpmSocket (ISOPath cfg \<noteq> []) tapName (SecondTapDevice cfg) directMode)"

lemma qemu_commandI:
  "qemu_command GOOS GOARCH cfg (QemuSystem (Tools cfg))
     (buildQEMUArgs GOOS GOARCH cfg (OVMFCode (Tools cfg)) vars disk (ISOPath cfg) tpmSocket (ISOPath cfg \<noteq> []) tapName (SecondTapDevice cfg) directMode)"
  unfolding qemu_command_def by blast

lemma commands_startTPM: "preserves (commands_are S P N) (startTPMWithDir S cfg dir)"
  unfolding startTPMWithDir_def by (intro commands_rules)

lemma commands_modes:
  "preserves (commands_are S (qemu_command GOOS GOARCH cfg) 0) (runBuildMode GOOS GOARCH S cfg)"
  "preserves (commands_are S (qemu_command GOOS GOARCH cfg) 0) (runRunMode GOOS GOARCH S cfg)"
  unfolding runBuildMode_def runRunMode_def fileExists_def
  by (intro preserves_rules commands_after_new qemu_commandI commands_startTPM commands_await commands_runs commands_Start
      commands_prims commands.frame_prims commands.frame_checks commands.frame_artifacts)+

lemma commands_Run: "preserves (commands_are S (qemu_command GOOS GOARCH cfg) 0) (Run GOOS GOARCH S cfg)"
  unfolding Run_def Let_def deferred_def
  by (intro preserves_rules commands_modes commands.frame_checks commands_CleanupAll)

lemma disk_only:
  assumes "comma_free (MacAddress cfg)"
    and "args = buildQEMUArgs GOOS GOARCH cfg ovmfCode vars disk [] tpmSocket bootFromISO tapName secondTapName directMode"
  shows "qprops ''bootindex'' (values_of ''-device'' args) = [''0''] \<and> qprops ''drive'' (values_of ''-device'' args) = [''disk'']"
proof -
  have "qprop ''bootindex'' (nic_device cfg) = None" using assms(1) qprop_nic(5) by (simp add: comma_free_def)
  then have "qprops ''bootindex'' (values_of ''-device'' args) = [''0'']"
    unfolding assms(2) device_values by (cases "secondTapName = []") (simp_all add: boot_indices)
  then show ?thesis using device_refs(3) [OF assms(2,1)] by simp
qed

text \<open>A signal adds the message and kills to the trace of \<open>Run\<close>, and nothing else.\<close>

lemma set_Cancel: "set (Cancel pids kills es) = set es \<union> {HSignal pid SIGKILL | pid. pid \<in> set pids \<and> pid \<in> snd ` set kills}"
proof (induction pids kills es rule: Cancel.induct)
  case (2 pids d pid kills es)
  have "set (take d xs) \<union> set (drop d xs) = set xs" for xs :: "hevent list" by (metis append_take_drop_id set_append)
  with 2 show ?case by (auto simp: Let_def)
qed simp

lemma signals_to_Cancel: "n \<notin> set pids \<Longrightarrow> signals_to n (Cancel pids kills es) = signals_to n es"
proof (induction pids kills es rule: Cancel.induct)
  case (2 pids d pid kills es)
  have "signals_to n (take d xs) @ signals_to n (drop d xs) = signals_to n xs" for xs by (metis append_take_drop_id signals_to_append)
  with 2 show ?case by (auto simp: Let_def)
qed simp

definition run_events :: "hevent \<Rightarrow> bool" where
  "run_events e \<longleftrightarrow> (case e of HStart _ _ _ \<Rightarrow> True | HSwtpm _ \<Rightarrow> True | _ \<Rightarrow> False)"

lemma supervise_run:
  fixes run :: "('h rstate, go_error + unit) state"
  assumes "run_state (supervise ev run) s = (code, s')"
  obtains r t where "run_state run s = (r, t)" and "files s' = files t"
    and "\<And>e. run_events e \<Longrightarrow> e \<in> set (hevents s') \<longleftrightarrow> e \<in> set (hevents t)"
    and "\<And>n. n \<notin> set (started_pids (hevents t)) \<Longrightarrow> signals_to n (hevents s') = signals_to n (hevents t)"
proof -
  obtain r t where t: "run_state run s = (r, t)" by fastforce
  show thesis
  proof (cases ev)
    case RunDone
    then show ?thesis using assms t
      by (intro that [OF t]) (cases r; auto simp: supervise_def report_def run_events_def)+
  next
    case (GotSignal sig k kills)
    let ?n = "length (hevents s) + k"
    let ?b = "take ?n (hevents t)" and ?d = "drop ?n (hevents t)"
    obtain f as where s': "s' = t\<lparr>hevents := ?b @ HPrint f as # Cancel (started_pids ?b) kills ?d\<rparr>"
      using assms t by (simp add: supervise_def GotSignal Let_def) blast
    have u: "set ?b \<union> set ?d = set (hevents t)" by (metis append_take_drop_id set_append)
    have e: "set (hevents s') = set (hevents t) \<union> {HPrint f as} \<union> {HSignal pid SIGKILL | pid. pid \<in> set (started_pids ?b) \<and> pid \<in> snd ` set kills}"
      unfolding u [symmetric] by (simp add: s' set_Cancel Un_ac)
    show ?thesis
    proof (rule that [OF t])
      show "e \<in> set (hevents s') \<longleftrightarrow> e \<in> set (hevents t)" if "run_events e" for e
        using that unfolding e by (auto simp: run_events_def)
      fix n assume "n \<notin> set (started_pids (hevents t))"
      then have "n \<notin> set (started_pids ?b)" by (auto simp: started_pids_iff dest: in_set_takeD)
      then have "signals_to n (hevents s') = signals_to n ?b @ signals_to n ?d" by (simp add: s' signals_to_Cancel)
      also have "\<dots> = signals_to n (hevents t)" by (metis append_take_drop_id signals_to_append)
      finally show "signals_to n (hevents s') = signals_to n (hevents t)" .
    qed (simp add: s')
  qed
qed

lemma exit_withD: "exit_with m s = Exited code h' \<Longrightarrow> \<exists>s'. run_state m s = (code, s') \<and> h' = host.truncate s'"
  by (auto simp: exit_with_def split: prod.splits)

text \<open>Every event of the kinds that only \<open>Run\<close> emits is one of its trace.\<close>

lemma vmtest_main_events:
  assumes "prepare GOARCH x fl runfiles Getenv = Inr config" and "run_events e"
    and "e \<in> set (trace_of (vmtest_main GOOS GOARCH x fl runfiles Getenv S ev h))"
  shows "e \<in> set (hevents (snd (run_state (Run GOOS GOARCH S (defaulted GOARCH config)) (snd (NewRunner GOARCH config h)))))"
proof (cases "vmMode x = ''run'' \<and> fl_output fl = ''direct'' \<and> ev \<noteq> RunDone")
  case True
  then show ?thesis using assms(3) by (cases ev) (auto simp: vmtest_main_ready [OF assms(1)] dest: in_set_takeD)
next
  case False
  let ?run = "Run GOOS GOARCH S (defaulted GOARCH config)" and ?s = "snd (NewRunner GOARCH config h)"
  obtain code s' where s': "run_state (supervise ev ?run) ?s = (code, s')" by fastforce
  have "e \<in> set (hevents s')"
    using assms(3) False by (simp add: vmtest_main_ready [OF assms(1)] exit_with_def s' truncate_fields)
  then show ?thesis using supervise_run [OF s'] assms(2) by (metis snd_conv)
qed

lemma refused_events: "prepare GOARCH x fl runfiles Getenv = Inl m \<Longrightarrow> hevents h = [] \<Longrightarrow> run_events e \<Longrightarrow>
    e \<notin> set (trace_of (vmtest_main GOOS GOARCH x fl runfiles Getenv S ev h))"
  by (cases m) (auto simp: vmtest_main_def run_events_def)

text \<open>(C14) In any mode but build the command boots the virtual machine from its disk: whatever process is
  started through \<open>exec.Cmd.Start\<close>, it is QEMU, and its one bootable device is the disk, even if an ISO is configured.\<close>

theorem vmtest_run_boots_disk:
  assumes "vmMode x \<noteq> ''build''" and "comma_free (vmMac x)" and "hevents h = []" and "cmds h = []"
    and "HStart pid path args \<in> set (trace_of (vmtest_main GOOS GOARCH x fl runfiles Getenv S ev h))"
  shows "path = QemuSystem (DefaultToolPaths GOARCH) \<and> qprops ''bootindex'' (values_of ''-device'' args) = [''0''] \<and>
    qprops ''drive'' (values_of ''-device'' args) = [''disk'']"
proof (cases "prepare GOARCH x fl runfiles Getenv")
  case (Inl m)
  then show ?thesis using refused_events [OF Inl assms(3) _] assms(5) by (fastforce simp: run_events_def)
next
  case (Inr config)
  let ?cfg = "defaulted GOARCH config" and ?P = "qemu_command GOOS GOARCH (defaulted GOARCH config)"
  let ?t = "snd (run_state (Run GOOS GOARCH S ?cfg) (snd (NewRunner GOARCH config h)))"
  have "HStart pid path args \<in> set (hevents ?t)" using vmtest_main_events [OF Inr _ assms(5)] by (simp add: run_events_def)
  moreover have "commands_are S ?P 0 ?t"
    by (rule preserves_snd [OF commands_Run]) (use assms(3,4) in \<open>simp add: commands_are_def started_as_def NewRunner_state\<close>)
  ultimately have "qemu_command GOOS GOARCH ?cfg path args" by (auto simp: commands_are_def started_as_def)
  moreover have "ISOPath config = []" "MacAddress config = vmMac x" "QemuSystem (Tools config) = QemuSystem (DefaultToolPaths GOARCH)"
    using prepare_config [OF Inr] assms(1) by simp_all
  moreover have "QemuSystem (DefaultToolPaths GOARCH) \<noteq> []" by (simp add: DefaultToolPaths_def Let_def)
  ultimately have p: "path = QemuSystem (DefaultToolPaths GOARCH)" "MacAddress ?cfg = vmMac x"
    and "\<exists>vars disk tpmSocket tapName directMode. args =
      buildQEMUArgs GOOS GOARCH ?cfg (OVMFCode (Tools ?cfg)) vars disk [] tpmSocket False tapName (SecondTapDevice ?cfg) directMode"
    by (simp_all add: qemu_command_def defaulted_closed or_else_def)
  then show ?thesis using assms(2) disk_only by metis
qed

section \<open>No emulator is left behind\<close>

text \<open>(C3) The command leaves no emulator behind when it exits: whether the runner finishes or fails, or a
  signal comes at any point of its run and cancels it, a swtpm it started has been sent SIGTERM and then
  SIGKILL, once each, and its pid file is gone, unless \<open>--no-cleanup\<close> was given. (In run mode with direct output
  there is no signal handler: a signal then kills the command instead of letting it exit.)\<close>

theorem vmtest_main_stops_swtpm:
  assumes "swtpm_contract S pf n" and "\<not> fl_no_cleanup fl" and "\<not> unreadable h pf" and "\<not> unremovable h pf"
    and "cmds h = []" and "hevents h = []"
    and "vmtest_main GOOS GOARCH x fl runfiles Getenv S ev h = Exited code h'" and "HSwtpm p \<in> set (hevents h')"
  shows "signals_to n (hevents h') = [SIGTERM, SIGKILL] \<and> files h' pf = None"
proof (cases "prepare GOARCH x fl runfiles Getenv")
  case (Inl m)
  then have "HSwtpm p \<notin> set (trace_of (Exited code h'))"
    using refused_events [OF Inl assms(6), of "HSwtpm p"] unfolding assms(7) [symmetric] by (simp add: run_events_def)
  then show ?thesis using assms(8) by simp
next
  case (Inr config)
  let ?cfg = "defaulted GOARCH config" and ?s = "snd (NewRunner GOARCH config h)"
  have "exit_with (supervise ev (Run GOOS GOARCH S ?cfg)) ?s = Exited code h'"
    using assms(7) unfolding vmtest_main_ready [OF Inr] by (auto split: if_splits main_event.splits)
  then obtain s' where s': "run_state (supervise ev (Run GOOS GOARCH S ?cfg)) ?s = (code, s')" "h' = host.truncate s'"
    using exit_withD by blast
  obtain r t where t: "run_state (Run GOOS GOARCH S ?cfg) ?s = (r, t)" "files s' = files t"
    "\<And>e. run_events e \<Longrightarrow> e \<in> set (hevents s') \<longleftrightarrow> e \<in> set (hevents t)"
    "\<And>n. n \<notin> set (started_pids (hevents t)) \<Longrightarrow> signals_to n (hevents s') = signals_to n (hevents t)"
    using supervise_run [OF s'(1)] by metis
  have "\<not> NoCleanup ?cfg" using prepare_flags [OF Inr] assms(2) by (simp add: defaulted_closed)
  moreover have "idle pf n ?s" using assms(3-6) by (simp add: idle_def phase_defs NewRunner_state NewProcessManager_def)
  ultimately have "swtpm_stopped pf n t" using tripleD [OF Run_stops [OF assms(1)] _ t(1)] by blast
  moreover have "HSwtpm p \<in> set (hevents t)" using t(3) [of "HSwtpm p"] assms(8) s'(2) by (simp add: run_events_def truncate_fields)
  ultimately have "files t pf = None" "signals_to n (hevents t) = [SIGTERM, SIGKILL]" by (auto simp: swtpm_stopped_def)
  moreover have "commands_are S (qemu_command GOOS GOARCH ?cfg) 0 t"
    by (rule preservesD [OF commands_Run t(1)]) (use assms(5,6) in \<open>simp add: commands_are_def started_as_def NewRunner_state\<close>)
  then have "n \<notin> set (started_pids (hevents t))"
    using swtpm_contractD(4) [OF assms(1)] by (fastforce simp: commands_are_def started_as_def started_pids_iff)
  ultimately show ?thesis using t(2,4) s'(2) by (simp add: truncate_fields)
qed

section \<open>A concrete run\<close>

definition demo_xdefs :: xdefs where
  "demo_xdefs = \<lparr>vmServer = ''vm1'', vmTap = ''tap0'', vmSecondTap = [], vmMac = ''02:00:00:00:00:01'', vmMemory = ''2G'', vmCPUs = ''2'',
     vmDiskSize = ''9G'', vmMode = ''run'', vmTPMPristinePath = [], vmISORunfile = ''os.iso'', vmOVMFCode = ''code.fd'', vmOVMFVars = [],
     vmSwtpm = [], vmSwtpmSetup = [], vmBridgeName = [], vmTransitIPv4 = [], vmTransitIPv6 = []\<rparr>"

definition demo_flags :: cmd_flags where
  "demo_flags = \<lparr>fl_output = ''tagged'', fl_shutdown_mode = False, fl_no_cleanup = False\<rparr>"

definition demo_cmd_host :: "unit host" where
  "demo_cmd_host = \<lparr>files = map_of [(''/rf/code.fd'', (''code'', 0)), (''/ws/.vms/vm1/vars.fd'', (''vars'', 0)),
       (''/ws/.vms/vm1/disk.img'', (''disk'', 0)), (''/ws/.vms/vm1/tpm/tpm2-00.permall'', (''tpm'', 0))],
     unreadable = (\<lambda>_. False), unremovable = (\<lambda>_. False), cmds = [], hevents = [], ext = ()\<rparr>"

definition demo_cmd_config :: RunnerConfig where
  "demo_cmd_config = projr (prepare ''amd64'' demo_xdefs demo_flags (Inr (\<lambda>p. Inr (''/rf/'' @ p))) (\<lambda>_. ''/ws''))"

abbreviation demo_runner :: RunnerConfig where "demo_runner \<equiv> defaulted ''amd64'' demo_cmd_config"

lemma demo_prepares: "prepare ''amd64'' demo_xdefs demo_flags (Inr (\<lambda>p. Inr (''/rf/'' @ p))) (\<lambda>_. ''/ws'') = Inr demo_cmd_config"
proof -
  have "\<not> isl (prepare ''amd64'' demo_xdefs demo_flags (Inr (\<lambda>p. Inr (''/rf/'' @ p))) (\<lambda>_. ''/ws''))" by code_simp
  then show ?thesis unfolding demo_cmd_config_def by (metis sum.collapse(2))
qed

lemma Run_checked:
  assumes "fst (run_state (checkBridgeSetup S cfg) s) = Inr ()"
    and "fst (run_state (validateOVMF S cfg) (snd (run_state (checkBridgeSetup S cfg) s))) = Inr ()"
    and "fst (run_state (resolveWorkDir S cfg) (snd (run_state (validateOVMF S cfg) (snd (run_state (checkBridgeSetup S cfg) s))))) = Inr ()"
    and "\<not> NoCleanup cfg" and "Mode cfg \<noteq> ''build''"
  shows "run_state (Run GOOS GOARCH S cfg) s = run_state (deferred (runRunMode GOOS GOARCH S cfg) (CleanupAll S))
    (snd (run_state (resolveWorkDir S cfg) (snd (run_state (validateOVMF S cfg) (snd (run_state (checkBridgeSetup S cfg) s))))))"
  unfolding Run_def Let_def using assms(4,5)
  by (simp only: run_bind_fst [OF assms(1)] run_bind_fst [OF assms(2)] run_bind_fst [OF assms(3)] on_err_simps if_True if_False simp_thms not_False_eq_True)

definition demo_cmd_ready :: "unit rstate" where
  "demo_cmd_ready = (let s = snd (NewRunner ''amd64'' demo_cmd_config demo_cmd_host) in
     snd (run_state (resolveWorkDir demo_timeout demo_runner) (snd (run_state (validateOVMF demo_timeout demo_runner)
       (snd (run_state (checkBridgeSetup demo_timeout demo_runner) s))))))"

lemma demo_cmd_checks:
  "run_state (Run ''linux'' ''amd64'' demo_timeout demo_runner) (snd (NewRunner ''amd64'' demo_cmd_config demo_cmd_host)) =
   run_state (deferred (runRunMode ''linux'' ''amd64'' demo_timeout demo_runner) (CleanupAll demo_timeout)) demo_cmd_ready"
  unfolding demo_cmd_ready_def Let_def by (rule Run_checked; code_simp)

lemma demo_cmd_swtpm:
  "fst (run_state (startTPMWithDir demo_timeout cfg dir) s) = Inr (path_join [dir, ''swtpm-sock''], ''/run/swtpm.pid'')"
  by (simp add: startTPMWithDir_def run_prog demo_with_def demo_sys_def demo_swtpm_def del: path_join.simps)

definition demo_cmd_tap :: "unit rstate" where
  "demo_cmd_tap = snd (run_state (useTapDevice demo_timeout demo_runner)
     (snd (run_state (Printf ''Running in run mode for %s\<newline>'' [AStr (ServerName demo_runner)]) demo_cmd_ready)))"

lemma demo_cmd_steps:
  "fst (run_state (useTapDevice demo_timeout demo_runner) (snd (run_state (Printf ''Running in run mode for %s\<newline>'' [AStr (ServerName demo_runner)]) demo_cmd_ready))) = Inr ''tap0''"
  "run_state (fileExists demo_timeout (path_join [workDir demo_cmd_tap, ''vars.fd''])) demo_cmd_tap = (True, demo_cmd_tap)"
  "fst (run_state (setupRunArtifacts demo_timeout demo_runner (diskPath demo_cmd_tap)) demo_cmd_tap) = Inr ()"
proof -
  show "fst (run_state (useTapDevice demo_timeout demo_runner) (snd (run_state (Printf ''Running in run mode for %s\<newline>'' [AStr (ServerName demo_runner)]) demo_cmd_ready))) = Inr ''tap0''"
    by code_simp
  have "vm_FileExists demo_timeout (path_join [workDir demo_cmd_tap, ''vars.fd'']) (files demo_cmd_tap) (ext demo_cmd_tap)" by code_simp
  then show "run_state (fileExists demo_timeout (path_join [workDir demo_cmd_tap, ''vars.fd''])) demo_cmd_tap = (True, demo_cmd_tap)"
    by (simp add: fileExists_def del: path_join.simps)
  show "fst (run_state (setupRunArtifacts demo_timeout demo_runner (diskPath demo_cmd_tap)) demo_cmd_tap) = Inr ()" by code_simp
qed

lemma run_gets_bind: "run_state (State_Monad.bind (gets f) k) s = run_state (k (f s)) s"
  by simp

lemma run_True_bind: "run_state m s = (True, s) \<Longrightarrow> run_state (State_Monad.bind m k) s = run_state (k True) s"
  by simp

lemma demo_tagged: "OutputMode demo_runner = ''tagged''"
  by code_simp

lemmas demo_cmd_walk = run_bind_fst [OF demo_steps(3)] run_bind_fst [OF demo_cmd_steps(1)] demo_cmd_tap_def [symmetric]
  run_gets_bind run_True_bind [OF demo_cmd_steps(2)] run_bind_fst [OF demo_cmd_steps(3)] run_bind_fst [OF demo_cmd_swtpm]
  on_err_simps prod.case not_True_eq_False if_False if_True demo_tagged simp_thms

lemma deferred_keeps: "preserves I c \<Longrightarrow> I (snd (run_state b s)) \<Longrightarrow> I (snd (run_state (deferred b c) s))"
  by (auto simp: deferred_def preserves_def split: prod.splits)

abbreviation demo_main :: "main_event \<Rightarrow> unit outcome" where
  "demo_main ev \<equiv> vmtest_main ''linux'' ''amd64'' demo_xdefs demo_flags (Inr (\<lambda>p. Inr (''/rf/'' @ p))) (\<lambda>_. ''/ws'') demo_timeout ev demo_cmd_host"

lemma demo_cmd_finish:
  assumes "happened e (snd (run_state (runRunMode ''linux'' ''amd64'' demo_timeout demo_runner) demo_cmd_ready))" and "run_events e"
  shows "\<exists>code h'. demo_main ev = Exited code h' \<and> e \<in> set (hevents h')"
proof -
  let ?run = "Run ''linux'' ''amd64'' demo_timeout demo_runner" and ?s = "snd (NewRunner ''amd64'' demo_cmd_config demo_cmd_host)"
  have "happened e (snd (run_state (deferred (runRunMode ''linux'' ''amd64'' demo_timeout demo_runner) (CleanupAll demo_timeout)) demo_cmd_ready))"
    by (rule deferred_keeps [where I = "happened e", OF happened_await(2) assms(1)])
  then have e: "e \<in> set (hevents (snd (run_state ?run ?s)))" unfolding demo_cmd_checks [symmetric] happened_def .
  obtain code s' where s': "run_state (supervise ev ?run) ?s = (code, s')" by fastforce
  have "\<not> (vmMode demo_xdefs = ''run'' \<and> fl_output demo_flags = ''direct'' \<and> ev \<noteq> RunDone)" by (simp add: demo_flags_def)
  then have "demo_main ev = Exited code (host.truncate s')"
    unfolding vmtest_main_ready [OF demo_prepares] by (simp only: if_False exit_with_def s' Let_def prod.case)
  moreover have "e \<in> set (hevents s')" using supervise_run [OF s'] assms(2) e by (metis snd_conv)
  ultimately show ?thesis by (simp add: truncate_fields)
qed

lemma happened_WaitMonitored [preserves_rules]: "preserves (happened e) (WaitMonitored S)"
proof -
  have "preserves (happened e) (modify (\<lambda>s. s\<lparr>streamer := g s\<rparr>))" for g by (simp add: preserves_def happened_def)
  then show ?thesis unfolding WaitMonitored_def finish_stream_def by (intro preserves_rules)
qed

lemma demo_cmd_starts_swtpm: "happened (HSwtpm ''/run/swtpm.pid'') (snd (run_state (runRunMode ''linux'' ''amd64'' demo_timeout demo_runner) demo_cmd_ready))"
  unfolding runRunMode_def runTagged_def
  by (simp only: demo_cmd_walk)
     (rule preserves_snd [where I = "happened (HSwtpm ''/run/swtpm.pid'')", OF _ startTPM_happened [OF demo_cmd_swtpm]], intro preserves_rules)

lemma demo_cmd_starts_qemu:
  "\<exists>pid path args. happened (HStart pid path args) (snd (run_state (runRunMode ''linux'' ''amd64'' demo_timeout demo_runner) demo_cmd_ready))"
proof -
  have key: "\<exists>pid path args. happened (HStart pid path args) (snd (run_state (State_Monad.bind (cmd_Start demo_timeout a) k) s))"
    if "\<And>e r. preserves (happened e) (k r)" for a s and k :: "go_error option \<Rightarrow> (unit rstate, go_error + unit) state"
    using cmd_Start_happened [OF demo_steps(6)] preserves_snd [OF that] unfolding run_bind_fst [OF demo_steps(6)] by metis
  show ?thesis unfolding runRunMode_def runTagged_def
    by (simp only: demo_cmd_walk run_bind_fst [OF demo_steps(1)] run_bind_fst [OF demo_steps(4)] run_bind_fst [OF demo_steps(5)] on_some_err_simps)
       (rule key, intro preserves_rules)
qed

lemma demo_cmd_facts:
  "\<not> fl_no_cleanup demo_flags" "\<not> unreadable demo_cmd_host ''/run/swtpm.pid''" "\<not> unremovable demo_cmd_host ''/run/swtpm.pid''"
  "cmds demo_cmd_host = []" "hevents demo_cmd_host = []" "vmMode demo_xdefs \<noteq> ''build''" "comma_free (vmMac demo_xdefs)"
  by (simp_all add: demo_flags_def demo_cmd_host_def demo_xdefs_def comma_free_def)

text \<open>Interrupted in the middle: after twelve events of \<open>Run\<close>, QEMU (process 77) being killed two events later.\<close>

theorem vmtest_main_stops_swtpm_witness:
  "\<exists>code h'. demo_main (GotSignal ''interrupt'' 12 [(2, 77)]) = Exited code h' \<and>
     HSwtpm ''/run/swtpm.pid'' \<in> set (hevents h') \<and> signals_to 4242 (hevents h') = [SIGTERM, SIGKILL]"
proof -
  obtain code h' where h: "demo_main (GotSignal ''interrupt'' 12 [(2, 77)]) = Exited code h'" "HSwtpm ''/run/swtpm.pid'' \<in> set (hevents h')"
    using demo_cmd_finish [OF demo_cmd_starts_swtpm] by (fastforce simp: run_events_def)
  from vmtest_main_stops_swtpm [OF demo_contract demo_cmd_facts(1-5) h] h show ?thesis by blast
qed

theorem vmtest_run_boots_disk_witness:
  "\<exists>pid path args. HStart pid path args \<in> set (trace_of (demo_main RunDone)) \<and>
    path = ''qemu-system-x86_64'' \<and> qprops ''drive'' (values_of ''-device'' args) = [''disk'']"
proof -
  obtain pid path args where "happened (HStart pid path args) (snd (run_state (runRunMode ''linux'' ''amd64'' demo_timeout demo_runner) demo_cmd_ready))"
    using demo_cmd_starts_qemu by blast
  from demo_cmd_finish [OF this, of RunDone] obtain code h' where "demo_main RunDone = Exited code h'" "HStart pid path args \<in> set (hevents h')"
    by (auto simp: run_events_def)
  then have h: "HStart pid path args \<in> set (trace_of (demo_main RunDone))" by simp
  have "QemuSystem (DefaultToolPaths ''amd64'') = ''qemu-system-x86_64''" by (simp add: DefaultToolPaths_def)
  then show ?thesis using vmtest_run_boots_disk [OF demo_cmd_facts(6,7,5,4) h] h by metis
qed

end
