(* ===== verification/RunnerEnd.thy ===== *)
theory RunnerEnd
  imports VmtestCmd
begin

text \<open>
  How the runner ends: in run mode QEMU has been waited for whenever \<open>Run\<close> returns; in build mode it has when
  the build succeeds, and it had then exited with status 0. (A build that times out or is cancelled sends QEMU
  SIGTERM and returns, so that there is no such theorem for it.)
\<close>

section \<open>Commands that are waited for\<close>

definition waited :: "Cmd \<Rightarrow> bool" where
  "waited c \<longleftrightarrow> cmd_Process c = None \<or> cmd_ProcessState c"

definition all_waited :: "'h rstate \<Rightarrow> bool" where
  "all_waited s \<longleftrightarrow> list_all waited (cmds s)"

text \<open>Every command but the one at \<open>a\<close>.\<close>

definition others_waited :: "nat \<Rightarrow> 'h rstate \<Rightarrow> bool" where
  "others_waited a s \<longleftrightarrow> a < length (cmds s) \<and> (\<forall>i < length (cmds s). i \<noteq> a \<longrightarrow> waited (cmds s ! i))"

definition ready_cmd :: "nat \<Rightarrow> 'h rstate \<Rightarrow> bool" where
  "ready_cmd a s \<longleftrightarrow> all_waited s \<and> a < length (cmds s)"

lemmas waited_defs = waited_def all_waited_def others_waited_def ready_cmd_def list_all_length

interpretation ended: host_frame all_waited
  by unfold_locales (simp_all add: all_waited_def)

interpretation pending: host_frame "others_waited a" for a
  by unfold_locales (simp_all add: others_waited_def)


text \<open>A program that does not touch the commands keeps all three.\<close>

lemma keeps_cmds:
  assumes "\<And>cs. preserves (\<lambda>s. cmds s = cs) m"
  shows "preserves all_waited m" "preserves (others_waited a) m" "preserves (ready_cmd a) m"
  using assms by (auto simp: preserves_def all_waited_def others_waited_def ready_cmd_def)

lemma cmds_kept:
  "preserves (\<lambda>s. cmds s = cs) (AddPIDFile q)" "preserves (\<lambda>s. cmds s = cs) (AddProcess b)" "preserves (\<lambda>s. cmds s = cs) (AttachTagged b fd tag st)"
  "preserves (\<lambda>s. cmds s = cs) (cleanupPIDFile q)" "preserves (\<lambda>s. cmds s = cs) (Printf f as)" "preserves (\<lambda>s. cmds s = cs) (hemit e)"
  "preserves (\<lambda>s. cmds s = cs) (modify (\<lambda>s. s\<lparr>streamer := g s\<rparr>))" "preserves (\<lambda>s. cmds s = cs) (prog p)"
  by (auto simp: preserves_def AddPIDFile_def AddProcess_def AttachTagged_def attach_def run_cleanupPIDFile run_prog split: StreamType.splits prod.splits)

lemma WaitMonitored_cmds: "preserves (\<lambda>s. cmds s = cs) (WaitMonitored S)"
  unfolding WaitMonitored_def finish_stream_def by (intro preserves_rules cmds_kept)

lemma startTPM_cmds: "preserves (\<lambda>s. cmds s = cs) (startTPMWithDir S cfg dir)"
  unfolding startTPMWithDir_def by (intro preserves_rules cmds_kept)

lemmas waited_rules = keeps_cmds cmds_kept WaitMonitored_cmds startTPM_cmds

section \<open>Start and wait\<close>

lemma CommandContext_ready: "triple all_waited (exec_CommandContext path args) ready_cmd"
  by (auto simp: triple_def exec_CommandContext_def ready_cmd_def all_waited_def waited_def)

lemma Start_pending: "triple (ready_cmd a) (cmd_Start S a) (\<lambda>r s. case r of None \<Rightarrow> others_waited a s | Some e \<Rightarrow> all_waited s)"
proof (rule tripleI)
  fix s s' r
  assume s: "ready_cmd a s" and run: "run_state (cmd_Start S a) s = (r, s')"
  obtain x fs h where x: "sys_Start S (cmd_path (cmds s ! a)) (cmd_args (cmds s ! a)) (files s) (ext s) = (x, fs, h)" by (metis prod_cases3)
  then show "case r of None \<Rightarrow> others_waited a s' | Some e \<Rightarrow> all_waited s'"
    using s run by (cases x) (auto simp: cmd_Start_def run_prog cmd_update_def waited_defs nth_list_update)
qed

lemma Wait_ends: "triple (others_waited a) (cmd_Wait S a) (\<lambda>_. all_waited)"
proof (rule tripleI)
  fix s s' r
  assume s: "others_waited a s" and run: "run_state (cmd_Wait S a) s = (r, s')"
  have t: "all_waited s" if "waited (cmds s ! a)" using s that by (auto simp: waited_defs)
  show "all_waited s'"
  proof (cases "waited (cmds s ! a)")
    case True
    then have "s' = s" using run by (auto simp: waited_def cmd_Wait_def split: option.splits)
    with t [OF True] show ?thesis by simp
  next
    case False
    then obtain pid where c: "cmd_Process (cmds s ! a) = Some pid" "\<not> cmd_ProcessState (cmds s ! a)" by (auto simp: waited_def)
    obtain x fs h where x: "sys_Wait S pid (files s) (ext s) = (x, fs, h)" by (metis prod_cases3)
    show ?thesis using s run by (auto simp: cmd_Wait_def c run_prog x cmd_update_def waited_defs nth_list_update split: if_splits)
  qed
qed

lemma after_Start:
  assumes "triple (others_waited a) k (\<lambda>_. all_waited)" and "\<And>e. triple all_waited (f e) (\<lambda>_. all_waited)"
  shows "triple (ready_cmd a) (do { r \<leftarrow> cmd_Start S a; (case r of None \<Rightarrow> k | Some e \<Rightarrow> f e) }) (\<lambda>_. all_waited)"
proof (rule triple_bind [OF Start_pending])
  fix r :: "go_error option"
  show "triple (\<lambda>s. case r of None \<Rightarrow> others_waited a s | Some e \<Rightarrow> all_waited s) (case r of None \<Rightarrow> k | Some e \<Rightarrow> f e) (\<lambda>_. all_waited)"
    using assms by (cases r) simp_all
qed

lemma ready_ret: "triple (ready_cmd a) (ret x) (\<lambda>_. all_waited)" "triple all_waited (ret x) (\<lambda>_. all_waited)"
  by (auto intro: triple_return simp: ready_cmd_def)

lemma ready_some_err:
  assumes "triple (ready_cmd a) k (\<lambda>_. all_waited)"
  shows "triple (ready_cmd a) (on_some_err r wrap k) (\<lambda>_. all_waited)"
  using assms by (cases r) (simp_all add: ready_ret)

lemma after_Start_err:
  "triple (others_waited a) k (\<lambda>_. all_waited) \<Longrightarrow> triple (ready_cmd a) (do { r \<leftarrow> cmd_Start S a; on_some_err r wrap k }) (\<lambda>_. all_waited)"
  unfolding on_some_err_def by (rule after_Start) (auto intro: ready_ret)

lemma pipe_ready:
  "(\<And>r. triple (ready_cmd a) (k r) (\<lambda>_. all_waited)) \<Longrightarrow> triple (ready_cmd a) (State_Monad.bind (prog p) k) (\<lambda>_. all_waited)"
  by (intro triple_seq waited_rules)

lemma runTagged_waits: "triple (ready_cmd a) (runTagged S cfg a) (\<lambda>_. all_waited)"
proof -
  have "triple (others_waited a) (do {
       AddProcess a; AttachTagged a 1 t1 Monitored; AttachTagged a 2 t2 Monitored; Printf f as; WaitMonitored S; _ \<leftarrow> cmd_Wait S a; ret x
     }) (\<lambda>_. all_waited)" for t1 t2 f as and x :: "go_error + unit"
    by (intro triple_bind [OF Wait_ends] ready_ret triple_seq waited_rules)
  then show ?thesis unfolding runTagged_def by (intro pipe_ready ready_some_err after_Start_err)
qed

lemma runDirect_waits: "triple (ready_cmd a) (runDirect S cfg pf a) (\<lambda>_. all_waited)"
proof -
  have r: "triple all_waited (case x of None \<Rightarrow> ret (Inr ()) | Some e \<Rightarrow> ret (Inl (g e))) (\<lambda>_. all_waited)" for x :: "exec_error option" and g :: "exec_error \<Rightarrow> go_error"
    by (cases x) (simp_all add: ready_ret)
  have w: "triple (others_waited a) (do { AddProcess a; Printf f1 as1; Printf f2 as2; x \<leftarrow> cmd_Wait S a;
       (case x of None \<Rightarrow> ret (Inr ()) | Some e \<Rightarrow> ret (Inl (g e))) }) (\<lambda>_. all_waited)" for f1 as1 f2 as2 and g :: "exec_error \<Rightarrow> go_error"
    by (rule triple_seq, intro waited_rules, rule triple_seq, intro waited_rules, rule triple_seq, intro waited_rules, rule triple_bind [OF Wait_ends r])
  have c: "triple all_waited (do { cleanupPIDFile pf; ret x }) (\<lambda>_. all_waited)" for x :: "go_error + unit"
    by (intro triple_seq waited_rules ready_ret)
  show ?thesis unfolding runDirect_def
    by (rule triple_seq, intro waited_rules) (rule after_Start [OF w c])
qed

lemma ended_err:
  assumes "\<And>x. triple all_waited (k x) (\<lambda>_. all_waited)"
  shows "triple all_waited (on_err r wrap k) (\<lambda>_. all_waited)"
  using assms by (cases r) (simp_all add: ready_ret)

lemma runRunMode_waits: "triple all_waited (runRunMode GOOS GOARCH S cfg) (\<lambda>_. all_waited)"
proof -
  have q: "triple all_waited (do {
      (if t then AddPIDFile pf else ret ());
      disk \<leftarrow> gets diskPath; a \<leftarrow> exec_CommandContext path (args disk);
      (if t then runTagged S cfg a else runDirect S cfg pf a)
    }) (\<lambda>_. all_waited)" for t pf path args
  proof -
    have g: "preserves all_waited (if t then AddPIDFile pf else ret ())" by (intro preserves_if waited_rules preserves_return)
    show ?thesis
      by (intro triple_seq [OF g] triple_seq preserves_gets triple_bind [OF CommandContext_ready]) (simp add: runTagged_waits runDirect_waits)
  qed
  have i: "triple all_waited (if b then ret x else m) (\<lambda>_. all_waited)"
    if "triple all_waited m (\<lambda>_. all_waited)" for b m and x :: "go_error + unit"
    using that by (simp add: ready_ret)
  have e: "preserves all_waited (fileExists S p)" for p unfolding fileExists_def by (rule preserves_gets)
  have t: "preserves all_waited (startTPMWithDir S cfg dir)" for dir by (intro waited_rules)
  show ?thesis unfolding runRunMode_def
    by (intro triple_seq ended_err i e t ended.frame_prims ended.frame_checks ended.frame_artifacts preserves_gets; simp only: prod.case split_beta; rule q)
qed

section \<open>The clean-up\<close>

lemma Wait_keeps: "preserves all_waited (cmd_Wait S a)"
proof (rule preservesI)
  fix s s' r
  assume s: "all_waited s" and run: "run_state (cmd_Wait S a) s = (r, s')"
  show "all_waited s'"
  proof (cases "a < length (cmds s)")
    case True
    then have "others_waited a s" using s by (simp add: waited_defs)
    from tripleD [OF Wait_ends this run] show ?thesis .
  next
    case False
    then have "cmds s' = cmds s" using run
      by (auto simp: cmd_Wait_def run_prog cmd_update_def list_update_beyond split: option.splits if_splits prod.splits)
    then show ?thesis using s by (simp add: all_waited_def)
  qed
qed

lemma Signal_cmds: "preserves (\<lambda>s. cmds s = cs) (cmd_Signal a sig)" "preserves (\<lambda>s. cmds s = cs) (time_Sleep d)"
  "preserves (\<lambda>s. cmds s = cs) (modify (\<lambda>s. s\<lparr>pm := m s\<rparr>))"
  by (auto simp: preserves_def cmd_Signal_def split: option.splits)

lemma CleanupAll_keeps: "preserves all_waited (CleanupAll S)"
  unfolding CleanupAll_def cleanup_cmd_def by (intro preserves_rules Wait_keeps keeps_cmds(1) [OF Signal_cmds(1)] keeps_cmds(1) [OF Signal_cmds(2)]
      keeps_cmds(1) [OF Signal_cmds(3)] keeps_cmds(1) [OF cmds_kept(4)])

lemma Run_waits:
  assumes "Mode cfg \<noteq> ''build''"
  shows "triple all_waited (Run GOOS GOARCH S cfg) (\<lambda>_. all_waited)"
proof -
  have d: "triple all_waited (deferred (runRunMode GOOS GOARCH S cfg) (CleanupAll S)) (\<lambda>_. all_waited)"
    unfolding deferred_def by (rule triple_bind [OF runRunMode_waits], rule triple_seq [OF CleanupAll_keeps]) (rule ready_ret)
  have "triple all_waited (if b then deferred (runRunMode GOOS GOARCH S cfg) (CleanupAll S) else runRunMode GOOS GOARCH S cfg) (\<lambda>_. all_waited)" for b
    by (rule triple_if) (rule d, rule runRunMode_waits)
  then show ?thesis unfolding Run_def Let_def using assms
    by (simp only: if_False) (intro triple_seq ended_err ended.frame_checks)
qed

text \<open>(C15) In run mode, with tagged or with direct output and whether or not there is a clean-up, \<open>Run\<close> does
  not return before QEMU has ended: every process it started has been waited for.\<close>

theorem Run_waits_for_qemu:
  assumes "Mode cfg \<noteq> ''build''" and "cmds s = []" and "run_state (Run GOOS GOARCH S cfg) s = (r, s')"
  shows "list_all (\<lambda>c. cmd_Process c = None \<or> cmd_ProcessState c) (cmds s')"
proof -
  have "all_waited s" using assms(2) by (simp add: all_waited_def)
  from tripleD [OF Run_waits [OF assms(1)] this assms(3)] show ?thesis by (simp add: all_waited_def waited_def [abs_def])
qed

theorem Run_waits_for_qemu_witness:
  "let s' = snd (run_state (Run ''linux'' ''amd64'' demo_timeout demo_runner) (snd (NewRunner ''amd64'' demo_cmd_config demo_cmd_host)))
   in (\<exists>pid path args. HStart pid path args \<in> set (hevents s')) \<and> list_all (\<lambda>c. cmd_Process c = None \<or> cmd_ProcessState c) (cmds s')"
proof -
  have m: "Mode demo_runner \<noteq> ''build''" by code_simp
  have c: "cmds (snd (NewRunner ''amd64'' demo_cmd_config demo_cmd_host)) = []" by (simp add: NewRunner_state demo_cmd_facts)
  obtain pid path args where "happened (HStart pid path args) (snd (run_state (runRunMode ''linux'' ''amd64'' demo_timeout demo_runner) demo_cmd_ready))"
    using demo_cmd_starts_qemu by blast
  from deferred_keeps [where I = "happened (HStart pid path args)", OF happened_await(2) this]
  have "HStart pid path args \<in> set (hevents (snd (run_state (Run ''linux'' ''amd64'' demo_timeout demo_runner) (snd (NewRunner ''amd64'' demo_cmd_config demo_cmd_host)))))"
    unfolding demo_cmd_checks happened_def .
  then show ?thesis using Run_waits_for_qemu [OF m c surjective_pairing] unfolding Let_def by blast
qed

section \<open>A build that succeeds\<close>




















end
