(* ===== verification/Orchestrator.thy ===== *)
theory Orchestrator
  imports HostApi
begin

text \<open>
  The orchestrator, \<open>orchestrator/main.go\<close>: it keeps one tmux window per virtual machine and runs one
  command in the foreground. tmux is reached through \<open>exec_Run\<close>; the foreground command, which gets an
  environment of its own, through the argument \<open>Foreground\<close>. \<open>runfiles\<close> stands for
  \<open>runfiles.New()\<close> (its \<open>Rlocation\<close>, or an error), \<open>rfEnv\<close> for \<open>runfiles.Env()\<close>, \<open>Getenv\<close> and \<open>Environ\<close> for the
  process environment; the build-time variables and the parsed flags are arguments. \<open>main\<close> returns the
  exit status of the process.
\<close>

section \<open>Definitions\<close>

record Job =
  ID :: string
  Command :: string

record TmuxSession =
  Name :: string

record flags =
  f_session :: string
  f_attach :: bool
  f_run :: string

record orch_env =
  rfEnv :: "go_error + string list"
  Getenv :: "string \<Rightarrow> string"
  Environ :: "string list"

subsection \<open>tmux\<close>

definition session_exists :: "'h sys \<Rightarrow> TmuxSession \<Rightarrow> ('h host, bool) state" where
  "session_exists S s = do {
     (_, err) \<leftarrow> exec_Run S ''tmux'' [''has-session'', ''-t'', Name s];
     ret (err = None)
   }"

fun nonempty_lines :: "string list \<Rightarrow> string list" where
  "nonempty_lines [] = []"
| "nonempty_lines (line # ls) = (if line \<noteq> [] then line # nonempty_lines ls else nonempty_lines ls)"

definition listWindows :: "'h sys \<Rightarrow> TmuxSession \<Rightarrow> ('h host, string list) state" where
  "listWindows S s = do {
     (outp, err) \<leftarrow> exec_Run S ''tmux'' [''list-windows'', ''-t'', Name s, ''-F'', ''#{window_name}''];
     ret (if err \<noteq> None then [] else nonempty_lines (Split (CHR 0x0A) (TrimSpace outp)))
   }"

fun contains :: "string list \<Rightarrow> string \<Rightarrow> bool" where
  "contains [] item = False"
| "contains (s # slice) item = (if s = item then True else contains slice item)"

definition hasWindow :: "'h sys \<Rightarrow> TmuxSession \<Rightarrow> string \<Rightarrow> ('h host, bool) state" where
  "hasWindow S s windowName = do {
     windows \<leftarrow> listWindows S s;
     ret (contains windows windowName)
   }"

text \<open>The part \<open>create\<close> and \<open>createWindow\<close> share: environment options, the command, and the check that
  the window survived.\<close>

fun env_args :: "string list \<Rightarrow> string list" where
  "env_args [] = []"
| "env_args (e # es) = ''-e'' # e # env_args es"

definition tmux_new :: "'h sys \<Rightarrow> orch_env \<Rightarrow> TmuxSession \<Rightarrow> string list \<Rightarrow> string \<Rightarrow> string \<Rightarrow> string \<Rightarrow> ('h host, go_error option) state" where
  "tmux_new S E s args what windowName command =
     (case rfEnv E of
        Inl err \<Rightarrow> ret (Some (Errorf ''failed to get runfiles env: %v'' [AErr err]))
      | Inr runfilesEnv \<Rightarrow>
          let args = args @ env_args runfilesEnv;
              workspace = Getenv E ''BUILD_WORKSPACE_DIRECTORY'';
              args = (if workspace \<noteq> [] then args @ [''-e'', ''BUILD_WORKSPACE_DIRECTORY='' @ workspace] else args);
              args = args @ [command]
          in do {
            (outp, err) \<leftarrow> exec_Run S ''tmux'' args;
            (case err of
               Some e \<Rightarrow> ret (Some (Errorf what [AErr (ErrExec e), AStr outp]))
             | None \<Rightarrow> do {
                 time_Sleep (100 * millisecond);
                 there \<leftarrow> hasWindow S s windowName;
                 ret (if \<not> there then Some (Errorf ''window %s exited immediately after creation'' [AStr windowName]) else None)
               })
          })"

definition create :: "'h sys \<Rightarrow> orch_env \<Rightarrow> TmuxSession \<Rightarrow> string \<Rightarrow> string \<Rightarrow> ('h host, go_error option) state" where
  "create S E s windowName command =
     tmux_new S E s [''new-session'', ''-d'', ''-s'', Name s, ''-n'', windowName] ''failed to create session: %v\<newline>Output: %s'' windowName command"

definition createWindow :: "'h sys \<Rightarrow> orch_env \<Rightarrow> TmuxSession \<Rightarrow> string \<Rightarrow> string \<Rightarrow> ('h host, go_error option) state" where
  "createWindow S E s windowName command =
     tmux_new S E s [''new-window'', ''-t'', Name s, ''-n'', windowName] ''failed to create window: %v\<newline>Output: %s'' windowName command"

definition killWindow :: "'h sys \<Rightarrow> TmuxSession \<Rightarrow> string \<Rightarrow> ('h host, unit) state" where
  "killWindow S s windowName = do {
     (_, err) \<leftarrow> exec_Run S ''tmux'' [''kill-window'', ''-t'', Name s @ '':'' @ windowName];
     (case err of
        Some e \<Rightarrow> Eprintf ''[orchestrator] Warning: failed to kill window %s: %v\<newline>'' [AStr windowName, AErr (ErrExec e)]
      | None \<Rightarrow> Printf ''[orchestrator] Killed window: %s\<newline>'' [AStr windowName])
   }"

definition session_attach :: "'h sys \<Rightarrow> TmuxSession \<Rightarrow> ('h host, exec_error option) state" where
  "session_attach S s = do {
     (_, err) \<leftarrow> exec_Run S ''tmux'' [''attach-session'', ''-t'', Name s];
     ret err
   }"

subsection \<open>The foreground command\<close>

definition runForeground ::
  "(string list \<Rightarrow> string \<Rightarrow> string list \<Rightarrow> ('h, exec_error option) prog) \<Rightarrow> orch_env \<Rightarrow> string list \<Rightarrow> ('h host, int) state" where
  "runForeground Foreground E command =
     (case command of
        [] \<Rightarrow> do { Eprintf ''Empty command for --run\<newline>'' []; ret 1 }
      | prog0 # args \<Rightarrow>
          let env = (case rfEnv E of Inl err \<Rightarrow> Environ E | Inr runfilesEnv \<Rightarrow> Environ E @ runfilesEnv)
          in do {
            hemit (HRun prog0 args);
            err \<leftarrow> prog (Foreground env prog0 args);
            (case err of
               None \<Rightarrow> ret 0
             | Some (ExitError code) \<Rightarrow> ret code
             | Some (ExecOther m) \<Rightarrow> do {
                 Eprintf ''Failed to run command: %v\<newline>'' [AErr (ErrExec (ExecOther m))];
                 ret 127
               })
          })"

subsection \<open>The jobs\<close>

fun collectDeps ::
  "(string \<Rightarrow> go_error + string) \<Rightarrow> string list \<Rightarrow> (string \<rightharpoonup> string) \<times> Job list \<Rightarrow> message + (string \<rightharpoonup> string) \<times> Job list" where
  "collectDeps Rlocation [] st = Inr st"
| "collectDeps Rlocation (dep0 # deps) (allJobs, ensureJobs) =
     (let dep = TrimSpace dep0 in
      if dep = [] then collectDeps Rlocation deps (allJobs, ensureJobs)
      else
        let windowName = last_part dep;
            allJobs = allJobs(windowName \<mapsto> dep)
        in case Rlocation dep of
             Inl err \<Rightarrow> Inl (''Error: failed to resolve dependency %q from runfiles: %v\<newline>'', [AStr dep, AErr err])
           | Inr depBinary \<Rightarrow> collectDeps Rlocation deps (allJobs, ensureJobs @ [\<lparr>ID = windowName, Command = depBinary\<rparr>]))"

definition collectJobs ::
  "(string \<Rightarrow> go_error + string) \<Rightarrow> string \<Rightarrow> string \<Rightarrow> message + (string \<rightharpoonup> string) \<times> Job list" where
  "collectJobs Rlocation vmPrimary vmDependencies =
     (let deps = (if vmDependencies \<noteq> [] then Split (CHR '','') vmDependencies else []) in
      case collectDeps Rlocation deps (Map.empty, []) of
        Inl m \<Rightarrow> Inl m
      | Inr (allJobs, ensureJobs) \<Rightarrow>
          let primaryWindow = last_part vmPrimary;
              allJobs = allJobs(primaryWindow \<mapsto> vmPrimary)
          in case Rlocation vmPrimary of
               Inl err \<Rightarrow> Inl (''Error: failed to resolve primary VM %q from runfiles: %v\<newline>'', [AStr vmPrimary, AErr err])
             | Inr primaryBinary \<Rightarrow> Inr (allJobs, ensureJobs @ [\<lparr>ID = primaryWindow, Command = primaryBinary\<rparr>]))"

fun has_job :: "Job list \<Rightarrow> string \<Rightarrow> bool" where
  "has_job [] n = False"
| "has_job (job # jobs) n = (if ID job = n then True else has_job jobs n)"

fun without_job :: "Job list \<Rightarrow> string \<Rightarrow> Job list" where
  "without_job [] n = []"
| "without_job (job # jobs) n = (if ID job \<noteq> n then job # without_job jobs n else without_job jobs n)"

definition runWindow :: "string \<Rightarrow> Job list \<Rightarrow> string" where
  "runWindow run ensureJobs =
     (if Contains run ''/'' \<and> has_job ensureJobs (last_part run) then last_part run else run)"

definition filterRun :: "string \<Rightarrow> Job list \<Rightarrow> Job list" where
  "filterRun run ensureJobs =
     (if run \<noteq> [] then
        let filteredJobs = without_job ensureJobs (runWindow run ensureJobs)
        in if length filteredJobs < length ensureJobs then filteredJobs else ensureJobs
      else ensureJobs)"

fun printJobs :: "nat \<Rightarrow> Job list \<Rightarrow> ('h host, unit) state" where
  "printJobs i [] = ret ()"
| "printJobs i (job # jobs) = do {
     Printf ''[orchestrator] Job %d: ID=%s, Command=%s\<newline>'' [AInt (int i), AStr (ID job), AStr (Command job)];
     printJobs (Suc i) jobs
   }"

subsection \<open>Windows for the jobs\<close>

definition addWindow :: "'h sys \<Rightarrow> orch_env \<Rightarrow> TmuxSession \<Rightarrow> Job \<Rightarrow> ('h host, unit) state" where
  "addWindow S E s job = do {
     Printf ''[orchestrator] Creating additional window: %s\<newline>'' [AStr (ID job)];
     r \<leftarrow> createWindow S E s (ID job) (Command job);
     (case r of
        Some err \<Rightarrow> Eprintf ''[orchestrator] ERROR: Failed to create window %s: %v\<newline>'' [AStr (ID job), AErr err]
      | None \<Rightarrow> Printf ''[orchestrator] Created window: %s\<newline>'' [AStr (ID job)])
   }"

definition ensureWindow :: "'h sys \<Rightarrow> orch_env \<Rightarrow> TmuxSession \<Rightarrow> string list \<Rightarrow> Job \<Rightarrow> ('h host, unit) state" where
  "ensureWindow S E s existingWindows job =
     (if \<not> contains existingWindows (ID job) then do {
        r \<leftarrow> createWindow S E s (ID job) (Command job);
        (case r of
           Some err \<Rightarrow> Eprintf ''Failed to create window %s: %v\<newline>'' [AStr (ID job), AErr err]
         | None \<Rightarrow> Printf ''[orchestrator] Created window: %s in existing session\<newline>'' [AStr (ID job)])
      } else ret ())"

definition ensureSession :: "'h sys \<Rightarrow> orch_env \<Rightarrow> TmuxSession \<Rightarrow> bool \<Rightarrow> Job list \<Rightarrow> ('h host, int + unit) state" where
  "ensureSession S E session hasSession ensureJobs =
     (if \<not> hasSession then
        (case ensureJobs of
           [] \<Rightarrow> ret (Inr ())
         | firstJob # otherJobs \<Rightarrow> do {
             Printf ''[orchestrator] Creating new session %s with first window %s\<newline>'' [AStr (Name session), AStr (ID firstJob)];
             r \<leftarrow> create S E session (ID firstJob) (Command firstJob);
             (case r of
                Some err \<Rightarrow> do {
                  Eprintf ''[orchestrator] ERROR: Failed to create session: %v\<newline>'' [AErr err];
                  ret (Inl 1)
                }
              | None \<Rightarrow> do {
                  Printf ''[orchestrator] Created tmux session: %s with window: %s\<newline>'' [AStr (Name session), AStr (ID firstJob)];
                  for_each otherJobs (addWindow S E session);
                  ret (Inr ())
                })
           })
      else do {
        existingWindows \<leftarrow> listWindows S session;
        for_each ensureJobs (ensureWindow S E session existingWindows);
        ret (Inr ())
      })"

subsection \<open>main\<close>

definition resolveRun :: "(string \<Rightarrow> go_error + string) \<Rightarrow> (string \<rightharpoonup> string) \<Rightarrow> string \<Rightarrow> ('h host, go_error + string) state" where
  "resolveRun Rlocation allJobs run = do {
     runCmd \<leftarrow> (if \<not> Contains run ''/'' then
                  (case allJobs run of
                     Some runfilePath \<Rightarrow> do {
                       Printf ''[orchestrator] Resolved window name '%s' to path '%s'\<newline>'' [AStr run, AStr runfilePath];
                       ret runfilePath
                     }
                   | None \<Rightarrow> ret run)
                else ret run);
     (if \<not> HasPrefix runCmd ''/'' then
        (case Rlocation runCmd of
           Inl err \<Rightarrow> do {
             Eprintf ''[orchestrator] ERROR: Failed to resolve runfile %s: %v\<newline>'' [AStr runCmd, AErr err];
             ret (Inl err)
           }
         | Inr resolved \<Rightarrow> ret (Inr resolved))
      else ret (Inr runCmd))
   }"

definition killJob :: "'h sys \<Rightarrow> TmuxSession \<Rightarrow> Job \<Rightarrow> ('h host, unit) state" where
  "killJob S session job = do {
     Printf ''[orchestrator] Killing window: %s\<newline>'' [AStr (ID job)];
     killWindow S session (ID job)
   }"

text \<open>\<open>os.Exit(code)\<close>: what the parent sees of the exit code are its low eight bits; the -1 that \<open>ExitCode()\<close> returns for
  a process killed by a signal becomes 255.\<close>

definition os_Exit :: "int \<Rightarrow> int" where
  "os_Exit code = code mod 256"

definition runMode ::
  "'h sys \<Rightarrow> (string list \<Rightarrow> string \<Rightarrow> string list \<Rightarrow> ('h, exec_error option) prog) \<Rightarrow> orch_env \<Rightarrow> (string \<Rightarrow> go_error + string) \<Rightarrow>
   TmuxSession \<Rightarrow> (string \<rightharpoonup> string) \<Rightarrow> Job list \<Rightarrow> string \<Rightarrow> ('h host, int) state" where
  "runMode S Foreground E Rlocation session allJobs ensureJobs run = do {
     r \<leftarrow> resolveRun Rlocation allJobs run;
     (case r of
        Inl err \<Rightarrow> ret 1
      | Inr runCmd \<Rightarrow> do {
          Printf ''[orchestrator] Running foreground command: %s\<newline>'' [AStr runCmd];
          exitCode \<leftarrow> runForeground Foreground E (Fields runCmd);
          Printf ''[orchestrator] Foreground command exited with code %d, cleaning up windows\<newline>'' [AInt exitCode];
          for_each ensureJobs (killJob S session);
          ret (os_Exit exitCode)
        })
   }"

definition attachMode :: "'h sys \<Rightarrow> TmuxSession \<Rightarrow> string \<Rightarrow> ('h host, int) state" where
  "attachMode S session primaryWindow = do {
     _ \<leftarrow> exec_Run S ''tmux'' [''select-window'', ''-t'', Name session @ '':'' @ primaryWindow];
     r \<leftarrow> session_attach S session;
     (case r of
        Some err \<Rightarrow> do { Eprintf ''Failed to attach to session: %v\<newline>'' [AErr (ErrExec err)]; ret 1 }
      | None \<Rightarrow> ret 0)
   }"

definition orchestrator_main ::
  "string \<Rightarrow> string \<Rightarrow> flags \<Rightarrow> go_error + (string \<Rightarrow> go_error + string) \<Rightarrow> orch_env \<Rightarrow> 'h sys \<Rightarrow>
   (string list \<Rightarrow> string \<Rightarrow> string list \<Rightarrow> ('h, exec_error option) prog) \<Rightarrow> ('h host, int) state" where
  "orchestrator_main vmPrimary vmDependencies fl runfiles E S Foreground =
     (if vmPrimary = [] then do { Eprintf ''Error: vmPrimary not set via x_defs\<newline>'' []; ret 1 }
      else case runfiles of
        Inl err \<Rightarrow> do { Eprintf ''Error: failed to initialize runfiles: %v\<newline>'' [AErr err]; ret 1 }
      | Inr Rlocation \<Rightarrow>
          (case collectJobs Rlocation vmPrimary vmDependencies of
             Inl (f, as) \<Rightarrow> do { Eprintf f as; ret 1 }
           | Inr (allJobs, ensureJobs0) \<Rightarrow>
               let ensureJobs = filterRun (f_run fl) ensureJobs0;
                   session = \<lparr>Name = f_session fl\<rparr>
               in do {
                 hasSession \<leftarrow> session_exists S session;
                 Printf ''[orchestrator] Session %s exists: %v, ensure jobs: %d\<newline>''
                   [AStr (f_session fl), ABool hasSession, AInt (int (length ensureJobs))];
                 printJobs 0 ensureJobs;
                 r \<leftarrow> ensureSession S E session hasSession ensureJobs;
                 (case r of
                    Inl code \<Rightarrow> ret code
                  | Inr _ \<Rightarrow>
                      if f_run fl \<noteq> [] then runMode S Foreground E Rlocation session allJobs ensureJobs (f_run fl)
                      else if f_attach fl then attachMode S session (last_part vmPrimary)
                      else ret 0)
               }))"

end
