(* ===== verification/OrchestratorProps.thy ===== *)
theory OrchestratorProps
  imports Orchestrator "HOL-Library.Multiset"
begin

text \<open>
  The orchestrator against tmux. \<open>tmux_contract\<close> states what tmux documents about the commands the
  program sends; the locale \<open>window_store\<close> is the view of a session as a set of windows, which the two
  ways of opening windows implement (\<open>new_session\<close>, \<open>old_session\<close>); on it rest the theorems about the
  start-up and about \<open>--run\<close>.
\<close>

section \<open>The window list\<close>

text \<open>A window name tmux cannot take for an index, a pattern or a pane: a letter followed by letters,
  digits, dashes and underscores.\<close>

definition letters :: string where
  "letters = ''abcdefghijklmnopqrstuvwxyzABCDEFGHIJKLMNOPQRSTUVWXYZ''"

definition proper :: "string \<Rightarrow> bool" where
  "proper w \<longleftrightarrow> w \<noteq> [] \<and> hd w \<in> set letters \<and> list_all (\<lambda>c. c \<in> set (letters @ ''0123456789-_'')) w"

lemma proper_no_space:
  assumes "proper w" and "r \<in> set space_runes \<union> set (map rev space_runes)"
  shows "hd r \<notin> set w"
proof -
  have "list_all (\<lambda>r. \<forall>x \<in> set (letters @ ''0123456789-_''). hd r \<noteq> x) (space_runes @ map rev space_runes)"
    by code_simp
  then show ?thesis using assms by (auto simp: proper_def list_all_iff)
qed

lemma match_len_hd: "(\<forall>r \<in> set rs. r \<noteq> [] \<and> hd r \<noteq> hd s) \<Longrightarrow> s \<noteq> [] \<Longrightarrow> match_len rs s = 0"
proof -
  assume h: "\<forall>r \<in> set rs. r \<noteq> [] \<and> hd r \<noteq> hd s" "s \<noteq> []"
  have "find (HasPrefix s) rs = None"
    using h by (fastforce simp: find_None_iff HasPrefix_iff prefix_def neq_Nil_conv)
  then show ?thesis by (simp add: match_len_def)
qed

lemma TrimSpace_line:
  assumes "s \<noteq> []" and "\<forall>r \<in> set space_runes. hd r \<noteq> hd s" and "\<forall>r \<in> set space_runes. last r \<noteq> last s"
  shows "TrimSpace (s @ [CHR 0x0A]) = s"
proof -
  have l: "strip_runes space_runes (s @ [CHR 0x0A]) = s @ [CHR 0x0A]"
    using assms by (intro strip_runes_id match_len_hd) (auto simp: space_runes_ne)
  have "match_len (map rev space_runes) (CHR 0x0A # rev s) = 1"
    by (simp add: match_len_def space_runes_def)
  moreover have "strip_runes (map rev space_runes) (rev s) = rev s"
    using assms by (intro strip_runes_id match_len_hd) (auto simp: space_runes_ne hd_rev)
  ultimately have "strip_runes (map rev space_runes) (CHR 0x0A # rev s) = rev s"
    by (subst strip_runes.simps) (simp add: Let_def)
  then show ?thesis by (simp add: TrimSpace_def l)
qed

lemma concat_lines: "ws \<noteq> [] \<Longrightarrow> concat (map (\<lambda>w. w @ [c]) ws) = Join c ws @ [c]"
  by (induction c ws rule: Join.induct) auto

lemma Join_ends:
  "ws \<noteq> [] \<Longrightarrow> \<forall>w \<in> set ws. w \<noteq> [] \<Longrightarrow> Join c ws \<noteq> [] \<and> hd (Join c ws) = hd (hd ws) \<and> last (Join c ws) = last (last ws)"
  by (induction c ws rule: Join.induct) auto

lemma nonempty_lines_id: "\<forall>w \<in> set ws. w \<noteq> [] \<Longrightarrow> nonempty_lines ws = ws"
  by (induction ws) auto

lemma window_lines:
  assumes "list_all proper ws" and ne: "ws \<noteq> []"
  shows "nonempty_lines (Split (CHR 0x0A) (TrimSpace (concat (map (\<lambda>w. w @ [CHR 0x0A]) ws)))) = ws"
proof -
  have p: "proper w" "w \<noteq> []" if "w \<in> set ws" for w using assms that by (auto simp: list_all_iff proper_def)
  note e = Join_ends [OF ne, of "CHR 0x0A"]
  have "TrimSpace (Join (CHR 0x0A) ws @ [CHR 0x0A]) = Join (CHR 0x0A) ws"
  proof (rule TrimSpace_line)
    show "\<forall>r \<in> set space_runes. hd r \<noteq> hd (Join (CHR 0x0A) ws)"
      using e p ne proper_no_space by (metis Un_iff hd_in_set)
    show "\<forall>r \<in> set space_runes. last r \<noteq> last (Join (CHR 0x0A) ws)"
    proof
      fix r assume r: "r \<in> set space_runes"
      then have "hd (rev r) \<notin> set (last ws)" using p ne by (intro proper_no_space) auto
      then show "last r \<noteq> last (Join (CHR 0x0A) ws)" using e p ne r
        by (metis hd_rev last_in_set)
    qed
  qed (use e p in auto)
  moreover have "CHR 0x0A \<notin> set w" if "w \<in> set ws" for w
    using proper_no_space [OF p(1) [OF that], of "''\<newline>''"] by (simp add: space_runes_def)
  ultimately show ?thesis
    using ne p by (simp add: concat_lines Split_Join nonempty_lines_id)
qed

section \<open>What tmux promises\<close>

text \<open>
  The documented behaviour of tmux for one session \<open>n\<close>, seen through \<open>W\<close>, the names of its windows;
  a session without windows does not exist. A new window may get any index. The commands put into
  windows keep running, \<open>-t n\<close> denotes no other session, and a window is addressed by name only if it is
  proper and the only one with it.
\<close>

definition tmux_contract :: "'h sys \<Rightarrow> string \<Rightarrow> ('h \<Rightarrow> string list) \<Rightarrow> bool" where
  "tmux_contract S n W \<longleftrightarrow>
     (\<forall>fs h out err fs' h'. sys_Run S ''tmux'' [''has-session'', ''-t'', n] fs h = ((out, err), fs', h') \<longrightarrow>
        (err = None \<longleftrightarrow> W h \<noteq> []) \<and> W h' = W h) \<and>
     (\<forall>fs h out err fs' h'. sys_Run S ''tmux'' [''list-windows'', ''-t'', n, ''-F'', ''#{window_name}''] fs h = ((out, err), fs', h') \<longrightarrow>
        W h' = W h \<and> (W h \<noteq> [] \<longrightarrow> out = concat (map (\<lambda>w. w @ [CHR 0x0A]) (W h)) \<and> err = None)) \<and>
     (\<forall>w es c fs h out err fs' h'.
        sys_Run S ''tmux'' ([''new-session'', ''-d'', ''-s'', n, ''-n'', w] @ env_args es @ [c]) fs h = ((out, err), fs', h') \<longrightarrow>
        W h = [] \<longrightarrow> err = None \<and> W h' = [w]) \<and>
     (\<forall>w es c fs h out err fs' h'.
        sys_Run S ''tmux'' ([''new-window'', ''-t'', n, ''-n'', w] @ env_args es @ [c]) fs h = ((out, err), fs', h') \<longrightarrow>
        W h \<noteq> [] \<longrightarrow> err = None \<and> mset (W h') = add_mset w (mset (W h))) \<and>
     (\<forall>w fs h out err fs' h'.
        sys_Run S ''tmux'' [''kill-window'', ''-t'', n @ '':'' @ w] fs h = ((out, err), fs', h') \<longrightarrow>
        proper w \<longrightarrow> count (mset (W h)) w = 1 \<longrightarrow> mset (W h') = mset (W h) - {#w#})"

lemmas tmux_laws = tmux_contract_def [THEN iffD1]
lemmas tmux_has = tmux_laws [THEN conjunct1, rule_format]
lemmas tmux_list = tmux_laws [THEN conjunct2, THEN conjunct1, rule_format]
lemmas tmux_session = tmux_laws [THEN conjunct2, THEN conjunct2, THEN conjunct1, rule_format]
lemmas tmux_window = tmux_laws [THEN conjunct2, THEN conjunct2, THEN conjunct2, THEN conjunct1, rule_format]
lemmas tmux_kill = tmux_laws [THEN conjunct2, THEN conjunct2, THEN conjunct2, THEN conjunct2, rule_format]

section \<open>A set of windows\<close>

text \<open>The interface the main program relies on: \<open>wins\<close> is the multiset of window names in a good
  state; adding a job adds its window, killing one that is there once removes it.\<close>

locale window_store =
  fixes ok :: "'s \<Rightarrow> bool"
    and wins :: "'s \<Rightarrow> string multiset"
    and good :: "'j \<Rightarrow> bool"
    and key :: "'j \<Rightarrow> string"
    and add :: "'j \<Rightarrow> ('s, unit) state"
    and kill :: "'j \<Rightarrow> ('s, unit) state"
  assumes add_law: "ok s \<Longrightarrow> good j \<Longrightarrow> wins s \<noteq> {#} \<Longrightarrow> run_state (add j) s = (u, s') \<Longrightarrow>
      ok s' \<and> wins s' = add_mset (key j) (wins s)"
    and kill_law: "ok s \<Longrightarrow> good j \<Longrightarrow> count (wins s) (key j) = 1 \<Longrightarrow> run_state (kill j) s = (u, s') \<Longrightarrow>
      ok s' \<and> wins s' = wins s - {#key j#}"
begin

lemma adds:
  assumes "ok s" and "list_all good js" and "wins s \<noteq> {#}" and "run_state (for_each js add) s = (u, s')"
  shows "ok s' \<and> wins s' = wins s + mset (map key js)"
  using assms
proof (induction js arbitrary: s)
  case (Cons j js)
  obtain v t where t: "run_state (add j) s = (v, t)" by (rule prod.exhaust)
  with Cons.prems add_law [of s j v t] have "ok t" "wins t = add_mset (key j) (wins s)" by simp_all
  then show ?case using Cons.IH [of t] Cons.prems t by simp
qed simp

lemma kills:
  assumes "ok s" and "list_all good js" and "distinct (map key js)" and "\<forall>j \<in> set js. count (wins s) (key j) = 1"
    and "run_state (for_each js kill) s = (u, s')"
  shows "ok s' \<and> wins s' = wins s - mset (map key js)"
  using assms
proof (induction js arbitrary: s)
  case (Cons j js)
  obtain v t where t: "run_state (kill j) s = (v, t)" by (rule prod.exhaust)
  with Cons.prems kill_law [of s j v t] have k: "ok t" "wins t = wins s - {#key j#}" by simp_all
  have "count (wins t) (key i) = 1" if "i \<in> set js" for i
    using that Cons.prems(3,4) by (auto simp: k(2) image_iff)
  then show ?case using Cons.IH [of t] Cons.prems t k by simp
qed simp

end

section \<open>The session is a set of windows\<close>

definition tmux_ok :: "'h sys \<Rightarrow> orch_env \<Rightarrow> string \<Rightarrow> ('h \<Rightarrow> string list) \<Rightarrow> 'h host \<Rightarrow> bool" where
  "tmux_ok S E n W s \<longleftrightarrow> tmux_contract S n W \<and> (\<exists>env. rfEnv E = Inr env) \<and> list_all proper (W (ext s))"

definition session_windows :: "('h \<Rightarrow> string list) \<Rightarrow> 'h host \<Rightarrow> string multiset" where
  "session_windows W s = mset (W (ext s))"

definition proper_job :: "Job \<Rightarrow> bool" where
  "proper_job job \<longleftrightarrow> proper (ID job)"

lemma proper_mset: "list_all proper ws \<longleftrightarrow> (\<forall>w \<in># mset ws. proper w)"
  by (simp add: list_all_iff)

lemma proper_add: "list_all proper ws \<Longrightarrow> proper w \<Longrightarrow> mset ws' = add_mset w (mset ws) \<Longrightarrow> list_all proper ws'"
  by (simp add: proper_mset)

lemma contains_iff [simp]: "contains ws w \<longleftrightarrow> w \<in> set ws"
  by (induction ws) auto

lemma run_exec: "run_state (exec_Run S path args) s =
   (case sys_Run S path args (files s) (ext s) of (r, fs, h) \<Rightarrow> (r, s\<lparr>hevents := hevents s @ [HRun path args], files := fs, ext := h\<rparr>))"
  by (simp add: exec_Run_def run_prog split: prod.splits)

lemma listWindows_result:
  assumes "tmux_ok S E n W s" and "run_state (listWindows S \<lparr>Name = n\<rparr>) s = (ws, s')"
  shows "W (ext s') = W (ext s) \<and> (W (ext s) \<noteq> [] \<longrightarrow> ws = W (ext s))"
proof -
  obtain out err fs h where r: "sys_Run S ''tmux'' [''list-windows'', ''-t'', n, ''-F'', ''#{window_name}''] (files s) (ext s) = ((out, err), fs, h)"
    by (metis prod.collapse)
  with assms(2) have e: "ext s' = h" "ws = (if err \<noteq> None then [] else nonempty_lines (Split (CHR 0x0A) (TrimSpace out)))"
    by (auto simp: listWindows_def run_exec)
  have "tmux_contract S n W" using assms(1) by (simp add: tmux_ok_def)
  from tmux_list [OF this r] show ?thesis
    using e assms(1) window_lines [of "W (ext s)"] by (simp add: tmux_ok_def)
qed

lemma hasWindow_result:
  assumes "tmux_ok S E n W s" and "run_state (hasWindow S \<lparr>Name = n\<rparr> w) s = (b, s')" and "w \<in> set (W (ext s))"
  shows "b \<and> W (ext s') = W (ext s)"
proof -
  obtain ws t where "run_state (listWindows S \<lparr>Name = n\<rparr>) s = (ws, t)" by fastforce
  with listWindows_result [OF assms(1) this] assms(2,3) show ?thesis by (auto simp: hasWindow_def)
qed

lemma env_args_append: "env_args (xs @ ys) = env_args xs @ env_args ys"
  by (induction xs) auto

lemma tmux_new_result:
  assumes "tmux_ok S E n W s" and "proper w"
    and "\<And>es fs h out err fs' h'. sys_Run S ''tmux'' (args @ env_args es @ [c]) fs h = ((out, err), fs', h') \<Longrightarrow>
          W h = W (ext s) \<Longrightarrow> err = None \<and> mset (W h') = add_mset w (mset (W h))"
    and "run_state (tmux_new S E \<lparr>Name = n\<rparr> args what w c) s = (r, s')"
  shows "r = None \<and> mset (W (ext s')) = add_mset w (mset (W (ext s)))"
proof -
  obtain env where env: "rfEnv E = Inr env" using assms(1) by (auto simp: tmux_ok_def)
  define es where "es = env @ (if Getenv E ''BUILD_WORKSPACE_DIRECTORY'' \<noteq> [] then [''BUILD_WORKSPACE_DIRECTORY='' @ Getenv E ''BUILD_WORKSPACE_DIRECTORY''] else [])"
  have a: "(if Getenv E ''BUILD_WORKSPACE_DIRECTORY'' \<noteq> [] then (args @ env_args env) @ [''-e'', ''BUILD_WORKSPACE_DIRECTORY='' @ Getenv E ''BUILD_WORKSPACE_DIRECTORY'']
      else args @ env_args env) @ [c] = args @ env_args es @ [c]"
    by (simp add: es_def env_args_append)
  obtain out err fs h where x: "sys_Run S ''tmux'' (args @ env_args es @ [c]) (files s) (ext s) = ((out, err), fs, h)"
    by (metis prod.collapse)
  have y: "err = None" "mset (W h) = add_mset w (mset (W (ext s)))" using assms(3) [OF x] by simp_all
  let ?t = "s\<lparr>files := fs, ext := h, hevents := hevents s @ [HRun ''tmux'' (args @ env_args es @ [c]), HSleep (100 * millisecond)]\<rparr>"
  obtain b u where hw: "run_state (hasWindow S \<lparr>Name = n\<rparr> w) ?t = (b, u)" by fastforce
  have "tmux_ok S E n W ?t" using assms(1,2) y(2) by (simp add: tmux_ok_def proper_mset)
  from hasWindow_result [OF this hw] have "b" "W (ext u) = W h" using y(2) by (simp_all flip: set_mset_mset)
  then show ?thesis using assms(4) y hw unfolding tmux_new_def env Let_def sum.case a by (simp add: run_exec x)
qed

lemma create_result:
  assumes "tmux_ok S E n W s" and "proper w" and "W (ext s) = []"
    and "run_state (create S E \<lparr>Name = n\<rparr> w c) s = (r, s')"
  shows "r = None \<and> tmux_ok S E n W s' \<and> session_windows W s' = {#w#}"
proof -
  have c: "tmux_contract S n W" using assms(1) by (simp add: tmux_ok_def)
  note law = tmux_session [OF c]
  from tmux_new_result [OF assms(1,2) _ assms(4) [unfolded create_def TmuxSession.select_convs]]
  have r: "r = None" "mset (W (ext s')) = add_mset w (mset (W (ext s)))" using law assms(3) by simp_all
  with assms(1,2) show ?thesis using proper_add [OF _ assms(2) r(2)] assms(3) by (simp add: tmux_ok_def session_windows_def)
qed

lemma createWindow_result:
  assumes "tmux_ok S E n W s" and "proper w" and "W (ext s) \<noteq> []"
    and "run_state (createWindow S E \<lparr>Name = n\<rparr> w c) s = (r, s')"
  shows "r = None \<and> tmux_ok S E n W s' \<and> session_windows W s' = add_mset w (session_windows W s)"
proof -
  have c: "tmux_contract S n W" using assms(1) by (simp add: tmux_ok_def)
  note law = tmux_window [OF c]
  from tmux_new_result [OF assms(1,2) _ assms(4) [unfolded createWindow_def TmuxSession.select_convs]]
  have r: "r = None" "mset (W (ext s')) = add_mset w (mset (W (ext s)))" using law assms(3) by simp_all
  with assms(1,2) show ?thesis using proper_add [OF _ assms(2) r(2)] by (simp add: tmux_ok_def session_windows_def)
qed

lemma tmux_ok_mset: "tmux_ok S E n W s \<Longrightarrow> (\<And>w. w \<in> set (W (ext s')) \<Longrightarrow> proper w) \<Longrightarrow> tmux_ok S E n W s'"
  by (auto simp: tmux_ok_def list_all_iff)

lemma killJob_result:
  assumes "tmux_ok S E n W s" and "proper_job job" and "count (session_windows W s) (ID job) = 1"
    and "run_state (killJob S \<lparr>Name = n\<rparr> job) s = (u, s')"
  shows "tmux_ok S E n W s' \<and> session_windows W s' = session_windows W s - {#ID job#}"
proof -
  obtain out err fs h where x: "sys_Run S ''tmux'' [''kill-window'', ''-t'', n @ '':'' @ ID job] (files s) (ext s) = ((out, err), fs, h)"
    by (metis prod.collapse)
  have "tmux_contract S n W" using assms(1) by (simp add: tmux_ok_def)
  from tmux_kill [OF this x] have m: "mset (W h) = mset (W (ext s)) - {#ID job#}"
    using assms(2,3) by (simp add: proper_job_def session_windows_def)
  have "ext s' = h" using assms(4) by (auto simp: killJob_def killWindow_def run_exec x [simplified] split: option.splits)
  moreover have "proper w" if "w \<in> set (W h)" for w
    using that m assms(1) by (metis in_diffD proper_mset set_mset_mset tmux_ok_def)
  ultimately show ?thesis using m tmux_ok_mset [OF assms(1), of s'] by (simp add: session_windows_def)
qed

lemma tmux_ok_ext: "ext s' = ext s \<Longrightarrow> tmux_ok S E n W s' = tmux_ok S E n W s" "ext s' = ext s \<Longrightarrow> session_windows W s' = session_windows W s"
  by (simp_all add: tmux_ok_def session_windows_def)

lemma addWindow_result:
  assumes "tmux_ok S E n W s" and "proper_job job" and "session_windows W s \<noteq> {#}"
    and "run_state (addWindow S E \<lparr>Name = n\<rparr> job) s = (u, s')"
  shows "tmux_ok S E n W s' \<and> session_windows W s' = add_mset (ID job) (session_windows W s)"
proof -
  let ?t = "s\<lparr>hevents := hevents s @ [HPrint ''[orchestrator] Creating additional window: %s\<newline>'' [AStr (ID job)]]\<rparr>"
  obtain r t where c: "run_state (createWindow S E \<lparr>Name = n\<rparr> (ID job) (Command job)) ?t = (r, t)" by fastforce
  have "ext s' = ext t" using assms(4) by (auto simp: addWindow_def c split: option.splits)
  then show ?thesis
    using createWindow_result [OF _ _ _ c, of W] assms(1-3) tmux_ok_ext [of ?t s] tmux_ok_ext [of s' t]
    by (simp add: proper_job_def session_windows_def)
qed

lemma ensureWindow_result:
  assumes "tmux_ok S E n W s" and "proper_job job" and "session_windows W s \<noteq> {#}"
    and "run_state (ensureWindow S E \<lparr>Name = n\<rparr> [] job) s = (u, s')"
  shows "tmux_ok S E n W s' \<and> session_windows W s' = add_mset (ID job) (session_windows W s)"
proof -
  obtain r t where c: "run_state (createWindow S E \<lparr>Name = n\<rparr> (ID job) (Command job)) s = (r, t)" by fastforce
  have "ext s' = ext t" using assms(4) by (auto simp: ensureWindow_def c split: option.splits)
  then show ?thesis
    using createWindow_result [OF assms(1) _ _ c] assms(2,3) tmux_ok_ext [of s' t]
    by (simp add: proper_job_def session_windows_def)
qed

interpretation new_session: window_store "tmux_ok S E n W" "session_windows W" proper_job ID "addWindow S E \<lparr>Name = n\<rparr>" "killJob S \<lparr>Name = n\<rparr>"
  for S E n W
  by unfold_locales (fact addWindow_result, fact killJob_result)

interpretation old_session: window_store "tmux_ok S E n W" "session_windows W" proper_job ID "ensureWindow S E \<lparr>Name = n\<rparr> []" "killJob S \<lparr>Name = n\<rparr>"
  for S E n W
  by unfold_locales (fact ensureWindow_result, fact killJob_result)

section \<open>Ensuring the windows\<close>

text \<open>The specification: every job that has no window yet gets one, the windows that are there stay.\<close>

definition ensure_spec :: "string list \<Rightarrow> string multiset \<Rightarrow> string multiset" where
  "ensure_spec ids M = M + mset (filter (\<lambda>i. i \<notin># M) ids)"

lemma for_each_ensure:
  "for_each jobs (ensureWindow S E session ws) = for_each (filter (\<lambda>job. ID job \<notin> set ws) jobs) (ensureWindow S E session [])"
  by (induction jobs) (simp_all add: ensureWindow_def)

lemma session_exists_result:
  assumes "tmux_ok S E n W s" and "run_state (session_exists S \<lparr>Name = n\<rparr>) s = (b, s')"
  shows "b = (session_windows W s \<noteq> {#}) \<and> tmux_ok S E n W s' \<and> session_windows W s' = session_windows W s"
proof -
  obtain out err fs h where x: "sys_Run S ''tmux'' [''has-session'', ''-t'', n] (files s) (ext s) = ((out, err), fs, h)"
    by (metis prod.collapse)
  have "tmux_contract S n W" using assms(1) by (simp add: tmux_ok_def)
  from tmux_has [OF this x] show ?thesis
    using assms by (auto simp: session_exists_def run_exec x tmux_ok_def session_windows_def)
qed

lemma ensureSession_result:
  assumes ok: "tmux_ok S E n W s" and good: "list_all proper_job jobs"
    and run: "run_state (ensureSession S E \<lparr>Name = n\<rparr> (session_windows W s \<noteq> {#}) jobs) s = (r, s')"
  shows "r = Inr () \<and> tmux_ok S E n W s' \<and> session_windows W s' = ensure_spec (map ID jobs) (session_windows W s)"
proof (cases "session_windows W s = {#}")
  case True
  show ?thesis
  proof (cases jobs)
    case (Cons job otherJobs)
    let ?s = "s\<lparr>hevents := hevents s @ [HPrint ''[orchestrator] Creating new session %s with first window %s\<newline>'' [AStr n, AStr (ID job)]]\<rparr>"
    obtain e t where c: "run_state (create S E \<lparr>Name = n\<rparr> (ID job) (Command job)) ?s = (e, t)" by fastforce
    have t: "e = None" "tmux_ok S E n W t" "session_windows W t = {#ID job#}"
      using create_result [OF _ _ _ c, of W] ok True good Cons by (simp_all add: tmux_ok_def session_windows_def proper_job_def)
    let ?t = "t\<lparr>hevents := hevents t @ [HPrint ''[orchestrator] Created tmux session: %s with window: %s\<newline>'' [AStr n, AStr (ID job)]]\<rparr>"
    obtain u v where f: "run_state (for_each otherJobs (addWindow S E \<lparr>Name = n\<rparr>)) ?t = (u, v)" by (rule prod.exhaust)
    have "tmux_ok S E n W ?t" and w: "session_windows W ?t = {#ID job#}" using t tmux_ok_ext [of ?t t] by simp_all
    from new_session.adds [OF this(1) _ _ f] good Cons
    have "tmux_ok S E n W v" "session_windows W v = add_mset (ID job) (mset (map ID otherJobs))" unfolding w by simp_all
    moreover have "r = Inr ()" "s' = v" using run True Cons by (simp_all add: ensureSession_def c t(1) f)
    ultimately show ?thesis using True Cons by (simp add: ensure_spec_def)
  qed (use run True ok in \<open>simp add: ensureSession_def ensure_spec_def\<close>)
next
  case False
  obtain ws t where l: "run_state (listWindows S \<lparr>Name = n\<rparr>) s = (ws, t)" by fastforce
  have t: "W (ext t) = W (ext s)" "ws = W (ext s)"
    using listWindows_result [OF ok l] False by (simp_all add: session_windows_def)
  then have okt: "tmux_ok S E n W t" "session_windows W t = session_windows W s"
    using ok by (simp_all add: tmux_ok_def session_windows_def)
  let ?js = "filter (\<lambda>job. ID job \<notin> set ws) jobs"
  obtain u v where f: "run_state (for_each ?js (ensureWindow S E \<lparr>Name = n\<rparr> [])) t = (u, v)" by (rule prod.exhaust)
  have "list_all proper_job ?js" using good by (auto simp: list_all_iff)
  from old_session.adds [OF okt(1) this _ f] False
  have "tmux_ok S E n W v" "session_windows W v = session_windows W s + mset (map ID ?js)" unfolding okt(2) by blast+
  moreover have "r = Inr ()" "s' = v" using run False f by (simp_all add: ensureSession_def l for_each_ensure [of jobs _ _ _ ws])
  moreover have "map ID ?js = filter (\<lambda>i. i \<notin># session_windows W s) (map ID jobs)"
    by (simp add: filter_map comp_def t(2) session_windows_def)
  ultimately show ?thesis by (simp add: ensure_spec_def)
qed

text \<open>(C6) The session after the start-up is what the specification says, with tmux doing what it
  documents: whether or not the session existed, every window that was there is still there, and
  exactly the jobs that had none have been given one.\<close>

theorem ensureSession_windows:
  assumes "tmux_contract S n W" and "rfEnv E = Inr env" and "list_all proper (W (ext s))" and "list_all proper (map ID jobs)"
    and "run_state (do { hasSession \<leftarrow> session_exists S \<lparr>Name = n\<rparr>; ensureSession S E \<lparr>Name = n\<rparr> hasSession jobs }) s = (r, s')"
  shows "r = Inr () \<and> mset (W (ext s')) = ensure_spec (map ID jobs) (mset (W (ext s)))"
proof -
  have ok: "tmux_ok S E n W s" using assms(1-3) by (simp add: tmux_ok_def)
  obtain b t where b: "run_state (session_exists S \<lparr>Name = n\<rparr>) s = (b, t)" by fastforce
  note x = session_exists_result [OF ok b]
  have "run_state (ensureSession S E \<lparr>Name = n\<rparr> (session_windows W t \<noteq> {#}) jobs) t = (r, s')" using assms(5) x b by simp
  from ensureSession_result [OF _ _ this] x assms(4) show ?thesis
    by (simp add: session_windows_def list_all_iff proper_job_def)
qed

text \<open>A tmux server with the single session \<open>vms\<close>, for concrete runs.\<close>

definition demo_tmux :: "string \<Rightarrow> string list \<Rightarrow> (string list, string \<times> exec_error option) prog" where
  "demo_tmux path args fs h =
     (let c = hd args in
      if c = ''has-session'' then (([], if h \<noteq> [] then None else Some (ExitError 1)), fs, h)
      else if c = ''list-windows'' then ((concat (map (\<lambda>w. w @ [CHR 0x0A]) h), if h \<noteq> [] then None else Some (ExitError 1)), fs, h)
      else if c = ''new-session'' then (([], None), fs, [args ! 5])
      else if c = ''new-window'' then (([], None), fs, h @ [args ! 4])
      else if c = ''kill-window'' then (([], None), fs, remove1 (drop 4 (args ! 2)) h)
      else (([], None), fs, h))"

definition demo_tmux_sys :: "string list sys" where
  "demo_tmux_sys =
     \<lparr>sys_Run = demo_tmux,
      sys_Pipe = (\<lambda>fd fs h. (None, fs, h)),
      sys_Start = (\<lambda>path args fs h. (Inr 77, fs, h)),
      sys_Wait = (\<lambda>pid fs h. (None, fs, h)),
      sys_Select = (\<lambda>pid fs h. (QemuExited None, fs, h)),
      sys_Reads = (\<lambda>pid fd h. []),
      sys_MkdirAll = (\<lambda>p perm fs h. (None, fs, h)),
      sys_Getwd = (\<lambda>h. Inr ''/root''),
      vm_FileExists = (\<lambda>p fs h. fs p \<noteq> None),
      vm_CopyFile = (\<lambda>src dst fs h. (None, fs, h)),
      vm_CopyDir = (\<lambda>src dst fs h. (None, fs, h)),
      vm_InitializeTPMState = (\<lambda>setup dir banks fs h. (None, fs, h)),
      vm_StartSwtpm = (\<lambda>bin dir fs h. (Inr ([], []), fs, h)),
      vm_ProcessEscapeSequences = (\<lambda>data. (data, []))\<rparr>"

definition demo_orch_host :: "string list \<Rightarrow> string list host" where
  "demo_orch_host ws = \<lparr>files = Map.empty, unreadable = (\<lambda>_. False), unremovable = (\<lambda>_. False), cmds = [], hevents = [], ext = ws\<rparr>"

definition demo_orch_env :: orch_env where
  "demo_orch_env = \<lparr>rfEnv = Inr [''RUNFILES_DIR=/rf''], Getenv = (\<lambda>_. ''/ws''), Environ = []\<rparr>"

lemma demo_tmux_contract: "tmux_contract demo_tmux_sys ''vms'' id"
  by (simp add: tmux_contract_def demo_tmux_sys_def demo_tmux_def Let_def)

theorem ensureSession_windows_witness:
  "mset (ext (snd (run_state (do {
      hasSession \<leftarrow> session_exists demo_tmux_sys \<lparr>Name = ''vms''\<rparr>;
      ensureSession demo_tmux_sys demo_orch_env \<lparr>Name = ''vms''\<rparr> hasSession [\<lparr>ID = ''db'', Command = ''/rf/db''\<rparr>, \<lparr>ID = ''web'', Command = ''/rf/web''\<rparr>]
    }) (demo_orch_host [''log'', ''web''])))) = {#''log'', ''web'', ''db''#}"
proof -
  let ?m = "do { hasSession \<leftarrow> session_exists demo_tmux_sys \<lparr>Name = ''vms''\<rparr>;
      ensureSession demo_tmux_sys demo_orch_env \<lparr>Name = ''vms''\<rparr> hasSession [\<lparr>ID = ''db'', Command = ''/rf/db''\<rparr>, \<lparr>ID = ''web'', Command = ''/rf/web''\<rparr>] }"
  obtain r s' where x: "run_state ?m (demo_orch_host [''log'', ''web'']) = (r, s')" by fastforce
  have p: "list_all proper (id (ext (demo_orch_host [''log'', ''web''])))" "list_all proper (map ID [\<lparr>ID = ''db'', Command = ''/rf/db''\<rparr>, \<lparr>ID = ''web'', Command = ''/rf/web''\<rparr>])"
    by code_simp+
  have e: "rfEnv demo_orch_env = Inr [''RUNFILES_DIR=/rf'']" by (simp add: demo_orch_env_def)
  from ensureSession_windows [OF demo_tmux_contract e p x] have "mset (ext s') = {#''log'', ''web'', ''db''#}"
    by (simp add: ensure_spec_def demo_orch_host_def add_mset_commute)
  then show ?thesis unfolding x by simp
qed

section \<open>The jobs\<close>

text \<open>The runfiles that are resolved, in order: the dependencies, then the primary VM.\<close>

definition targets :: "string \<Rightarrow> string \<Rightarrow> string list" where
  "targets vmPrimary vmDependencies =
     filter (\<lambda>d. d \<noteq> []) (map TrimSpace (if vmDependencies = [] then [] else Split (CHR '','') vmDependencies)) @ [vmPrimary]"

definition job_of :: "(string \<Rightarrow> go_error + string) \<Rightarrow> string \<Rightarrow> Job" where
  "job_of Rlocation d = \<lparr>ID = last_part d, Command = projr (Rlocation d)\<rparr>"

lemma collectDeps_result:
  "collectDeps R deps (m, js) = (let ds = filter (\<lambda>d. d \<noteq> []) (map TrimSpace deps) in
     case find (\<lambda>d. isl (R d)) ds of
       Some d \<Rightarrow> Inl (''Error: failed to resolve dependency %q from runfiles: %v\<newline>'', [AStr d, AErr (projl (R d))])
     | None \<Rightarrow> Inr (m ++ map_of (rev (map (\<lambda>d. (last_part d, d)) ds)), js @ map (job_of R) ds))"
proof (induction deps arbitrary: m js)
  case (Cons d deps)
  show ?case
    by (cases "R (TrimSpace d)") (simp_all add: Cons.IH Let_def job_of_def split: option.splits)
qed simp

lemma collectJobs_cases:
  "if list_all (\<lambda>d. \<not> isl (R d)) (targets vmPrimary vmDependencies)
   then collectJobs R vmPrimary vmDependencies =
     Inr (map_of (rev (map (\<lambda>d. (last_part d, d)) (targets vmPrimary vmDependencies))), map (job_of R) (targets vmPrimary vmDependencies))
   else isl (collectJobs R vmPrimary vmDependencies)"
proof -
  let ?ds = "filter (\<lambda>d. d \<noteq> []) (map TrimSpace (if vmDependencies = [] then [] else Split (CHR '','') vmDependencies))"
  have f: "find (\<lambda>d. isl (R d)) ?ds = None \<longleftrightarrow> list_all (\<lambda>d. \<not> isl (R d)) ?ds" by (auto simp: find_None_iff list_all_iff)
  show ?thesis
  proof (cases "find (\<lambda>d. isl (R d)) ?ds")
    case None
    then show ?thesis using f
      by (cases "R vmPrimary") (auto simp: collectJobs_def collectDeps_result Let_def targets_def job_of_def)
  next
    case (Some d)
    then show ?thesis using f by (auto simp: collectJobs_def collectDeps_result Let_def targets_def)
  qed
qed

text \<open>(C31) Jobs are collected for the dependencies, in their order and without blank entries, and for the
  primary VM, last; each is named after the last element of its runfile path and runs the resolved
  binary, and where two share a name the table of names has the later one. One unresolvable path
  and there are no jobs at all.\<close>

theorem collectJobs_result:
  "if list_all (\<lambda>d. \<not> isl (R d)) (targets vmPrimary vmDependencies)
   then collectJobs R vmPrimary vmDependencies =
     Inr (map_of (rev (map (\<lambda>d. (last_part d, d)) (targets vmPrimary vmDependencies))), map (job_of R) (targets vmPrimary vmDependencies))
   else isl (collectJobs R vmPrimary vmDependencies)"
  by (rule collectJobs_cases)

section \<open>Run mode\<close>

lemma count_distinct: "distinct xs \<Longrightarrow> count (mset xs) x = (if x \<in> set xs then 1 else 0)"
  by (simp add: distinct_count_atmost_1)

lemma count_ensured:
  "distinct ws \<Longrightarrow> distinct ids \<Longrightarrow> count (ensure_spec ids (mset ws)) x = (if x \<in> set ws \<or> x \<in> set ids then 1 else 0)"
  by (simp add: ensure_spec_def count_distinct)

lemma ensured_minus:
  assumes "distinct ws" and "distinct ids"
  shows "ensure_spec ids (mset ws) - mset ids = filter_mset (\<lambda>w. w \<notin> set ids) (mset ws)"
  using assms by (intro multiset_eqI) (simp add: count_ensured count_distinct)

lemma printJobs_ext [simp]: "ext (snd (run_state (printJobs i jobs) s)) = ext s"
  by (induction jobs arbitrary: i s) simp_all

text \<open>What \<open>--run\<close> resolves to.\<close>

definition run_target :: "(string \<Rightarrow> go_error + string) \<Rightarrow> (string \<rightharpoonup> string) \<Rightarrow> string \<Rightarrow> go_error + string" where
  "run_target Rlocation allJobs run =
     (let runCmd = (if Contains run ''/'' then run else case_option run id (allJobs run))
      in if HasPrefix runCmd ''/'' then Inr runCmd else Rlocation runCmd)"

lemma resolveRun_result:
  "\<exists>es. run_state (resolveRun R allJobs run) s = (run_target R allJobs run, s\<lparr>hevents := hevents s @ es\<rparr>)"
  by (cases "allJobs run"; cases "R run"; cases "R (the (allJobs run))") (auto simp: resolveRun_def run_target_def Let_def intro: exI [of _ "[]"])

definition foreground_keeps :: "(string list \<Rightarrow> string \<Rightarrow> string list \<Rightarrow> ('h, exec_error option) prog) \<Rightarrow> ('h \<Rightarrow> string list) \<Rightarrow> bool" where
  "foreground_keeps Foreground W \<longleftrightarrow> (\<forall>env p as fs h r fs' h'. Foreground env p as fs h = (r, fs', h') \<longrightarrow> W h' = W h)"

lemma runForeground_windows:
  assumes "foreground_keeps Foreground W" and "run_state (runForeground Foreground E command) s = (code, s')"
  shows "W (ext s') = W (ext s)"
proof (cases command)
  case (Cons p as)
  let ?env = "case rfEnv E of Inl err \<Rightarrow> Environ E | Inr runfilesEnv \<Rightarrow> Environ E @ runfilesEnv"
  obtain r fs h where f: "Foreground ?env p as (files s) (ext s) = (r, fs, h)" by (metis prod_cases3)
  then have "ext s' = h" using assms(2) Cons
    by (cases r; cases "the r") (auto simp: runForeground_def run_prog Let_def)
  moreover have "W h = W (ext s)" using assms(1) f unfolding foreground_keeps_def by blast
  ultimately show ?thesis by simp
qed (use assms(2) in \<open>auto simp: runForeground_def\<close>)

lemma runMode_result:
  assumes ok: "tmux_ok S E n W s" and good: "list_all proper_job jobs" and fg: "foreground_keeps Foreground W"
    and "distinct (map ID jobs)" and "\<forall>job \<in> set jobs. count (session_windows W s) (ID job) = 1"
    and run: "run_state (runMode S Foreground E R \<lparr>Name = n\<rparr> allJobs jobs run) s = (code, s')"
  shows "case run_target R allJobs run of
      Inl err \<Rightarrow> code = 1 \<and> session_windows W s' = session_windows W s
    | Inr runCmd \<Rightarrow> session_windows W s' = session_windows W s - mset (map ID jobs) \<and>
        (\<exists>t. session_windows W t = session_windows W s \<and> code = os_Exit (fst (run_state (runForeground Foreground E (Fields runCmd)) t)))"
proof -
  obtain es where rr: "run_state (resolveRun R allJobs run) s = (run_target R allJobs run, s\<lparr>hevents := hevents s @ es\<rparr>)"
    using resolveRun_result by blast
  show ?thesis
  proof (cases "run_target R allJobs run")
    case (Inl err)
    then show ?thesis using run by (auto simp: runMode_def rr session_windows_def)
  next
    case (Inr runCmd)
    let ?t = "s\<lparr>hevents := hevents s @ es @ [HPrint ''[orchestrator] Running foreground command: %s\<newline>'' [AStr runCmd]]\<rparr>"
    obtain c u where f: "run_state (runForeground Foreground E (Fields runCmd)) ?t = (c, u)" by fastforce
    let ?u = "u\<lparr>hevents := hevents u @ [HPrint ''[orchestrator] Foreground command exited with code %d, cleaning up windows\<newline>'' [AInt c]]\<rparr>"
    obtain x v where k: "run_state (for_each jobs (killJob S \<lparr>Name = n\<rparr>)) ?u = (x, v)" by (rule prod.exhaust)
    have w: "session_windows W ?t = session_windows W s" "session_windows W ?u = session_windows W s"
      using runForeground_windows [OF fg f] by (simp_all add: session_windows_def)
    have "tmux_ok S E n W ?u" using ok runForeground_windows [OF fg f] by (simp add: tmux_ok_def)
    from new_session.kills [OF this good assms(4) _ k] have "session_windows W v = session_windows W s - mset (map ID jobs)"
      unfolding w using assms(5) by blast
    moreover have "code = os_Exit c" "s' = v" using run by (simp_all add: runMode_def rr Inr f k)
    moreover have "code = os_Exit (fst (run_state (runForeground Foreground E (Fields runCmd)) ?t))" unfolding f using calculation(2) by simp
    ultimately show ?thesis using w(1) unfolding Inr sum.case by blast
  qed
qed

text \<open>(C5) \<open>--run\<close>: the command is started when every other job has a window, its exit status is the
  orchestrator's, and afterwards the session has exactly the windows it had before whose names are
  not those of a job, so a job's window is closed even if it had been there before. When the command
  cannot be resolved, the status is 1 and the windows that were opened stay. (Window names are distinct and
  proper; the exit status is the low eight bits of the command's exit code.)\<close>

theorem orchestrator_run:
  assumes "tmux_contract S n W" and "rfEnv E = Inr env" and "foreground_keeps Foreground W"
    and "vmPrimary \<noteq> []" and "run \<noteq> []" and "collectJobs R vmPrimary vmDependencies = Inr (allJobs, jobs)"
    and "ids = map ID (filterRun run jobs)" and "list_all proper (W (ext s) @ ids)" and "distinct (W (ext s))" and "distinct ids"
    and "run_state (orchestrator_main vmPrimary vmDependencies \<lparr>f_session = n, f_attach = a, f_run = run\<rparr> (Inr R) E S Foreground) s = (code, s')"
  shows "case run_target R allJobs run of
      Inl err \<Rightarrow> code = 1 \<and> mset (W (ext s')) = ensure_spec ids (mset (W (ext s)))
    | Inr runCmd \<Rightarrow> mset (W (ext s')) = filter_mset (\<lambda>w. w \<notin> set ids) (mset (W (ext s))) \<and>
        (\<exists>t. set (W (ext t)) = set (W (ext s)) \<union> set ids \<and> code = os_Exit (fst (run_state (runForeground Foreground E (Fields runCmd)) t)))"
proof -
  let ?js = "filterRun run jobs" and ?M = "session_windows W s"
  have ok: "tmux_ok S E n W s" using assms(1,2,8) by (simp add: tmux_ok_def)
  have good: "list_all proper_job ?js" using assms(7,8) by (simp add: list_all_iff proper_job_def)
  obtain b t where b: "run_state (session_exists S \<lparr>Name = n\<rparr>) s = (b, t)" by fastforce
  note bt = session_exists_result [OF ok b]
  let ?t = "t\<lparr>hevents := hevents t @ [HPrint ''[orchestrator] Session %s exists: %v, ensure jobs: %d\<newline>'' [AStr n, ABool b, AInt (int (length ?js))]]\<rparr>"
  obtain x u where p: "run_state (printJobs 0 ?js) ?t = (x, u)" by (rule prod.exhaust)
  have "ext u = ext t" using printJobs_ext [of 0 ?js ?t] p by simp
  then have u: "tmux_ok S E n W u" "session_windows W u = ?M" using bt tmux_ok_ext [of u t] by simp_all
  obtain r v where e: "run_state (ensureSession S E \<lparr>Name = n\<rparr> b ?js) u = (r, v)" by fastforce
  have v: "r = Inr ()" "tmux_ok S E n W v" "session_windows W v = ensure_spec ids ?M"
    using ensureSession_result [OF u(1) good, of r v] e bt u(2) assms(7) by simp_all
  have c: "count (session_windows W v) i = (if i \<in> set (W (ext s)) \<or> i \<in> set ids then 1 else 0)" for i
    unfolding v(3) unfolding session_windows_def by (rule count_ensured [OF assms(9,10)])
  have m: "run_state (runMode S Foreground E R \<lparr>Name = n\<rparr> allJobs ?js run) v = (code, s')"
    using assms(11) by (simp add: orchestrator_main_def assms(4-6) Let_def b p e v(1))
  have d: "distinct (map ID ?js)" "\<forall>job \<in> set ?js. count (session_windows W v) (ID job) = 1"
    using assms(7,10) c by auto
  have "set (W (ext w)) = set (W (ext s)) \<union> set ids" if "session_windows W w = session_windows W v" for w
    using that v(3) by (auto simp: session_windows_def ensure_spec_def simp flip: set_mset_mset)
  with runMode_result [OF v(2) good assms(3) d m] show ?thesis
    using ensured_minus [OF assms(9,10)] assms(7) v(3) by (auto simp: session_windows_def split: sum.splits)
qed

theorem orchestrator_run_witness:
  "mset (ext (snd (run_state (orchestrator_main ''x/web'' '' x/db'' \<lparr>f_session = ''vms'', f_attach = False, f_run = ''web''\<rparr>
      (Inr (\<lambda>p. Inr (''/rf/'' @ p))) demo_orch_env demo_tmux_sys (\<lambda>env p as fs h. (Some (ExitError 3), fs, h))) (demo_orch_host [''db'', ''log'']))))
   = {#''log''#} \<and>
   fst (run_state (orchestrator_main ''x/web'' '' x/db'' \<lparr>f_session = ''vms'', f_attach = False, f_run = ''web''\<rparr>
      (Inr (\<lambda>p. Inr (''/rf/'' @ p))) demo_orch_env demo_tmux_sys (\<lambda>env p as fs h. (Some (ExitError 3), fs, h))) (demo_orch_host [''db'', ''log'']))
   = 3"
proof -
  let ?fg = "\<lambda>env p as fs h. (Some (ExitError 3), fs, h :: string list)" and ?R = "\<lambda>p. Inr (''/rf/'' @ p) :: go_error + string"
  let ?m = "orchestrator_main ''x/web'' '' x/db'' \<lparr>f_session = ''vms'', f_attach = False, f_run = ''web''\<rparr> (Inr ?R) demo_orch_env demo_tmux_sys ?fg"
  let ?jobs = "[\<lparr>ID = ''db'', Command = ''/rf/x/db''\<rparr>, \<lparr>ID = ''web'', Command = ''/rf/x/web''\<rparr>]"
  obtain code s' where x: "run_state ?m (demo_orch_host [''db'', ''log'']) = (code, s')" by fastforce
  have c: "snd (projr (collectJobs ?R ''x/web'' '' x/db'')) = ?jobs" "\<not> isl (collectJobs ?R ''x/web'' '' x/db'')" "fst (projr (collectJobs ?R ''x/web'' '' x/db'')) ''web'' = Some ''x/web''"
    by code_simp+
  define allJobs where "allJobs = fst (projr (collectJobs ?R ''x/web'' '' x/db''))"
  have j: "collectJobs ?R ''x/web'' '' x/db'' = Inr (allJobs, ?jobs)"
    using c(1,2) unfolding allJobs_def by (metis prod.collapse sum.collapse(2))
  have t: "run_target ?R allJobs ''web'' = Inr ''/rf/x/web''"
    using c(3) by (simp add: run_target_def allJobs_def)
  have e: "rfEnv demo_orch_env = Inr [''RUNFILES_DIR=/rf'']" by (simp add: demo_orch_env_def)
  have f: "foreground_keeps ?fg id" by (simp add: foreground_keeps_def)
  have i: "[''db''] = map ID (filterRun ''web'' ?jobs)" by code_simp
  have p: "list_all proper (id (ext (demo_orch_host [''db'', ''log''])) @ [''db''])" "distinct (id (ext (demo_orch_host [''db'', ''log''])))" "distinct [''db'']"
    by code_simp+
  have n: "''x/web'' \<noteq> []" "''web'' \<noteq> []" by simp_all
  note run = orchestrator_run [OF demo_tmux_contract e f n j i p x, unfolded t sum.case]
  have "fst (run_state (runForeground ?fg demo_orch_env (Fields ''/rf/x/web'')) t) = 3" for t
    by (simp add: runForeground_def demo_orch_env_def run_prog Fields_id [of "''/rf/x/web''"] space_free_def space_runes_def)
  then have "code = 3" using run by (auto simp: os_Exit_def)
  moreover have "mset (ext s') = {#''log''#}" using run by (simp add: demo_orch_host_def)
  ultimately show ?thesis unfolding x by simp
qed

text \<open>(C30) Nothing is started before everything is resolved: when a build-time variable is missing, the
  runfiles are not available or a path of a job cannot be resolved, the status is 1 and tmux has
  not been called.\<close>

theorem orchestrator_resolves_first:
  assumes "vmPrimary = [] \<or> isl runfiles \<or> list_ex (\<lambda>d. isl (projr runfiles d)) (targets vmPrimary vmDependencies)"
    and "run_state (orchestrator_main vmPrimary vmDependencies fl runfiles E S Foreground) s = (code, s')"
  shows "code = 1 \<and> (\<exists>f as. s' = s\<lparr>hevents := hevents s @ [HErr f as]\<rparr>)"
proof (cases "vmPrimary = [] \<or> isl runfiles")
  case True
  then show ?thesis using assms(2) by (cases runfiles) (auto simp: orchestrator_main_def split: if_splits)
next
  case False
  then obtain R where R: "runfiles = Inr R" by (cases runfiles) auto
  with assms(1) False have "\<not> list_all (\<lambda>d. \<not> isl (R d)) (targets vmPrimary vmDependencies)" by (auto simp: list_all_iff list_ex_iff)
  then obtain m where "collectJobs R vmPrimary vmDependencies = Inl m"
    using collectJobs_cases [of R vmPrimary vmDependencies] by (auto simp: isl_def)
  then show ?thesis using assms(2) False R by (cases m) (auto simp: orchestrator_main_def)
qed

theorem orchestrator_resolves_first_witness:
  "fst (run_state (orchestrator_main ''web'' '' , gone,db'' \<lparr>f_session = ''vms'', f_attach = True, f_run = []\<rparr>
     (Inr (\<lambda>p. if p = ''gone'' then Inl (ErrExt ''no such runfile'') else Inr p)) demo_orch_env demo_tmux_sys (\<lambda>env p as fs h. (None, fs, h))) (demo_orch_host [])) = 1"
proof -
  let ?R = "\<lambda>p. if p = ''gone'' then Inl (ErrExt ''no such runfile'') else Inr p"
  let ?m = "orchestrator_main ''web'' '' , gone,db'' \<lparr>f_session = ''vms'', f_attach = True, f_run = []\<rparr> (Inr ?R) demo_orch_env demo_tmux_sys (\<lambda>env p as fs h. (None, fs, h))"
  obtain code s' where x: "run_state ?m (demo_orch_host []) = (code, s')" by fastforce
  have "''web'' = [] \<or> isl (Inr ?R :: go_error + (string \<Rightarrow> go_error + string)) \<or>
      list_ex (\<lambda>d. isl (projr (Inr ?R :: go_error + (string \<Rightarrow> go_error + string)) d)) (targets ''web'' '' , gone,db'')"
    by code_simp
  from orchestrator_resolves_first [OF this x] show ?thesis unfolding x by simp
qed

end
