(* ===== verification/TestRunner.thy ===== *)
theory TestRunner
  imports MachineConfig HostApi "HOL-Library.Word"
begin

text \<open>
  The test driver behind the \<open>vm_test\<close> rule, \<open>vmtest/cmd/testrunner/main.go\<close>: it turns its flags into
  options of the external package \<open>vm\<close>, starts a VM and looks for a marker on its serial console.
  \<open>Start\<close>, \<open>ScanForMarker\<close> and \<open>Kill\<close> of that package are arguments; a context is its timeout (a signal
  that cancels it is something \<open>Start\<close> and \<open>ScanForMarker\<close> see). The result is the exit status.
\<close>

section \<open>Definitions\<close>

record test_flags =
  t_kernel :: string
  t_initrd :: string
  t_cmdline :: string
  t_iso :: string
  t_ovmfCode :: string
  t_ovmfVars :: string
  t_disk :: string
  t_diskSize :: string
  t_memory :: string
  t_cpus :: int
  t_tpm :: bool
  t_swtpm :: string
  t_swtpmSetup :: string
  t_network :: string
  t_timeout :: int
  t_shareDir :: string
  t_qemuBin :: string
  t_qemuImg :: string
  t_machineType :: string
  t_accel :: string
  t_workDir :: string

text \<open>The defaults of the flags.\<close>

definition default_flags :: test_flags where
  "default_flags = \<lparr>t_kernel = [], t_initrd = [], t_cmdline = [], t_iso = [], t_ovmfCode = [], t_ovmfVars = [], t_disk = [],
     t_diskSize = [], t_memory = ''2G'', t_cpus = 2, t_tpm = False, t_swtpm = ''swtpm'', t_swtpmSetup = ''swtpm_setup'',
     t_network = ''user'', t_timeout = 10, t_shareDir = [], t_qemuBin = [], t_qemuImg = ''qemu-img'', t_machineType = [],
     t_accel = [], t_workDir = []\<rparr>"

text \<open>\<open>time.Duration(*timeout)*time.Minute\<close>: a product of 64-bit integers, in nanoseconds.\<close>

definition ctx_timeout :: "test_flags \<Rightarrow> int" where
  "ctx_timeout f = sint (word_of_int (t_timeout f) * 60000000000 :: 64 word)"

text \<open>\<open>if v != "" { opts = append(opts, opt) }\<close>\<close>

definition opt_if :: "bool \<Rightarrow> vm_option \<Rightarrow> vm_option list \<Rightarrow> vm_option list" where
  "opt_if b opt opts = (if b then opts @ [opt] else opts)"

definition vmtest_opts :: "test_flags \<Rightarrow> vm_option list" where
  "vmtest_opts f =
     (let opts = [vm_WithMemory (t_memory f), vm_WithCPUs (t_cpus f), vm_WithQemuImg (t_qemuImg f), vm_WithName ''vmtest'', vm_WithSerialCapture];
          opts = opt_if (t_qemuBin f \<noteq> []) (vm_WithQemuBinary (t_qemuBin f)) opts;
          opts = opt_if (t_machineType f \<noteq> []) (vm_WithMachineType (t_machineType f)) opts;
          opts = opt_if (t_accel f \<noteq> []) (vm_WithAccel (t_accel f)) opts;
          opts = opt_if (t_workDir f \<noteq> []) (vm_WithWorkDir (t_workDir f)) opts;
          opts = opt_if (t_kernel f \<noteq> []) (vm_WithKernelBoot (t_kernel f) (t_initrd f) (t_cmdline f)) opts;
          opts = opt_if (t_ovmfCode f \<noteq> [] \<and> t_ovmfVars f \<noteq> []) (vm_WithUEFI (t_ovmfCode f) (t_ovmfVars f)) opts;
          opts = opt_if (t_iso f \<noteq> []) (vm_WithISO (t_iso f)) opts;
          opts = (if t_disk f \<noteq> [] then opts @ [vm_WithExistingDisk (t_disk f)]
                  else if t_diskSize f \<noteq> [] then opts @ [vm_WithDisk (t_diskSize f)] else opts);
          opts = opt_if (t_tpm f) (vm_WithTPM (t_swtpm f) (t_swtpmSetup f)) opts;
          opts = opts @ [if t_network f = ''none'' then vm_WithNoNetwork else vm_WithUserNet]
      in opt_if (t_shareDir f \<noteq> []) (vm_With9PShare ''vmtest'' (t_shareDir f)) opts)"

text \<open>\<open>vm.Start\<close> returns the handle of the VM and whether \<open>Serial()\<close> is there. \<open>os.Exit\<close> ends the process
  without running deferred calls; a return from \<open>main\<close> runs \<open>machine.Kill()\<close>.\<close>

definition testrunner_main ::
  "(int \<Rightarrow> vm_option list \<Rightarrow> ('h, go_error + 'v \<times> bool) prog) \<Rightarrow> (int \<Rightarrow> 'v \<Rightarrow> ('h, go_error option) prog) \<Rightarrow> ('v \<Rightarrow> ('h, unit) prog) \<Rightarrow>
   test_flags \<Rightarrow> ('h host, int) state" where
  "testrunner_main Start ScanForMarker Kill f = do {
     r \<leftarrow> prog (Start (ctx_timeout f) (vmtest_opts f));
     (case r of
        Inl err \<Rightarrow> do { Eprintf ''Error starting VM: %v\<newline>'' [AErr err]; ret 1 }
      | Inr (machine, serial) \<Rightarrow>
          if \<not> serial then do { Eprintf ''Error: serial console not available\<newline>'' []; ret 1 }
          else do {
            r \<leftarrow> prog (ScanForMarker (ctx_timeout f) machine);
            (case r of
               Some err \<Rightarrow> do { Eprintf ''FAIL: %v\<newline>'' [AErr err]; ret 1 }
             | None \<Rightarrow> do {
                 Printf ''PASS\<newline>'' [];
                 prog (Kill machine);
                 ret 0
               })
          })
   }"

section \<open>Outcome\<close>

text \<open>(C32) The test passes exactly when the VM starts with a serial console and the scan of it finds no
  fault. When it passes, \<open>Kill\<close> of the VM is the last thing that happens. When it fails, \<open>os.Exit\<close> skips the
  deferred \<open>Kill\<close>: the run is the same whatever \<open>Kill\<close> does, so that a VM that is still running is left
  to run.\<close>

theorem testrunner_outcome:
  assumes "Start (ctx_timeout f) (vmtest_opts f) (files s) (ext s) = (r, fs, g)"
    and "run_state (testrunner_main Start ScanForMarker Kill f) s = (code, s')"
  shows "code = (if \<exists>v. r = Inr (v, True) \<and> fst (ScanForMarker (ctx_timeout f) v fs g) = None then 0 else 1) \<and>
    (code = 0 \<longrightarrow> (\<exists>v fs1 g1. ScanForMarker (ctx_timeout f) v fs g = (None, fs1, g1) \<and> (files s', ext s') = snd (Kill v fs1 g1))) \<and>
    (code = 1 \<longrightarrow> (\<forall>K. run_state (testrunner_main Start ScanForMarker K f) s = (code, s')))"
proof (cases r)
  case (Inl err)
  then show ?thesis using assms(2) by (auto simp: testrunner_main_def run_prog assms(1))
next
  case (Inr p)
  obtain v serial where p: "p = (v, serial)" by fastforce
  obtain e fs1 g1 where m: "ScanForMarker (ctx_timeout f) v fs g = (e, fs1, g1)" by (metis prod_cases3)
  obtain x fs2 g2 where k: "Kill v fs1 g1 = (x, fs2, g2)" by (metis prod_cases3)
  show ?thesis
  proof (cases "serial \<and> e = None")
    case True
    then have "code = 0" "snd (Kill v fs1 g1) = (files s', ext s')"
      using assms(2) by (auto simp: testrunner_main_def run_prog assms(1) Inr p m k)
    then show ?thesis using True m by (auto simp: Inr p intro!: exI [of _ v])
  next
    case False
    then show ?thesis using assms(2) by (cases serial; cases e) (auto simp: testrunner_main_def run_prog assms(1) Inr p m)
  qed
qed

theorem testrunner_outcome_witness:
  "let (code, s') = run_state (testrunner_main (\<lambda>d opts fs g. (Inr ((), True), fs, True)) (\<lambda>d v fs g. (Some (ErrExt ''FAIL''), fs, g))
      (\<lambda>v fs g. ((), fs, False)) default_flags) \<lparr>files = Map.empty, unreadable = (\<lambda>_. False), unremovable = (\<lambda>_. False), cmds = [], hevents = [], ext = False\<rparr>
   in code = 1"
proof -
  let ?S = "\<lambda>(d :: int) (opts :: vm_option list) (fs :: files) (g :: bool). (Inr ((), True) :: go_error + unit \<times> bool, fs, True)"
  let ?C = "\<lambda>(d :: int) (v :: unit) (fs :: files) (g :: bool). (Some (ErrExt ''FAIL''), fs, g)"
  let ?K = "\<lambda>(v :: unit) (fs :: files) (g :: bool). ((), fs, False)"
  let ?h = "\<lparr>files = Map.empty, unreadable = (\<lambda>_. False), unremovable = (\<lambda>_. False), cmds = [], hevents = [], ext = False\<rparr> :: bool host"
  obtain code s' where r: "run_state (testrunner_main ?S ?C ?K default_flags) ?h = (code, s')" by fastforce
  show ?thesis unfolding r using testrunner_outcome [of ?S default_flags ?h _ _ _ ?C ?K, OF _ r] by simp
qed

section \<open>Options\<close>

text \<open>The VM gets exactly one network mode; one disk at most, an existing one before a new one; UEFI
  only when code and variables are both given; and always a serial console to scan.\<close>

theorem vmtest_opts_choices:
  "filter (\<lambda>opt. opt \<in> {vm_WithNoNetwork, vm_WithUserNet}) (vmtest_opts f) = [if t_network f = ''none'' then vm_WithNoNetwork else vm_WithUserNet] \<and>
   filter (\<lambda>opt. case opt of vm_WithExistingDisk _ \<Rightarrow> True | vm_WithDisk _ \<Rightarrow> True | _ \<Rightarrow> False) (vmtest_opts f) =
     (if t_disk f \<noteq> [] then [vm_WithExistingDisk (t_disk f)] else if t_diskSize f \<noteq> [] then [vm_WithDisk (t_diskSize f)] else []) \<and>
   filter (\<lambda>opt. case opt of vm_WithUEFI _ _ \<Rightarrow> True | _ \<Rightarrow> False) (vmtest_opts f) =
     (if t_ovmfCode f = [] \<or> t_ovmfVars f = [] then [] else [vm_WithUEFI (t_ovmfCode f) (t_ovmfVars f)]) \<and>
   vm_WithSerialCapture \<in> set (vmtest_opts f)"
proof -
  have o: "filter P (opt_if b opt opts) = filter P opts @ (if b \<and> P opt then [opt] else [])" for P b opt opts
    by (simp add: opt_if_def)
  have m: "opt' \<in> set opts \<Longrightarrow> opt' \<in> set (opt_if b opt opts)" for opt' b opt opts by (simp add: opt_if_def)
  have d: "opt' \<in> set opts \<Longrightarrow> opt' \<in> set (if b then opts @ x else if c then opts @ y else opts)" for opt' :: vm_option and b c x y opts by simp
  show ?thesis
  proof (intro conjI)
    show "vm_WithSerialCapture \<in> set (vmtest_opts f)"
      unfolding vmtest_opts_def Let_def by (intro m d, simp only: set_append, intro UnI1 m d) simp
  qed (simp_all add: vmtest_opts_def Let_def o)
qed

section \<open>The timeout\<close>

text \<open>(C34) The timeout is kept exactly when it is of at most 153722867 minutes; from one minute more on,
  up to twice that, the product of 64-bit integers is negative, so that the context has expired before the
  VM starts.\<close>

theorem ctx_timeout_exact:
  "(ctx_timeout f = t_timeout f * 60000000000 \<longleftrightarrow> \<bar>t_timeout f\<bar> \<le> 153722867) \<and>
   (t_timeout f \<in> {153722868..307445734} \<longrightarrow> ctx_timeout f < 0)"
proof -
  have c: "ctx_timeout f = signed_take_bit 63 (t_timeout f * 60000000000)"
  proof -
    have "word_of_int (t_timeout f) * 60000000000 = (word_of_int (t_timeout f * 60000000000) :: 64 word)" by simp
    then show ?thesis by (simp only: ctx_timeout_def sint_sbintrunc') simp
  qed
  have e: "signed_take_bit 63 x = x \<longleftrightarrow> - (2 ^ 63) \<le> x \<and> x < 2 ^ 63" for x :: int
    by (rule signed_take_bit_int_eq_self_iff)
  have n: "signed_take_bit 63 x < 0" if "2 ^ 63 \<le> x" "x < 2 ^ 64" for x :: int
  proof -
    have "x div 2 ^ 63 = 1" using that by (intro div_pos_geq [THEN trans]) auto
    then show ?thesis by (simp add: signed_take_bit_negative_iff bit_iff_odd)
  qed
  show ?thesis
  proof
    show "ctx_timeout f = t_timeout f * 60000000000 \<longleftrightarrow> \<bar>t_timeout f\<bar> \<le> 153722867" unfolding c e by simp arith
    show "t_timeout f \<in> {153722868..307445734} \<longrightarrow> ctx_timeout f < 0" unfolding c by (intro impI n) simp_all
  qed
qed

theorem ctx_timeout_exact_witness: "ctx_timeout default_flags = 600000000000 \<and> ctx_timeout (default_flags\<lparr>t_timeout := 200000000\<rparr>) < 0"
  using ctx_timeout_exact [of default_flags] ctx_timeout_exact [of "default_flags\<lparr>t_timeout := 200000000\<rparr>"] by (simp add: default_flags_def)

end
