(* ===== verification/Spec2Isabelle.thy ===== *)
theory Spec2Isabelle
  imports MachineLife RunnerEnd OrchestratorProps TestRunner
begin

text \<open>
  Verification of \<open>rules_vmtest\<close>, Go packages and commands that boot QEMU virtual machines for
  tests and for development.

  \<^bold>\<open>The program and its parts.\<close>

  \<^item> \<open>machine\<close> (\<open>machine/machine.go\<close>) is the library a Go test uses: \<open>New\<close> boots a VM described by the
    environment, connects to the agent in the guest and registers the clean-up; the methods of \<open>Machine\<close>
    run commands, wait for units, ports, files, HTTP answers and log lines, and look at the guest.
  \<^item> \<open>runner\<close> (\<open>runner/*.go\<close>) builds and runs a VM on a host: it checks the bridge and the tap devices,
    prepares disk, firmware variables and TPM state, starts the TPM emulator and QEMU, streams QEMU's
    output and stops what it started. \<open>vmtest/cmd/main.go\<close> is the command around it.
  \<^item> \<open>vmtest/cmd/testrunner/main.go\<close> boots a VM and looks for a marker on its serial console.
  \<^item> \<open>orchestrator/main.go\<close> keeps one tmux window per VM command and runs one command in the foreground.

  \<^bold>\<open>How the code is modelled.\<close> A Go function that returns \<open>(v, err)\<close> gives \<open>go_error + 'a\<close>, one that returns
  \<open>error\<close> a \<open>go_error option\<close> or \<open>go_error + unit\<close>. Code that prints, runs programs and changes files is a
  state program (\<open>State_Monad\<close>) whose lines are those of the source; \<open>machine\<close> passes its \<open>world\<close> explicitly.
  Formatted messages keep format string and arguments; strings the program computes with are rendered.
  Format strings are the source's. Every early return, \<open>t.Fatalf\<close>, panic and \<open>os.Exit\<close> is a branch.
  What is not in the repository is an argument: the package \<open>github.com/mikn/rules_qemu/vm\<close>, the
  guest, tmux, \<open>ip\<close>, \<open>qemu-img\<close>, QEMU, runfiles, the regexp engine. Theorems that rely on documented
  behaviour of one of them name it as a contract (\<open>swtpm_contract\<close>, \<open>tools_contract\<close>, \<open>tmux_contract\<close>,
  \<open>foreground_keeps\<close>), and the witness of such a theorem gives an instance.

  \<^bold>\<open>The theories.\<close>

  \<^item> \<open>Prelude\<close>: errors, format arguments, state programs with Hoare triples (\<open>triple\<close>) and invariants
    (\<open>preserves\<close>), the collections of rules the proofs use. \<open>GoStd\<close>: the functions of \<open>strings\<close>, \<open>strconv\<close>, \<open>fmt\<close>
    and \<open>path/filepath\<close> the sources call, with their laws.
  \<^item> \<open>MachineConfig\<close>: functional options and the environment; one locale \<open>functional_options\<close> with an
    interpretation for each kind of option; \<open>shellQuote\<close> is undone by a shell, \<open>VMTEST_*\<close> variables give
    exactly the documented options.
  \<^item> \<open>VmApi\<close>, \<open>Polling\<close>, \<open>MachineOps\<close>: the guest agent, the clock and the polling loop (a partial function, so
    that not ending is \<open>None\<close>); the locales \<open>polling\<close> and \<open>polling_rpc\<close>, interpreted on the loop body of each
    waiting operation, give termination, the result of the first successful round, a bound on the
    number of rounds, and that nothing times out early.
  \<^item> \<open>MachineLife\<close>: \<open>New\<close>, \<open>DumpOnFailure\<close> and the order of clean-ups at the end of a test.
  \<^item> \<open>HostApi\<close>: files, commands, signals and the trace of what a process does to its host.
  \<^item> \<open>ProcessManager\<close>, \<open>Streamer\<close>: \<open>runner/process_manager.go\<close>; the exact signals of \<open>CleanupAll\<close>, that
    tagged output loses no byte, and that it is the lines of the filtered output as long as these fit the buffer.
  \<^item> \<open>QemuArgs\<close>: \<open>runner/config.go\<close>, \<open>runner/qemu.go\<close> and the defaults of \<open>NewRunner\<close>; the command line is
    read back as QEMU reads it: references resolve, identifiers and addresses are unique, the boot order is right.
  \<^item> \<open>RunnerHost\<close>, \<open>Runner\<close>: \<open>runner/network.go\<close>, \<open>utils.go\<close>, \<open>tpm.go\<close>, \<open>runner.go\<close>.
    \<open>RunnerSafety\<close> shows that no run leaves the TPM emulator behind (locales \<open>host_frame\<close> and
    \<open>deferred_cleanup\<close>), \<open>RunnerProps\<close> that nothing starts unchecked and that
    a run finds what a build left, \<open>RunnerEnd\<close> that run mode waits for QEMU and that a build succeeds only when
    QEMU has exited with status 0.
  \<^item> \<open>VmtestCmd\<close>: \<open>vmtest/cmd/main.go\<close>, from the build-time variables to the runner, and what the
    composition of command and runner guarantees. A signal (\<open>main_event\<close>) comes at a chosen point of the trace
    of \<open>Run\<close>: \<open>main\<close> prints its message there, \<open>Cancel\<close> lets \<open>os/exec\<close> kill the started processes at chosen later
    points, and \<open>main\<close> waits for the rest of the trace; in run mode with direct output, where no handler is
    installed, the trace ends at the signal (\<open>Killed\<close>).
  \<^item> \<open>TestRunner\<close>: \<open>vmtest/cmd/testrunner/main.go\<close>.
  \<^item> \<open>Orchestrator\<close>, \<open>OrchestratorProps\<close>: \<open>orchestrator/main.go\<close>; a session refines a multiset of window names
    (locale \<open>window_store\<close>), on which start-up and \<open>--run\<close> are specified.

  \<^bold>\<open>Bounds.\<close> No fuel is used. Integers are Go's \<open>int\<close> where they are read from strings (\<open>Atoi\<close> reports what
  does not fit 64 bits); the timeout of the test driver is a product of 64-bit words. The 4096-byte
  buffer of a tagged stream and the 64 KiB of \<open>bufio.Scanner\<close> are the source's and the library's.

  \<^bold>\<open>Not modelled.\<close> The interleaving of goroutines beyond that of a signal with \<open>Run\<close>: a stream's lines are
  recorded when its wait group is waited for, a mutex-protected method is one step, and what the runner sees of
  a cancelled context and of the goroutine that waits for QEMU is up to the environment (\<open>wait_event\<close>,
  \<open>sys_Start\<close>, \<open>sys_Wait\<close>), so that the theorems hold for every answer. A signal before \<open>Run\<close> is called. The parsing of flags (\<open>flag.Parse\<close>). The environment variables passed on to a child,
  except those tmux is given. Starlark rules, shell scripts, tests and examples: they configure or use
  the code above. Memory, the clock of the host and file permissions beyond read and remove.
\<close>

end
